(* ===== verification/Prelude.thy ===== *)
theory Prelude
  imports Main "HOL-Library.Word" "HOL-Library.Multiset"
begin

text \<open>
  Shared material: the fixed-width integer types of the code, the ordered containers of the
  C++ standard library that several components use, and the interfaces (locales) under which
  their clients' lemmas are proved once.

  \<^item> \<open>u8\<close>, \<open>u16\<close>, \<open>u32\<close>, \<open>u64\<close> name \<open>uint8\<close> .. \<open>uint64\<close>; their \<open>+\<close> and \<open>-\<close> wrap.
  \<^item> \<open>mm_insert\<close> is \<open>std::multimap::insert\<close>: a list of pairs kept sorted by key, where a new
    pair goes behind every pair whose key is not greater (the upper bound).
  \<^item> \<open>machine\<close> is the interface of a component that is driven by a sequence of calls, and
    \<open>fallible_machine\<close> that of one whose calls may stop the program (a failed \<open>ASSERT\<close>).
\<close>

unbundle bit_operations_syntax

section \<open>Machine integers\<close>

type_synonym u8 = "8 word"
type_synonym u16 = "16 word"
type_synonym u32 = "32 word"
type_synonym u64 = "64 word"

named_theorems bits32 "facts on masks and single bits of 32-bit words"

lemma bit_pow2 [bits32]:
  "bit (2 ^ n :: 'a::len word) k \<longleftrightarrow> k = n \<and> n < LENGTH('a)"
  by (auto simp: bit_simps)

lemma bit_0xFFFF [bits32]: "bit (0xFFFF :: u32) k \<longleftrightarrow> k < 16"
proof -
  have "(0xFFFF :: u32) = mask 16" by (simp add: mask_eq_exp_minus_1)
  then show ?thesis by (simp only: bit_mask_iff) auto
qed

lemma or_pow2_low16 [bits32]:
  fixes w :: u32
  assumes "16 \<le> n"
  shows "(w OR 2 ^ n) AND 0xFFFF = w AND 0xFFFF"
proof (rule bit_word_eqI)
  fix k
  show "bit ((w OR 2 ^ n) AND 0xFFFF) k = bit (w AND 0xFFFF) k"
    unfolding bit_and_iff bit_or_iff bit_0xFFFF bit_pow2 using assms by auto
qed

lemma word_eq_0_bits: "(w :: 'a::len word) = 0 \<longleftrightarrow> (\<forall>k. \<not> bit w k)"
  by (auto intro: bit_word_eqI)

lemma and_pow2_eq_0 [bits32]: "(w :: 'a::len word) AND 2 ^ n = 0 \<longleftrightarrow> \<not> bit w n"
  unfolding word_eq_0_bits bit_and_iff bit_pow2 by (auto dest: bit_imp_le_length)

text \<open>Testing a field of a word in place, or after shifting it down.\<close>

lemma and_push_bit_eq_0:
  fixes e m :: "'a::len word"
  assumes fits: "\<And>k. bit m k \<Longrightarrow> n + k < LENGTH('a)"
  shows "e AND push_bit n m = 0 \<longleftrightarrow> drop_bit n e AND m = 0"
proof
  assume z: "e AND push_bit n m = 0"
  show "drop_bit n e AND m = 0"
  proof (rule bit_word_eqI)
    fix k
    have "bit (e AND push_bit n m) (n + k) = False" using z by simp
    then show "bit (drop_bit n e AND m) k = bit 0 k"
      using fits [of k] by (auto simp: bit_and_iff bit_push_bit_iff bit_drop_bit_eq)
  qed
next
  assume z: "drop_bit n e AND m = 0"
  show "e AND push_bit n m = 0"
  proof (rule bit_word_eqI)
    fix k
    have "bit (drop_bit n e AND m) (k - n) = False" using z by simp
    then show "bit (e AND push_bit n m) k = bit 0 k"
      by (auto simp: bit_and_iff bit_push_bit_iff bit_drop_bit_eq)
  qed
qed

section \<open>Results of code that throws\<close>

text \<open>\<open>Inl e\<close> is the exception \<open>e\<close>, \<open>Inr x\<close> the value \<open>x\<close>; \<open>andthen\<close> sequences.\<close>

fun andthen :: "'e + 'a \<Rightarrow> ('a \<Rightarrow> 'e + 'b) \<Rightarrow> 'e + 'b" where
  "andthen (Inl e) f = Inl e"
| "andthen (Inr x) f = f x"

lemma andthen_Inr_iff: "andthen r f = Inr y \<longleftrightarrow> (\<exists>x. r = Inr x \<and> f x = Inr y)"
  by (cases r) auto

lemma andthen_Inl_iff: "andthen r f = Inl e \<longleftrightarrow> r = Inl e \<or> (\<exists>x. r = Inr x \<and> f x = Inl e)"
  by (cases r) auto

section \<open>Little-endian bytes\<close>

definition le_bytes :: "nat \<Rightarrow> 'a::len word \<Rightarrow> u8 list" where
  "le_bytes n w = map (\<lambda>i. ucast (drop_bit (8 * i) w)) [0..<n]"

fun le_word :: "u8 list \<Rightarrow> 'a::len word" where
  "le_word [] = 0"
| "le_word (b # bs) = ucast b OR push_bit 8 (le_word bs)"

lemma length_le_bytes [simp]: "length (le_bytes n w) = n"
  by (simp add: le_bytes_def)

lemma nth_le_bytes [simp]: "i < n \<Longrightarrow> le_bytes n w ! i = ucast (drop_bit (8 * i) w)"
  by (simp add: le_bytes_def)

lemma bit_le_word:
  "bit (le_word bs :: 'a::len word) k \<longleftrightarrow>
     k < LENGTH('a) \<and> k div 8 < length bs \<and> bit (bs ! (k div 8)) (k mod 8)"
proof (induction bs arbitrary: k)
  case Nil
  show ?case by simp
next
  case (Cons b bs)
  show ?case
  proof (cases "k < 8")
    case True
    then show ?thesis by (auto simp: bit_or_iff bit_push_bit_iff bit_unsigned_iff dest: bit_imp_le_length)
  next
    case False
    then obtain j where k: "k = j + 8" by (metis add.commute le_add_diff_inverse not_less)
    have d: "(j + 8) div 8 = Suc (j div 8)" by simp
    have "\<not> bit b k" using False bit_imp_le_length [of b k] by auto
    with k Cons.IH [of j] show ?thesis
      by (auto simp: d bit_or_iff bit_push_bit_iff bit_unsigned_iff dest: bit_imp_le_length)
  qed
qed

lemma le_word_le_bytes:
  assumes "LENGTH('a) = 8 * n"
  shows "le_word (le_bytes n w) = (w :: 'a::len word)"
proof (rule bit_word_eqI)
  fix k assume "k < LENGTH('a)"
  with assms have "k div 8 < n" by simp
  then show "bit (le_word (le_bytes n w) :: 'a word) k = bit w k"
    using \<open>k < LENGTH('a)\<close> by (simp add: bit_le_word bit_unsigned_iff bit_drop_bit_eq)
qed

lemma le_bytes_le_word:
  assumes "8 * length bs \<le> LENGTH('a::len)"
  shows "le_bytes (length bs) (le_word bs :: 'a word) = bs"
proof (rule nth_equalityI)
  fix i assume "i < length (le_bytes (length bs) (le_word bs :: 'a word))"
  then have i: "i < length bs" by simp
  show "le_bytes (length bs) (le_word bs :: 'a word) ! i = bs ! i"
    unfolding nth_le_bytes [OF i]
  proof (rule bit_word_eqI)
    fix k assume k: "k < LENGTH(8)"
    with i assms have "8 * i + k < LENGTH('a)" by simp
    with k i show "bit (ucast (drop_bit (8 * i) (le_word bs :: 'a word)) :: u8) k = bit (bs ! i) k"
      by (simp add: bit_le_word bit_unsigned_iff bit_drop_bit_eq)
  qed
qed simp

section \<open>Ordered multimaps\<close>

type_synonym ('k, 'v) multimap = "('k \<times> 'v) list"

definition mm_sorted :: "('k::linorder, 'v) multimap \<Rightarrow> bool" where
  "mm_sorted m \<longleftrightarrow> sorted (map fst m)"

fun mm_insert :: "'k::linorder \<Rightarrow> 'v \<Rightarrow> ('k, 'v) multimap \<Rightarrow> ('k, 'v) multimap" where
  "mm_insert k v [] = [(k, v)]"
| "mm_insert k v (e # m) = (if fst e \<le> k then e # mm_insert k v m else (k, v) # e # m)"

text \<open>The range insertion \<open>m.insert(d.begin(), d.end())\<close>.\<close>

fun mm_insert_all :: "('k::linorder, 'v) multimap \<Rightarrow> ('k, 'v) multimap \<Rightarrow> ('k, 'v) multimap" where
  "mm_insert_all [] m = m"
| "mm_insert_all (e # d) m = mm_insert_all d (mm_insert (fst e) (snd e) m)"

lemma mset_mm_insert [simp]: "mset (mm_insert k v m) = add_mset (k, v) (mset m)"
  by (induction m) auto

lemma set_mm_insert [simp]: "set (mm_insert k v m) = insert (k, v) (set m)"
  by (induction m) auto

lemma length_mm_insert [simp]: "length (mm_insert k v m) = Suc (length m)"
  by (induction m) auto

lemma mm_insert_not_Nil [simp]: "mm_insert k v m \<noteq> []" "[] \<noteq> mm_insert k v m"
  by (metis length_mm_insert list.size(3) nat.distinct(1))+

lemma mm_sorted_Nil [simp]: "mm_sorted []"
  by (simp add: mm_sorted_def)

lemma mm_sorted_Cons: "mm_sorted (e # m) \<longleftrightarrow> (\<forall>x \<in> set m. fst e \<le> fst x) \<and> mm_sorted m"
  by (auto simp: mm_sorted_def)

lemma mm_sorted_tl: "mm_sorted m \<Longrightarrow> mm_sorted (tl m)"
  by (cases m) (auto simp: mm_sorted_Cons)

lemma mm_sorted_insert [simp]: "mm_sorted m \<Longrightarrow> mm_sorted (mm_insert k v m)"
  by (induction m) (auto simp: mm_sorted_Cons)

lemma mm_sorted_filter [simp]: "mm_sorted m \<Longrightarrow> mm_sorted (filter P m)"
  by (simp add: mm_sorted_def sorted_filter)

lemma mm_sorted_insert_all [simp]: "mm_sorted m \<Longrightarrow> mm_sorted (mm_insert_all d m)"
  by (induction d arbitrary: m) auto

lemma mset_mm_insert_all [simp]: "mset (mm_insert_all d m) = mset d + mset m"
  by (induction d arbitrary: m) auto

lemma set_mm_insert_all [simp]: "set (mm_insert_all d m) = set d \<union> set m"
  by (induction d arbitrary: m) auto

lemma filter_mm_insert_other:
  "\<not> P (k, v) \<Longrightarrow> filter P (mm_insert k v m) = filter P m"
  by (induction m) auto

lemma mm_insert_above:
  "\<forall>x \<in> set m. fst x \<le> k \<Longrightarrow> mm_insert k v m = m @ [(k, v)]"
  by (induction m) auto

lemma mm_insert_append_above:
  "\<forall>x \<in> set m. fst x \<le> k \<Longrightarrow> mm_insert k v (m @ n) = m @ mm_insert k v n"
  by (induction m) auto

section \<open>Interfaces\<close>

text \<open>
  A component driven by calls: \<open>step\<close> is one call, \<open>inv\<close> what every call keeps. The run of a
  list of calls is \<open>foldl step\<close>.
\<close>

locale machine =
  fixes step :: "'s \<Rightarrow> 'c \<Rightarrow> 's"
    and inv :: "'s \<Rightarrow> bool"
  assumes step_inv: "inv s \<Longrightarrow> inv (step s c)"
begin

lemma run_inv: "inv s \<Longrightarrow> inv (foldl step s cs)"
  by (induction cs arbitrary: s) (auto intro: step_inv)

lemma run_prefix_inv: "inv s \<Longrightarrow> inv (foldl step s (take n cs))"
  by (rule run_inv)

end

text \<open>
  A component whose calls may abort the program, or refuse: \<open>None\<close> is the abort. The
  invariant holds of every state in which the program is still running.
\<close>

fun run_calls :: "('s \<Rightarrow> 'c \<Rightarrow> 's option) \<Rightarrow> 's \<Rightarrow> 'c list \<Rightarrow> 's option" where
  "run_calls step s [] = Some s"
| "run_calls step s (c # cs) =
     (case step s c of None \<Rightarrow> None | Some t \<Rightarrow> run_calls step t cs)"

locale fallible_machine =
  fixes step :: "'s \<Rightarrow> 'c \<Rightarrow> 's option"
    and inv :: "'s \<Rightarrow> bool"
  assumes step_inv: "inv s \<Longrightarrow> step s c = Some t \<Longrightarrow> inv t"
begin

lemma run_inv: "inv s \<Longrightarrow> run_calls step s cs = Some t \<Longrightarrow> inv t"
  by (induction cs arbitrary: s) (auto intro: step_inv split: option.splits)

end

text \<open>
  A component whose calls cannot abort from a good state: the run then always returns, and
  its result is good.
\<close>

locale safe_machine = fallible_machine +
  assumes step_defined: "inv s \<Longrightarrow> \<exists>t. step s c = Some t"
begin

lemma run_defined: "inv s \<Longrightarrow> \<exists>t. run_calls step s cs = Some t \<and> inv t"
proof (induction cs arbitrary: s)
  case Nil
  then show ?case by simp
next
  case (Cons c cs)
  then obtain t where "step s c = Some t" and "inv t"
    using step_defined step_inv by blast
  with Cons.IH show ?case by auto
qed

end

end
