(* ===== verification/EventMap.thy ===== *)
theory EventMap
  imports Prelude
begin

text \<open>
  \<^verbatim>\<open>src/src/common/Utilities/EventMap.{h,cpp}\<close>: the stopwatch of timed events that creature and
  instance scripts run on. The state is the record \<open>event_map\<close> (the fields \<open>_time\<close>, \<open>_phase\<close>,
  \<open>_eventMap\<close>, \<open>_lastEvent\<close>); the store is a multimap from the due time to the packed event:
  bits 0 to 15 the event id, bits 16 to 23 its group, bits 24 to 31 its phase. \<open>urand\<close> is the
  random draw of the overloads with a time range and is a parameter. The model is the release
  build, where \<open>DEBUG_ASSERT\<close> is no code.
\<close>

section \<open>State and operations\<close>

record event_map =
  em_time :: u32
  em_phase :: u8
  em_last :: u32
  em_events :: "(u32, u32) multimap"

definition EventMap_init :: event_map where
  "EventMap_init = \<lparr>em_time = 0, em_phase = 0, em_last = 0, em_events = []\<rparr>"

definition EventMap_Empty :: "event_map \<Rightarrow> bool" where
  "EventMap_Empty m \<longleftrightarrow> em_events m = []"






definition EventMap_IsInPhase :: "u8 \<Rightarrow> event_map \<Rightarrow> bool" where
  "EventMap_IsInPhase phase m \<longleftrightarrow>
     phase \<le> 8 \<and> (phase = 0 \<or> em_phase m AND push_bit (unat phase - 1) 1 \<noteq> 0)"


text \<open>The packing of grp and phase into the stored event, then the insertion.\<close>

definition event_with_group :: "u32 \<Rightarrow> u32 \<Rightarrow> u32" where
  "event_with_group grp eventId =
     (if grp \<noteq> 0 \<and> grp \<le> 8 then eventId OR push_bit (unat grp + 15) 1 else eventId)"

definition event_with_phase :: "u8 \<Rightarrow> u32 \<Rightarrow> u32" where
  "event_with_phase phase eventId =
     (if phase \<noteq> 0 \<and> phase \<le> 8 then eventId OR push_bit (unat phase + 23) 1 else eventId)"

definition EventMap_ScheduleEvent :: "u32 \<Rightarrow> u32 \<Rightarrow> u32 \<Rightarrow> u8 \<Rightarrow> event_map \<Rightarrow> event_map" where
  "EventMap_ScheduleEvent eventId time grp phase m =
     m\<lparr>em_events := mm_insert (em_time m + time)
         (event_with_phase phase (event_with_group grp eventId)) (em_events m)\<rparr>"

text \<open>The overloads: \<open>Milliseconds\<close> counts are 64-bit and are cut to 32 bits.\<close>

definition EventMap_ScheduleEvent_ms :: "u32 \<Rightarrow> u64 \<Rightarrow> u32 \<Rightarrow> u8 \<Rightarrow> event_map \<Rightarrow> event_map" where
  "EventMap_ScheduleEvent_ms eventId time grp phase m =
     EventMap_ScheduleEvent eventId (ucast time) grp phase m"

definition EventMap_ScheduleEvent_range ::
  "(u32 \<Rightarrow> u32 \<Rightarrow> u32) \<Rightarrow> u32 \<Rightarrow> u64 \<Rightarrow> u64 \<Rightarrow> u32 \<Rightarrow> u32 \<Rightarrow> event_map \<Rightarrow> event_map" where
  "EventMap_ScheduleEvent_range urand eventId minTime maxTime grp phase m =
     EventMap_ScheduleEvent eventId (urand (ucast minTime) (ucast maxTime)) grp (ucast phase) m"

definition event_id :: "u32 \<Rightarrow> u32" where
  "event_id e = e AND 0x0000FFFF"

definition EventMap_CancelEvent :: "u32 \<Rightarrow> event_map \<Rightarrow> event_map" where
  "EventMap_CancelEvent eventId m =
     m\<lparr>em_events := filter (\<lambda>e. eventId \<noteq> event_id (snd e)) (em_events m)\<rparr>"

definition EventMap_RescheduleEvent :: "u32 \<Rightarrow> u32 \<Rightarrow> u32 \<Rightarrow> u8 \<Rightarrow> event_map \<Rightarrow> event_map" where
  "EventMap_RescheduleEvent eventId time grp phase m =
     EventMap_ScheduleEvent eventId time grp phase (EventMap_CancelEvent eventId m)"

definition EventMap_RescheduleEvent_range ::
  "(u32 \<Rightarrow> u32 \<Rightarrow> u32) \<Rightarrow> u32 \<Rightarrow> u64 \<Rightarrow> u64 \<Rightarrow> u32 \<Rightarrow> u32 \<Rightarrow> event_map \<Rightarrow> event_map" where
  "EventMap_RescheduleEvent_range urand eventId minTime maxTime grp phase m =
     EventMap_RescheduleEvent eventId (urand (ucast minTime) (ucast maxTime)) grp (ucast phase) m"

definition EventMap_Repeat :: "u32 \<Rightarrow> event_map \<Rightarrow> event_map" where
  "EventMap_Repeat time m =
     m\<lparr>em_events := mm_insert (em_time m + time) (em_last m) (em_events m)\<rparr>"

definition EventMap_Repeat_range ::
  "(u32 \<Rightarrow> u32 \<Rightarrow> u32) \<Rightarrow> u32 \<Rightarrow> u32 \<Rightarrow> event_map \<Rightarrow> event_map" where
  "EventMap_Repeat_range urand minTime maxTime m = EventMap_Repeat (urand minTime maxTime) m"

text \<open>
  \<open>ExecuteEvent\<close>: the loop drops due events of another phase until the first event is not
  due (it returns 0) or can run (its id is returned and \<open>_lastEvent\<close> records it whole).
\<close>

definition exec_out_of_phase :: "u8 \<Rightarrow> u32 \<Rightarrow> bool" where
  "exec_out_of_phase phase e \<longleftrightarrow>
     phase \<noteq> 0 \<and> e AND 0xFF000000 \<noteq> 0 \<and> drop_bit 24 e AND ucast phase = 0"

fun exec_loop :: "u32 \<Rightarrow> u8 \<Rightarrow> (u32, u32) multimap \<Rightarrow> u32 option \<times> (u32, u32) multimap" where
  "exec_loop time phase [] = (None, [])"
| "exec_loop time phase (e # es) =
     (if fst e > time then (None, e # es)
      else if exec_out_of_phase phase (snd e) then exec_loop time phase es
      else (Some (snd e), es))"

definition EventMap_ExecuteEvent :: "event_map \<Rightarrow> u32 \<times> event_map" where
  "EventMap_ExecuteEvent m =
     (case exec_loop (em_time m) (em_phase m) (em_events m) of
        (None, es) \<Rightarrow> (0, m\<lparr>em_events := es\<rparr>)
      | (Some e, es) \<Rightarrow> (event_id e, m\<lparr>em_last := e, em_events := es\<rparr>))"

text \<open>\<open>GetEvent\<close> is the same loop, with its own test of the phase, and keeps the event it finds.\<close>

definition get_out_of_phase :: "u8 \<Rightarrow> u32 \<Rightarrow> bool" where
  "get_out_of_phase phase e \<longleftrightarrow>
     phase \<noteq> 0 \<and> e AND 0xFF000000 \<noteq> 0 \<and> e AND push_bit 24 (ucast phase) = 0"

fun get_loop :: "u32 \<Rightarrow> u8 \<Rightarrow> (u32, u32) multimap \<Rightarrow> u32 \<times> (u32, u32) multimap" where
  "get_loop time phase [] = (0, [])"
| "get_loop time phase (e # es) =
     (if fst e > time then (0, e # es)
      else if get_out_of_phase phase (snd e) then get_loop time phase es
      else (event_id (snd e), e # es))"

definition EventMap_GetEvent :: "event_map \<Rightarrow> u32 \<times> event_map" where
  "EventMap_GetEvent m =
     (case get_loop (em_time m) (em_phase m) (em_events m) of
        (r, es) \<Rightarrow> (r, m\<lparr>em_events := es\<rparr>))"

definition EventMap_DelayEvents :: "u32 \<Rightarrow> event_map \<Rightarrow> event_map" where
  "EventMap_DelayEvents delay m =
     m\<lparr>em_time := (if delay < em_time m then em_time m - delay else 0)\<rparr>"

text \<open>
  \<open>DelayEvents\<close> of a group: the loop moves the group's events, later by \<open>delay\<close>, into the map
  \<open>delayed\<close>, which is then inserted back.
\<close>

definition in_group :: "u32 \<Rightarrow> u32 \<Rightarrow> bool" where
  "in_group grp e \<longleftrightarrow> e AND push_bit (unat grp + 15) 1 \<noteq> 0"

fun delay_loop :: "u32 \<Rightarrow> u32 \<Rightarrow> (u32, u32) multimap \<Rightarrow> (u32, u32) multimap \<Rightarrow>
    (u32, u32) multimap \<times> (u32, u32) multimap" where
  "delay_loop delay grp delayed [] = (delayed, [])"
| "delay_loop delay grp delayed (e # es) =
     (if in_group grp (snd e)
      then delay_loop delay grp (mm_insert (fst e + delay) (snd e) delayed) es
      else (case delay_loop delay grp delayed es of (d, r) \<Rightarrow> (d, e # r)))"

definition EventMap_DelayEvents_group :: "u32 \<Rightarrow> u32 \<Rightarrow> event_map \<Rightarrow> event_map" where
  "EventMap_DelayEvents_group delay grp m =
     (if grp = 0 \<or> grp > 8 \<or> EventMap_Empty m then m
      else case delay_loop delay grp [] (em_events m) of
             (delayed, rest) \<Rightarrow> m\<lparr>em_events := mm_insert_all delayed rest\<rparr>)"

text \<open>
  \<open>SetMinimalDelay\<close> inserts while it iterates: an event that is moved goes behind the cursor
  (its new key is greater than the key the cursor stands on) and is met again. The loop
  keeps the events passed and those still ahead.
\<close>

function min_delay_loop :: "u32 \<Rightarrow> u32 \<Rightarrow> (u32, u32) multimap \<Rightarrow> (u32, u32) multimap" where
  "min_delay_loop eventId delay [] = []"
| "min_delay_loop eventId delay (e # es) =
     (if eventId = event_id (snd e) \<and> fst e < delay
      then min_delay_loop eventId delay (mm_insert delay (snd e) es)
      else e # min_delay_loop eventId delay es)"
  by pat_completeness auto
termination
proof (relation "measures [\<lambda>(i, d, es). size (filter_mset (\<lambda>e. i = event_id (snd e) \<and> fst e < d) (mset es)),
                           \<lambda>(i, d, es). length es]", goal_cases)
  case 1
  then show ?case by simp
next
  case (2 i d e es)
  then show ?case by simp
next
  case (3 i d e es)
  then show ?case by auto
qed

definition EventMap_SetMinimalDelay :: "u32 \<Rightarrow> u32 \<Rightarrow> event_map \<Rightarrow> event_map" where
  "EventMap_SetMinimalDelay eventId delay m =
     (if EventMap_Empty m then m
      else m\<lparr>em_events := min_delay_loop eventId delay (em_events m)\<rparr>)"


definition EventMap_GetNextEventTime :: "event_map \<Rightarrow> u32" where
  "EventMap_GetNextEventTime m = (case em_events m of [] \<Rightarrow> 0 | e # _ \<Rightarrow> fst e)"

definition EventMap_GetNextEventTime_id :: "u32 \<Rightarrow> event_map \<Rightarrow> u32" where
  "EventMap_GetNextEventTime_id eventId m =
     (if EventMap_Empty m then 0
      else case find (\<lambda>e. eventId = event_id (snd e)) (em_events m) of
             None \<Rightarrow> 0 | Some e \<Rightarrow> fst e)"

definition EventMap_GetTimeUntilEvent :: "u32 \<Rightarrow> event_map \<Rightarrow> u32" where
  "EventMap_GetTimeUntilEvent eventId m =
     (case find (\<lambda>e. eventId = event_id (snd e)) (em_events m) of
        None \<Rightarrow> - 1 | Some e \<Rightarrow> fst e - em_time m)"

section \<open>The packed event\<close>

lemma and_0xFF000000_eq_0:
  "(e :: u32) AND 0xFF000000 = 0 \<longleftrightarrow> drop_bit 24 e = 0"
proof -
  have m: "(0xFF000000 :: u32) = push_bit 24 (mask 8)"
    by (simp add: mask_eq_exp_minus_1)
  have "e AND push_bit 24 (mask 8) = 0 \<longleftrightarrow> drop_bit 24 e AND mask 8 = 0"
    by (rule and_push_bit_eq_0) (simp add: bit_mask_iff)
  moreover have "drop_bit 24 e AND mask 8 = drop_bit 24 e"
    by (rule bit_word_eqI) (auto simp: bit_and_iff bit_mask_iff bit_drop_bit_eq dest: bit_imp_le_length)
  ultimately show ?thesis by (simp only: m)
qed

lemma out_of_phase_tests_agree: "get_out_of_phase p e = exec_out_of_phase p e"
proof -
  have "e AND push_bit 24 (ucast p) = 0 \<longleftrightarrow> drop_bit 24 e AND ucast p = 0"
    by (rule and_push_bit_eq_0) (auto simp: bit_simps dest: bit_imp_le_length)
  then show ?thesis by (simp add: get_out_of_phase_def exec_out_of_phase_def)
qed

lemma unat_le_8: "(x :: u32) \<le> 8 \<Longrightarrow> unat x \<le> 8" "(y :: u8) \<le> 8 \<Longrightarrow> unat y \<le> 8"
  by (simp_all add: word_le_nat_alt)

lemma bit_low16:
  assumes "(w :: u32) < 0x10000" and "bit w k"
  shows "k < 16"
proof (rule ccontr)
  assume "\<not> k < 16"
  then have "2 ^ 16 \<le> (2 :: nat) ^ k" by (intro power_increasing) simp_all
  moreover have "unat w < 2 ^ 16" using assms(1) by (simp add: word_less_nat_alt)
  ultimately have "unat w div 2 ^ k = 0" by simp
  moreover have "bit (unat w) k" using assms(2) by (simp add: bit_unsigned_iff bit_imp_le_length)
  ultimately show False by (simp add: bit_iff_odd)
qed

lemma bit_packed_event:
  assumes "g \<le> 8" and "p \<le> 8"
  shows "bit (event_with_phase p (event_with_group g eventId)) k \<longleftrightarrow>
     bit eventId k \<or> (g \<noteq> 0 \<and> k = unat g + 15) \<or> (p \<noteq> 0 \<and> k = unat p + 23)"
  using unat_le_8(1) [OF assms(1)] unat_le_8(2) [OF assms(2)] assms
  by (auto simp: event_with_phase_def event_with_group_def bit_or_iff bits32)

lemma drop_24_and_mask:
  "drop_bit 24 (e :: u32) AND ucast (phases :: u8) = 0 \<longleftrightarrow> (\<forall>k < 8. \<not> (bit e (24 + k) \<and> bit phases k))"
proof -
  have "bit (drop_bit 24 e AND ucast phases) k \<longleftrightarrow> k < 8 \<and> bit e (24 + k) \<and> bit phases k" for k
    by (auto simp: bit_and_iff bit_drop_bit_eq bit_unsigned_iff dest: bit_imp_le_length)
  then show ?thesis unfolding bit_eq_iff by (simp, intro iffI allI impI, auto)
qed

text \<open>C1: Scheduling packs event id, group and phase into one 32-bit word, and the code's own
  tests unpack them: for an id below 2^16, a group and a phase of at most 8, the id read back
  is the id, the group test holds of exactly the group given, and \<open>ExecuteEvent\<close> drops the
  event as out of phase exactly when the map is in some phase and the event was given a
  phase the map is not in.\<close>

theorem packed_event_roundtrip:
  assumes "eventId < 0x10000" and "g \<le> 8" and "p \<le> 8"
  defines "e \<equiv> event_with_phase p (event_with_group g eventId)"
  shows "event_id e = eventId
    \<and> (\<forall>g' \<in> {1..8}. in_group g' e \<longleftrightarrow> g' = g)
    \<and> (\<forall>phases. exec_out_of_phase phases e \<longleftrightarrow> phases \<noteq> 0 \<and> p \<noteq> 0 \<and> \<not> bit phases (unat p - 1))"
proof (intro conjI ballI allI)
  note bits = bit_packed_event [OF assms(2,3), of eventId, folded e_def]
    and low = bit_low16 [OF assms(1)]
    and small = unat_le_8(1) [OF assms(2)] unat_le_8(2) [OF assms(3)]
  show "event_id e = eventId"
    unfolding event_id_def
  proof (rule bit_word_eqI)
    fix k
    show "bit (e AND 0xFFFF) k = bit eventId k"
      unfolding bit_and_iff bit_0xFFFF bits using low small
      by (auto simp: unat_eq_zero)
  qed
  fix g' :: u32 assume g': "g' \<in> {1..8}"
  then have "unat g' \<le> 8" "0 < unat g'"
    by (auto simp: word_le_nat_alt)
  then have "in_group g' e \<longleftrightarrow> bit e (unat g' + 15)"
    by (simp add: in_group_def and_pow2_eq_0)
  also have "\<dots> \<longleftrightarrow> g' = g"
  proof -
    have "\<not> bit eventId (unat g' + 15)" using low [of "unat g' + 15"] \<open>0 < unat g'\<close> by fastforce
    moreover have "p \<noteq> 0 \<Longrightarrow> unat g' + 15 \<noteq> unat p + 23"
      using \<open>unat g' \<le> 8\<close> by (simp add: word_unat_eq_iff)
    moreover have "g \<noteq> 0 \<and> unat g' = unat g \<longleftrightarrow> g' = g"
      using \<open>0 < unat g'\<close> by (metis less_irrefl unat_0 word_unat_eq_iff)
    ultimately show ?thesis unfolding bits by auto
  qed
  finally show "in_group g' e \<longleftrightarrow> g' = g" .
next
  fix phases :: u8
  note bits = bit_packed_event [OF assms(2,3), of eventId, folded e_def]
    and low = bit_low16 [OF assms(1)]
    and small = unat_le_8(1) [OF assms(2)] unat_le_8(2) [OF assms(3)]
  have hi: "bit e (24 + k) \<longleftrightarrow> p \<noteq> 0 \<and> k = unat p - 1" for k
    unfolding bits using low [of "24 + k"] small by (auto simp: word_unat_eq_iff)
  have "e AND 0xFF000000 = 0 \<longleftrightarrow> p = 0"
  proof -
    have "drop_bit 24 e = 0 \<longleftrightarrow> (\<forall>k. \<not> bit e (24 + k))"
      unfolding word_eq_0_bits by (simp add: bit_drop_bit_eq)
    then show ?thesis unfolding and_0xFF000000_eq_0 hi by auto
  qed
  then show "exec_out_of_phase phases e \<longleftrightarrow> phases \<noteq> 0 \<and> p \<noteq> 0 \<and> \<not> bit phases (unat p - 1)"
    unfolding exec_out_of_phase_def drop_24_and_mask hi using small(2)
    by (auto simp: word_unat_eq_iff)
qed

theorem packed_event_roundtrip_witness:
  "event_id (event_with_phase 2 (event_with_group 3 17)) = 17"
  using packed_event_roundtrip [of 17 3 2] by simp

section \<open>Executing events\<close>

definition due :: "event_map \<Rightarrow> u32 \<times> u32 \<Rightarrow> bool" where
  "due m e \<longleftrightarrow> fst e \<le> em_time m"

definition blocked :: "event_map \<Rightarrow> u32 \<times> u32 \<Rightarrow> bool" where
  "blocked m e \<longleftrightarrow> exec_out_of_phase (em_phase m) (snd e)"

lemma exec_loop_prefix:
  assumes "\<forall>x \<in> set pre. fst x \<le> t \<and> exec_out_of_phase p (snd x)"
  shows "exec_loop t p (pre @ es) = exec_loop t p es"
  using assms by (induction pre) auto

lemma exec_loop_none:
  assumes "mm_sorted es" and "\<forall>x \<in> set es. fst x \<le> t \<longrightarrow> exec_out_of_phase p (snd x)"
  shows "exec_loop t p es = (None, filter (\<lambda>x. t < fst x) es)"
  using assms
proof (induction es)
  case Nil
  then show ?case by simp
next
  case (Cons e es)
  have "filter (\<lambda>x. t < fst x) es = es" if "t < fst e"
    using Cons.prems(1) that by (auto simp: mm_sorted_Cons filter_id_conv)
  with Cons show ?case by (auto simp: mm_sorted_Cons)
qed

lemma first_runnable:
  assumes "\<not> (\<forall>x \<in> set es. P x)"
  shows "\<exists>pre e post. es = pre @ e # post \<and> (\<forall>x \<in> set pre. P x) \<and> \<not> P e"
  using assms split_list_first_prop [of es "\<lambda>x. \<not> P x"] by blast

text \<open>C2: \<open>ExecuteEvent\<close> on a sorted store: it either finds no due event that may run in the
  current phase, and then returns 0 and keeps exactly the events that are not due, or it
  returns the id of the first due event that may run, records that event, and removes it with
  the due events of other phases before it and nothing else.\<close>

theorem ExecuteEvent_correct:
  assumes "mm_sorted (em_events m)"
  shows "(\<forall>x \<in> set (em_events m). due m x \<longrightarrow> blocked m x) \<and>
      EventMap_ExecuteEvent m = (0, m\<lparr>em_events := filter (\<lambda>x. \<not> due m x) (em_events m)\<rparr>)
    \<or> (\<exists>pre e post. em_events m = pre @ e # post \<and> (\<forall>x \<in> set pre. due m x \<and> blocked m x) \<and>
      due m e \<and> \<not> blocked m e \<and>
      EventMap_ExecuteEvent m = (event_id (snd e), m\<lparr>em_last := snd e, em_events := post\<rparr>))"
proof (cases "\<forall>x \<in> set (em_events m). due m x \<longrightarrow> blocked m x")
  case True
  then have "exec_loop (em_time m) (em_phase m) (em_events m) =
      (None, filter (\<lambda>x. em_time m < fst x) (em_events m))"
    by (intro exec_loop_none assms) (simp add: due_def blocked_def)
  with True show ?thesis
    by (simp add: EventMap_ExecuteEvent_def due_def not_le)
next
  case False
  then obtain pre e post where es: "em_events m = pre @ e # post"
    and pre: "\<forall>x \<in> set pre. due m x \<longrightarrow> blocked m x" and e: "due m e" "\<not> blocked m e"
    using first_runnable [OF False] by auto
  have "due m x" if "x \<in> set pre" for x
    using assms e(1) that unfolding es by (fastforce simp: mm_sorted_def sorted_append due_def)
  with pre have pre': "\<forall>x \<in> set pre. due m x \<and> blocked m x" by blast
  then have "exec_loop (em_time m) (em_phase m) (em_events m) = (Some (snd e), post)"
    unfolding es using e by (subst exec_loop_prefix) (auto simp: due_def blocked_def)
  then have "EventMap_ExecuteEvent m = (event_id (snd e), m\<lparr>em_last := snd e, em_events := post\<rparr>)"
    by (simp add: EventMap_ExecuteEvent_def)
  with es pre' e show ?thesis by blast
qed

theorem ExecuteEvent_correct_witness:
  "fst (EventMap_ExecuteEvent \<lparr>em_time = 5, em_phase = 0, em_last = 0, em_events = [(3, 7)]\<rparr>) = 7"
  using ExecuteEvent_correct [of "\<lparr>em_time = 5, em_phase = 0, em_last = 0, em_events = [(3, 7)]\<rparr>"]
  by (auto simp: mm_sorted_def due_def blocked_def exec_out_of_phase_def event_id_def Cons_eq_append_conv)

text \<open>\<open>GetEvent\<close> announces exactly the event that \<open>ExecuteEvent\<close> would run.\<close>

lemma get_loop_exec_loop:
  "fst (get_loop t p es) = (case fst (exec_loop t p es) of None \<Rightarrow> 0 | Some e \<Rightarrow> event_id e)
   \<and> exec_loop t p (snd (get_loop t p es)) = exec_loop t p es"
  by (induction es) (auto simp: out_of_phase_tests_agree)

lemma GetEvent_then_ExecuteEvent:
  "fst (EventMap_GetEvent m) = fst (EventMap_ExecuteEvent m)"
  "EventMap_ExecuteEvent (snd (EventMap_GetEvent m)) = EventMap_ExecuteEvent m"
  using get_loop_exec_loop [of "em_time m" "em_phase m" "em_events m"]
  by (auto simp: EventMap_GetEvent_def EventMap_ExecuteEvent_def split: prod.splits option.splits)

section \<open>Cancelling and delaying\<close>

lemma find_filter_disjoint: "(\<And>x. P x \<Longrightarrow> \<not> Q x) \<Longrightarrow> find Q (filter P xs) = None"
  by (simp add: find_None_iff)

lemma CancelEvent_removed:
  "EventMap_GetTimeUntilEvent i (EventMap_CancelEvent i m) = - 1"
  by (simp add: EventMap_GetTimeUntilEvent_def EventMap_CancelEvent_def find_filter_disjoint)

lemma find_filter_implied: "(\<And>x. Q x \<Longrightarrow> P x) \<Longrightarrow> find Q (filter P xs) = find Q xs"
  by (induction xs) auto

lemma CancelEvent_others_kept:
  "i \<noteq> j \<Longrightarrow> EventMap_GetTimeUntilEvent j (EventMap_CancelEvent i m) = EventMap_GetTimeUntilEvent j m"
  by (simp add: EventMap_GetTimeUntilEvent_def EventMap_CancelEvent_def find_filter_implied
      split: option.split)

definition at_least :: "u32 \<Rightarrow> u32 \<Rightarrow> u32 \<times> u32 \<Rightarrow> u32 \<times> u32" where
  "at_least eventId delay e =
     (if eventId = event_id (snd e) \<and> fst e < delay then (delay, snd e) else e)"

lemma mset_min_delay_loop:
  "mset (min_delay_loop i d es) = image_mset (at_least i d) (mset es)"
  by (induction i d es rule: min_delay_loop.induct) (auto simp: at_least_def)

lemma set_min_delay_loop: "set (min_delay_loop i d es) = at_least i d ` set es"
  by (metis mset_min_delay_loop set_image_mset set_mset_mset)

lemma sorted_min_delay_loop: "mm_sorted es \<Longrightarrow> mm_sorted (min_delay_loop i d es)"
proof (induction i d es rule: min_delay_loop.induct)
  case (1 i d)
  then show ?case by simp
next
  case (2 i d e es)
  show ?case
  proof (cases "i = event_id (snd e) \<and> fst e < d")
    case True
    with "2.IH"(1) "2.prems" show ?thesis by (auto simp: mm_sorted_Cons)
  next
    case False
    have "\<forall>x \<in> set (min_delay_loop i d es). fst e \<le> fst x"
      using "2.prems" by (force simp: set_min_delay_loop at_least_def mm_sorted_Cons)
    moreover have "mm_sorted (min_delay_loop i d es)"
      using "2.IH"(2) False "2.prems" by (auto simp: mm_sorted_Cons)
    ultimately show ?thesis using False by (subst min_delay_loop.simps(2)) (auto simp: mm_sorted_Cons)
  qed
qed

text \<open>C3: \<open>SetMinimalDelay\<close>, which inserts into the store while it iterates over it, stops and
  does what its comment says: the events of the store afterwards are the events before, with
  every event of that id that was due earlier than \<open>delay\<close> moved to \<open>delay\<close>, no other event
  changed and none lost or doubled, and the store is still sorted.\<close>

theorem SetMinimalDelay_correct:
  assumes "mm_sorted (em_events m)"
  shows "mset (em_events (EventMap_SetMinimalDelay i d m)) = image_mset (at_least i d) (mset (em_events m))
    \<and> mm_sorted (em_events (EventMap_SetMinimalDelay i d m))
    \<and> (\<forall>e \<in> set (em_events (EventMap_SetMinimalDelay i d m)). event_id (snd e) = i \<longrightarrow> d \<le> fst e)"
  using assms
  by (auto simp: EventMap_SetMinimalDelay_def EventMap_Empty_def mset_min_delay_loop
      sorted_min_delay_loop set_min_delay_loop at_least_def)

theorem SetMinimalDelay_correct_witness:
  "mset (em_events (EventMap_SetMinimalDelay 7 9 (EventMap_init\<lparr>em_events := [(3, 7), (4, 8)]\<rparr>)))
   = {#(9, 7), (4, 8)#}"
  using SetMinimalDelay_correct [of "EventMap_init\<lparr>em_events := [(3, 7), (4, 8)]\<rparr>" 7 9]
  by (simp add: mm_sorted_def at_least_def event_id_def)

lemma mset_delay_loop:
  "delay_loop d g acc es = (del, rest) \<Longrightarrow>
     mset del = mset acc + image_mset (\<lambda>e. (fst e + d, snd e)) (filter_mset (\<lambda>e. in_group g (snd e)) (mset es))
     \<and> rest = filter (\<lambda>e. \<not> in_group g (snd e)) es"
  by (induction d g acc es arbitrary: del rest rule: delay_loop.induct)
    (auto split: if_splits prod.splits)

lemma DelayEvents_group_mset:
  assumes "g \<noteq> 0" and "g \<le> 8"
  shows "mset (em_events (EventMap_DelayEvents_group d g m)) =
    image_mset (\<lambda>e. if in_group g (snd e) then (fst e + d, snd e) else e) (mset (em_events m))"
proof -
  obtain del rest where dl: "delay_loop d g [] (em_events m) = (del, rest)" by fastforce
  have img: "image_mset (\<lambda>e. if P e then f e else e) M =
      image_mset f (filter_mset P M) + filter_mset (\<lambda>e. \<not> P e) M" for P f and M :: "(u32 \<times> u32) multiset"
    by (induction M) auto
  show ?thesis
    using assms mset_delay_loop [OF dl]
    by (auto simp: EventMap_DelayEvents_group_def EventMap_Empty_def dl img not_less)
qed

lemma DelayEvents_postpones:
  assumes "delay \<le> em_time m" and "find (\<lambda>e. i = event_id (snd e)) (em_events m) = Some e"
  shows "EventMap_GetTimeUntilEvent i (EventMap_DelayEvents delay m) = EventMap_GetTimeUntilEvent i m + delay"
  using assms by (auto simp: EventMap_GetTimeUntilEvent_def EventMap_DelayEvents_def)

section \<open>The event map as a machine\<close>









end
