(* ===== verification/Rbac.thy ===== *)
theory Rbac
  imports Prelude
begin

text \<open>
  \<^verbatim>\<open>src/src/server/game/Accounts/RBAC.{h,cpp}\<close> and the RBAC part of \<^verbatim>\<open>AccountMgr.cpp\<close>: the role
  based access control of accounts. \<open>AccountMgr\<close> holds the permission table (each permission
  with the permissions linked to it) and the default permissions of each security level;
  \<open>RBACData\<close> holds what one account was granted and denied and the effective permissions
  computed from them. A \<open>std::set\<close> is a \<open>set\<close> whose \<open>begin()\<close> is its minimum; the statements
  sent to the login database are appended to a log; query results are parameters.
\<close>

section \<open>The permission table of the account manager\<close>

record rbac_permission =
  perm_name :: string
  perm_links :: "u32 set"

text \<open>A table entry may be a null pointer (\<open>operator[]\<close> creates it).\<close>

record account_mgr =
  am_permissions :: "u32 \<rightharpoonup> rbac_permission option"
  am_defaults :: "u8 \<Rightarrow> u32 set"

definition ClearRBAC :: "account_mgr \<Rightarrow> account_mgr" where
  "ClearRBAC am = am\<lparr>am_permissions := Map.empty, am_defaults := (\<lambda>_. {})\<rparr>"

definition GetRBACPermission :: "account_mgr \<Rightarrow> u32 \<Rightarrow> rbac_permission option" where
  "GetRBACPermission am permissionId =
     (case am_permissions am permissionId of Some p \<Rightarrow> p | None \<Rightarrow> None)"

definition GetRBACDefaultPermissions :: "account_mgr \<Rightarrow> u8 \<Rightarrow> u32 set" where
  "GetRBACDefaultPermissions am secLevel = am_defaults am secLevel"

text \<open>
  \<open>LoadRBAC\<close>: three queries, each an optional result (no rows: the loading stops there). The
  loops keep the last id seen and a pointer looked up for it; \<open>None\<close> is the null pointer
  dereference of a link whose permission is not in the table.
\<close>

fun load_permissions :: "(u32 \<times> string) list \<Rightarrow> account_mgr \<Rightarrow> account_mgr" where
  "load_permissions [] am = am"
| "load_permissions ((i, name) # rows) am =
     load_permissions rows
       (am\<lparr>am_permissions := (am_permissions am)(i \<mapsto> Some \<lparr>perm_name = name, perm_links = {}\<rparr>)\<rparr>)"

definition lookup_or_create :: "account_mgr \<Rightarrow> u32 \<Rightarrow> account_mgr" where
  "lookup_or_create am i =
     (case am_permissions am i of
        None \<Rightarrow> am\<lparr>am_permissions := (am_permissions am)(i \<mapsto> None)\<rparr>
      | Some _ \<Rightarrow> am)"

text \<open>
  \<open>permissionId\<close> and \<open>permission\<close> are the loop's variables: \<open>permission\<close> is the id whose table
  entry the pointer was read from, \<open>None\<close> before the first lookup.
\<close>

fun load_links :: "u32 \<Rightarrow> u32 option \<Rightarrow> (u32 \<times> u32) list \<Rightarrow> account_mgr \<Rightarrow> account_mgr option" where
  "load_links permissionId permission [] am = Some am"
| "load_links permissionId permission ((newId, linkedId) # rows) am =
     (let changed = permissionId \<noteq> newId;
          permissionId' = (if changed then newId else permissionId);
          permission' = (if changed then Some newId else permission);
          am' = (if changed then lookup_or_create am newId else am)
      in if linkedId = permissionId' then load_links permissionId' permission' rows am'
         else case permission' of
                None \<Rightarrow> None
              | Some i \<Rightarrow>
                  (case am_permissions am' i of
                     Some (Some p) \<Rightarrow>
                       load_links permissionId' permission' rows
                         (am'\<lparr>am_permissions := (am_permissions am')
                            (i \<mapsto> Some (p\<lparr>perm_links := insert linkedId (perm_links p)\<rparr>))\<rparr>)
                   | _ \<Rightarrow> None))"

fun load_defaults :: "u8 \<Rightarrow> bool \<Rightarrow> (u32 \<times> u32) list \<Rightarrow> account_mgr \<Rightarrow> account_mgr" where
  "load_defaults secId pointing [] am = am"
| "load_defaults secId pointing ((newId, permissionId) # rows) am =
     (let secId' = (if ucast secId \<noteq> newId \<or> \<not> pointing then ucast newId else secId)
      in load_defaults secId' True rows
           (am\<lparr>am_defaults := (am_defaults am)(secId' := insert permissionId (am_defaults am secId'))\<rparr>))"

definition LoadRBAC ::
  "(u32 \<times> string) list \<Rightarrow> (u32 \<times> u32) list \<Rightarrow> (u32 \<times> u32) list \<Rightarrow> account_mgr \<Rightarrow> account_mgr option" where
  "LoadRBAC perms links defaults am0 =
     (let am = ClearRBAC am0
      in if perms = [] then Some am
         else let am = load_permissions perms am
              in if links = [] then Some am
                 else case load_links 0 None links am of
                        None \<Rightarrow> None
                      | Some am \<Rightarrow> if defaults = [] then Some am
                                   else Some (load_defaults 255 False defaults am))"

section \<open>The permissions of an account\<close>

datatype rbac_result =
    RBAC_OK | RBAC_CANT_ADD_ALREADY_ADDED | RBAC_CANT_REVOKE_NOT_IN_LIST
  | RBAC_IN_GRANTED_LIST | RBAC_IN_DENIED_LIST | RBAC_ID_DOES_NOT_EXISTS

datatype login_stmt =
    INS_RBAC_ACCOUNT_PERMISSION u32 u32 bool int
  | DEL_RBAC_ACCOUNT_PERMISSION u32 u32 int
  | DEL_ACCOUNT_ACCESS u32
  | DEL_ACCOUNT_ACCESS_BY_REALM u32 u32
  | INS_ACCOUNT_ACCESS u32 u8 int

record rbac_data =
  rb_id :: u32
  rb_realm :: int
  rb_secLevel :: u8
  rb_granted :: "u32 set"
  rb_denied :: "u32 set"
  rb_global :: "u32 set"
  rb_db :: "login_stmt list"

definition RBACData_init :: "u32 \<Rightarrow> int \<Rightarrow> u8 \<Rightarrow> rbac_data" where
  "RBACData_init i realm secLevel =
     \<lparr>rb_id = i, rb_realm = realm, rb_secLevel = secLevel,
      rb_granted = {}, rb_denied = {}, rb_global = {}, rb_db = []\<rparr>"

definition HasPermission :: "rbac_data \<Rightarrow> u32 \<Rightarrow> bool" where
  "HasPermission r permission \<longleftrightarrow> permission \<in> rb_global r"

definition HasGrantedPermission :: "rbac_data \<Rightarrow> u32 \<Rightarrow> bool" where
  "HasGrantedPermission r permissionId \<longleftrightarrow> permissionId \<in> rb_granted r"

definition HasDeniedPermission :: "rbac_data \<Rightarrow> u32 \<Rightarrow> bool" where
  "HasDeniedPermission r permissionId \<longleftrightarrow> permissionId \<in> rb_denied r"

text \<open>
  \<open>ExpandPermissions\<close>: the work list \<open>toCheck\<close> loses its least element in each round; an
  element that is in the table is added to the result and its links that are not in the result
  to the work list.
\<close>

function expand_loop :: "account_mgr \<Rightarrow> u32 set \<Rightarrow> u32 set \<Rightarrow> u32 set" where
  "expand_loop am permissions toCheck =
     (if toCheck = {} then permissions
      else let permissionId = Min toCheck; toCheck = toCheck - {permissionId}
           in case GetRBACPermission am permissionId of
                None \<Rightarrow> expand_loop am permissions toCheck
              | Some permission \<Rightarrow>
                  let permissions = insert permissionId permissions
                  in expand_loop am permissions
                       (toCheck \<union> {p \<in> perm_links permission. p \<notin> permissions}))"
  by pat_completeness auto
termination
proof (relation "measures [\<lambda>(am, ps, tc). card (- ps) + card (ps \<inter> tc), \<lambda>(am, ps, tc). card tc]", goal_cases)
  case 1
  show ?case by simp
next
  case (2 am ps tc x xa)
  then have "x \<in> tc" by simp
  then have "xa \<subset> tc" using "2"(3) by blast
  then have "card xa < card tc" by (rule psubset_card_mono [OF finite])
  moreover have "card (ps \<inter> xa) \<le> card (ps \<inter> tc)"
    using \<open>xa \<subset> tc\<close> by (intro card_mono finite) blast
  ultimately show ?case by auto
next
  case (3 am ps tc x xa x2 xb)
  then have x: "x \<in> tc" by simp
  show ?case
  proof (cases "x \<in> ps")
    case True
    then have "xb = ps" and "ps \<inter> (xa \<union> {p \<in> perm_links x2. p \<notin> xb}) = ps \<inter> tc - {x}"
      using 3 by auto
    moreover have "card (ps \<inter> tc - {x}) < card (ps \<inter> tc)"
      using True x by (intro card_Diff1_less) auto
    ultimately show ?thesis by simp
  next
    case False
    then have "card (- xb) < card (- ps)"
      using 3 by (intro psubset_card_mono) auto
    moreover have "xb \<inter> (xa \<union> {p \<in> perm_links x2. p \<notin> xb}) = ps \<inter> tc"
      using 3 False x by auto
    ultimately show ?thesis by simp
  qed
qed

declare expand_loop.simps [simp del]

definition ExpandPermissions :: "account_mgr \<Rightarrow> u32 set \<Rightarrow> u32 set" where
  "ExpandPermissions am permissions = expand_loop am {} permissions"

text \<open>Both take \<open>permsTo\<close> by reference: the model returns its new value.\<close>

definition AddPermissions :: "u32 set \<Rightarrow> u32 set \<Rightarrow> u32 set" where
  "AddPermissions permsFrom permsTo = permsTo \<union> permsFrom"

definition RemovePermissions :: "u32 set \<Rightarrow> u32 set \<Rightarrow> u32 set" where
  "RemovePermissions permsFrom permsTo = permsTo - permsFrom"

text \<open>\<open>revoked\<close> is the argument that \<open>RemovePermissions\<close> changes, a local of the function.\<close>

definition CalculateNewPermissions :: "account_mgr \<Rightarrow> rbac_data \<Rightarrow> rbac_data" where
  "CalculateNewPermissions am r =
     (let global = ExpandPermissions am (rb_granted r);
          revoked = ExpandPermissions am (rb_denied r);
          revoked = RemovePermissions global revoked
      in r\<lparr>rb_global := global\<rparr>)"

definition SavePermission :: "u32 \<Rightarrow> bool \<Rightarrow> int \<Rightarrow> rbac_data \<Rightarrow> rbac_data" where
  "SavePermission permission granted realmId r =
     r\<lparr>rb_db := rb_db r @ [INS_RBAC_ACCOUNT_PERMISSION (rb_id r) permission granted realmId]\<rparr>"

definition GrantPermission ::
  "account_mgr \<Rightarrow> u32 \<Rightarrow> int \<Rightarrow> rbac_data \<Rightarrow> rbac_result \<times> rbac_data" where
  "GrantPermission am permissionId realmId r =
     (if GetRBACPermission am permissionId = None then (RBAC_ID_DOES_NOT_EXISTS, r)
      else if HasDeniedPermission r permissionId then (RBAC_IN_DENIED_LIST, r)
      else if HasGrantedPermission r permissionId then (RBAC_CANT_ADD_ALREADY_ADDED, r)
      else let r = r\<lparr>rb_granted := insert permissionId (rb_granted r)\<rparr>
           in (RBAC_OK,
               if realmId \<noteq> 0
               then CalculateNewPermissions am (SavePermission permissionId True realmId r)
               else r))"

definition DenyPermission ::
  "account_mgr \<Rightarrow> u32 \<Rightarrow> int \<Rightarrow> rbac_data \<Rightarrow> rbac_result \<times> rbac_data" where
  "DenyPermission am permissionId realmId r =
     (if GetRBACPermission am permissionId = None then (RBAC_ID_DOES_NOT_EXISTS, r)
      else if HasGrantedPermission r permissionId then (RBAC_IN_GRANTED_LIST, r)
      else if HasDeniedPermission r permissionId then (RBAC_CANT_ADD_ALREADY_ADDED, r)
      else let r = r\<lparr>rb_denied := insert permissionId (rb_denied r)\<rparr>
           in (RBAC_OK,
               if realmId \<noteq> 0
               then CalculateNewPermissions am (SavePermission permissionId False realmId r)
               else r))"

definition RevokePermission ::
  "account_mgr \<Rightarrow> u32 \<Rightarrow> int \<Rightarrow> rbac_data \<Rightarrow> rbac_result \<times> rbac_data" where
  "RevokePermission am permissionId realmId r =
     (if \<not> HasGrantedPermission r permissionId \<and> \<not> HasDeniedPermission r permissionId
      then (RBAC_CANT_REVOKE_NOT_IN_LIST, r)
      else let r = r\<lparr>rb_granted := rb_granted r - {permissionId}, rb_denied := rb_denied r - {permissionId}\<rparr>
           in (RBAC_OK,
               if realmId \<noteq> 0
               then CalculateNewPermissions am
                      (r\<lparr>rb_db := rb_db r @ [DEL_RBAC_ACCOUNT_PERMISSION (rb_id r) permissionId realmId]\<rparr>)
               else r))"

definition ClearData :: "rbac_data \<Rightarrow> rbac_data" where
  "ClearData r = r\<lparr>rb_granted := {}, rb_denied := {}, rb_global := {}\<rparr>"

fun load_account_rows :: "account_mgr \<Rightarrow> (u32 \<times> bool) list \<Rightarrow> rbac_data \<Rightarrow> rbac_data" where
  "load_account_rows am [] r = r"
| "load_account_rows am ((p, granted) # rows) r =
     load_account_rows am rows
       (snd (if granted then GrantPermission am p 0 r else DenyPermission am p 0 r))"

definition LoadFromDB :: "account_mgr \<Rightarrow> (u32 \<times> bool) list \<Rightarrow> rbac_data \<Rightarrow> rbac_data" where
  "LoadFromDB am rows r =
     (let r = load_account_rows am rows (ClearData r);
          r = foldl (\<lambda>r p. snd (GrantPermission am p 0 r)) r
                (sorted_list_of_set (GetRBACDefaultPermissions am (rb_secLevel r)))
      in CalculateNewPermissions am r)"

definition SetSecurityLevel :: "account_mgr \<Rightarrow> (u32 \<times> bool) list \<Rightarrow> u8 \<Rightarrow> rbac_data \<Rightarrow> rbac_data" where
  "SetSecurityLevel am rows level r = LoadFromDB am rows (r\<lparr>rb_secLevel := level\<rparr>)"

definition UpdateAccountAccess ::
  "account_mgr \<Rightarrow> (u32 \<times> bool) list \<Rightarrow> rbac_data option \<Rightarrow> u32 \<Rightarrow> u8 \<Rightarrow> int \<Rightarrow>
     rbac_data option \<times> login_stmt list" where
  "UpdateAccountAccess am rows rbac accountId securityLevel realmId =
     (map_option (\<lambda>r. if securityLevel = rb_secLevel r then SetSecurityLevel am rows securityLevel r else r) rbac,
      (if realmId = -1 then [DEL_ACCOUNT_ACCESS accountId]
       else [DEL_ACCOUNT_ACCESS_BY_REALM accountId (word_of_int realmId)]) @
      (if securityLevel \<noteq> 0 then [INS_ACCOUNT_ACCESS accountId securityLevel realmId] else []))"

definition AccountMgr_HasPermission ::
  "account_mgr \<Rightarrow> (u32 \<Rightarrow> u8) \<Rightarrow> (u32 \<Rightarrow> int \<Rightarrow> (u32 \<times> bool) list) \<Rightarrow> u32 \<Rightarrow> u32 \<Rightarrow> int \<Rightarrow> bool" where
  "AccountMgr_HasPermission am GetSecurity rows accountId permissionId realmId =
     (if accountId = 0 then False
      else HasPermission (LoadFromDB am (rows accountId realmId)
             (RBACData_init accountId realmId (GetSecurity accountId))) permissionId)"

section \<open>Expansion computes the inherited permissions\<close>

text \<open>
  The permissions inherited from a set: those of it that are in the table, and those linked
  to an inherited one that are in the table.
\<close>

inductive_set inherited :: "account_mgr \<Rightarrow> u32 set \<Rightarrow> u32 set" for am P where
  direct: "p \<in> P \<Longrightarrow> GetRBACPermission am p \<noteq> None \<Longrightarrow> p \<in> inherited am P"
| linked: "p \<in> inherited am P \<Longrightarrow> GetRBACPermission am p = Some perm \<Longrightarrow>
     q \<in> perm_links perm \<Longrightarrow> GetRBACPermission am q \<noteq> None \<Longrightarrow> q \<in> inherited am P"

definition linked_to :: "account_mgr \<Rightarrow> u32 \<Rightarrow> u32 \<Rightarrow> bool" where
  "linked_to am p q \<longleftrightarrow> GetRBACPermission am q \<noteq> None \<and>
     (\<exists>perm. GetRBACPermission am p = Some perm \<and> q \<in> perm_links perm)"

text \<open>What the loop keeps: all it holds is inherited, and every link is done or queued.\<close>

definition expand_inv :: "account_mgr \<Rightarrow> u32 set \<Rightarrow> u32 set \<Rightarrow> u32 set \<Rightarrow> bool" where
  "expand_inv am P permissions toCheck \<longleftrightarrow>
     permissions \<subseteq> inherited am P
     \<and> (\<forall>q \<in> toCheck. GetRBACPermission am q \<noteq> None \<longrightarrow> q \<in> inherited am P)
     \<and> (\<forall>p \<in> P. GetRBACPermission am p \<noteq> None \<longrightarrow> p \<in> permissions \<union> toCheck)
     \<and> (\<forall>p \<in> permissions. \<forall>q. linked_to am p q \<longrightarrow> q \<in> permissions \<union> toCheck)"

lemma inherited_in_table: "p \<in> inherited am P \<Longrightarrow> GetRBACPermission am p \<noteq> None"
  by (induction rule: inherited.induct) auto

lemma inherited_link: "p \<in> inherited am P \<Longrightarrow> linked_to am p q \<Longrightarrow> q \<in> inherited am P"
  by (auto simp: linked_to_def intro: inherited.linked)

lemma expand_inv_done:
  assumes inv: "expand_inv am P permissions {}"
  shows "permissions = inherited am P"
proof
  show "permissions \<subseteq> inherited am P" using inv by (simp add: expand_inv_def)
  show "inherited am P \<subseteq> permissions"
  proof
    fix p assume "p \<in> inherited am P"
    then show "p \<in> permissions"
    proof induction
      case (direct p)
      with inv show ?case by (simp add: expand_inv_def)
    next
      case (linked p perm q)
      then have "linked_to am p q" by (auto simp: linked_to_def)
      with linked inv show ?case by (simp add: expand_inv_def)
    qed
  qed
qed

lemma expand_inv_skip:
  assumes "expand_inv am P ps tc" and "GetRBACPermission am p = None"
  shows "expand_inv am P ps (tc - {p})"
proof -
  have "\<not> linked_to am x p" for x using assms(2) by (simp add: linked_to_def)
  with assms show ?thesis unfolding expand_inv_def by (metis DiffI Un_iff singletonD DiffD1)
qed

lemma expand_inv_take:
  assumes inv: "expand_inv am P ps tc" and "p \<in> tc" and perm: "GetRBACPermission am p = Some perm"
  shows "expand_inv am P (insert p ps) (tc - {p} \<union> {q \<in> perm_links perm. q \<notin> insert p ps})"
proof -
  have "p \<in> inherited am P" using assms by (simp add: expand_inv_def)
  moreover have "linked_to am p q \<Longrightarrow> q \<in> perm_links perm" for q
    using perm by (simp add: linked_to_def)
  moreover have "GetRBACPermission am q \<noteq> None \<Longrightarrow> q \<in> perm_links perm \<Longrightarrow> linked_to am p q" for q
    using perm by (simp add: linked_to_def)
  ultimately show ?thesis
    using inv inherited_link [of p am P] unfolding expand_inv_def by blast
qed

lemma expand_loop_inherited:
  "expand_inv am P ps tc \<Longrightarrow> expand_loop am ps tc = inherited am P"
proof (induction am ps tc rule: expand_loop.induct)
  case (1 am ps tc)
  show ?case
  proof (cases "tc = {}")
    case True
    with "1.prems" show ?thesis
      by (subst expand_loop.simps) (simp add: expand_inv_done)
  next
    case False
    then have mem: "Min tc \<in> tc" by simp
    show ?thesis
    proof (cases "GetRBACPermission am (Min tc)")
      case None
      then show ?thesis
        using "1.IH"(1) [OF False refl refl None] expand_inv_skip [OF "1.prems" None] False
        by (subst expand_loop.simps) (simp add: Let_def)
    next
      case (Some perm)
      then show ?thesis
        using "1.IH"(2) [OF False refl refl Some refl] expand_inv_take [OF "1.prems" mem Some] False
        by (subst expand_loop.simps) (simp add: Let_def)
    qed
  qed
qed

text \<open>C5: \<open>ExpandPermissions\<close> stops on every permission table, cyclic links included, and
  returns exactly the permissions inherited from its argument: those of it that exist in the
  table and everything reachable from them over links through permissions that exist.\<close>

theorem ExpandPermissions_inherited: "ExpandPermissions am P = inherited am P"
  unfolding ExpandPermissions_def
  by (rule expand_loop_inherited) (auto simp: expand_inv_def intro: inherited.direct)

section \<open>Granting, denying and revoking\<close>

definition in_table :: "account_mgr \<Rightarrow> u32 \<Rightarrow> bool" where
  "in_table am p \<longleftrightarrow> GetRBACPermission am p \<noteq> None"

definition rbac_inv :: "account_mgr \<Rightarrow> rbac_data \<Rightarrow> bool" where
  "rbac_inv am r \<longleftrightarrow> rb_granted r \<inter> rb_denied r = {} \<and> (\<forall>p \<in> rb_granted r \<union> rb_denied r. in_table am p)"

lemmas rbac_ops =
  GrantPermission_def DenyPermission_def RevokePermission_def SavePermission_def
  HasGrantedPermission_def HasDeniedPermission_def ClearData_def Let_def

lemma CalculateNewPermissions_eq:
  "CalculateNewPermissions am r = r\<lparr>rb_global := inherited am (rb_granted r)\<rparr>"
  by (simp add: CalculateNewPermissions_def ExpandPermissions_inherited Let_def)

datatype rbac_op = RbGrant u32 int | RbDeny u32 int | RbRevoke u32 int | RbLoad "(u32 \<times> bool) list"

fun rbac_call :: "account_mgr \<Rightarrow> rbac_data \<Rightarrow> rbac_op \<Rightarrow> rbac_data" where
  "rbac_call am r (RbGrant p realm) = snd (GrantPermission am p realm r)"
| "rbac_call am r (RbDeny p realm) = snd (DenyPermission am p realm r)"
| "rbac_call am r (RbRevoke p realm) = snd (RevokePermission am p realm r)"
| "rbac_call am r (RbLoad rows) = LoadFromDB am rows r"

lemma Grant_inv: "rbac_inv am r \<Longrightarrow> rbac_inv am (snd (GrantPermission am p realm r))"
  by (auto simp: rbac_ops rbac_inv_def in_table_def CalculateNewPermissions_eq)

lemma Deny_inv: "rbac_inv am r \<Longrightarrow> rbac_inv am (snd (DenyPermission am p realm r))"
  by (auto simp: rbac_ops rbac_inv_def in_table_def CalculateNewPermissions_eq)

lemma Revoke_inv: "rbac_inv am r \<Longrightarrow> rbac_inv am (snd (RevokePermission am p realm r))"
  by (auto simp: rbac_ops rbac_inv_def in_table_def CalculateNewPermissions_eq)

lemma load_row_eq:
  "snd (if granted then GrantPermission am p 0 r else DenyPermission am p 0 r) = r\<lparr>
     rb_granted := rb_granted r \<union> (if granted \<and> in_table am p \<and> p \<notin> rb_denied r then {p} else {}),
     rb_denied := rb_denied r \<union> (if \<not> granted \<and> in_table am p \<and> p \<notin> rb_granted r then {p} else {})\<rparr>"
  by (rule rbac_data.equality) (auto simp: rbac_ops in_table_def)

text \<open>The rows of an account: the first row of a permission decides.\<close>

lemma load_account_rows_eq:
  "load_account_rows am rows r = r\<lparr>
     rb_granted := rb_granted r \<union> {p. in_table am p \<and> p \<notin> rb_granted r \<union> rb_denied r \<and> map_of rows p = Some True},
     rb_denied := rb_denied r \<union> {p. in_table am p \<and> p \<notin> rb_granted r \<union> rb_denied r \<and> map_of rows p = Some False}\<rparr>"
proof (induction rows arbitrary: r)
  case Nil
  show ?case by simp
next
  case (Cons row rows)
  obtain p granted where [simp]: "row = (p, granted)" by fastforce
  show ?case
    unfolding \<open>row = (p, granted)\<close> load_account_rows.simps load_row_eq Cons.IH
    by (rule rbac_data.equality) auto
qed

lemma grant_defaults_eq:
  "foldl (\<lambda>r p. snd (GrantPermission am p 0 r)) r ps =
     r\<lparr>rb_granted := rb_granted r \<union> {p \<in> set ps. in_table am p \<and> p \<notin> rb_denied r}\<rparr>"
proof (induction ps arbitrary: r)
  case Nil
  show ?case by simp
next
  case (Cons p ps)
  show ?case
    unfolding foldl_Cons Cons.IH by (rule rbac_data.equality) (auto simp: rbac_ops in_table_def)
qed

text \<open>
  What an account is given directly: the permissions of the table whose first row grants them,
  or that no row mentions and that are defaults of the security level.
\<close>

definition directly_granted :: "account_mgr \<Rightarrow> (u32 \<times> bool) list \<Rightarrow> u8 \<Rightarrow> u32 set" where
  "directly_granted am rows level = {p. in_table am p \<and>
     (map_of rows p = Some True \<or> map_of rows p = None \<and> p \<in> GetRBACDefaultPermissions am level)}"

lemma LoadFromDB_eq:
  "LoadFromDB am rows r = r\<lparr>
     rb_granted := directly_granted am rows (rb_secLevel r),
     rb_denied := {p. in_table am p \<and> map_of rows p = Some False},
     rb_global := inherited am (directly_granted am rows (rb_secLevel r))\<rparr>"
proof -
  have "{p. in_table am p \<and> map_of rows p = Some True} \<union>
      {p \<in> GetRBACDefaultPermissions am l. in_table am p \<and> \<not> (in_table am p \<and> map_of rows p = Some False)}
      = directly_granted am rows l" for l
    by (auto simp: directly_granted_def) (metis (full_types) not_Some_eq)
  then show ?thesis
    by (simp add: LoadFromDB_def Let_def load_account_rows_eq grant_defaults_eq
        CalculateNewPermissions_eq ClearData_def)
qed

lemma Load_inv: "rbac_inv am (LoadFromDB am rows r)"
  by (auto simp: LoadFromDB_eq rbac_inv_def directly_granted_def)

lemma rbac_call_inv: "rbac_inv am r \<Longrightarrow> rbac_inv am (rbac_call am r c)"
  by (cases c) (simp_all add: Grant_inv Deny_inv Revoke_inv Load_inv)

interpretation rbac: machine "rbac_call am" "rbac_inv am" for am
  by unfold_locales (rule rbac_call_inv)

text \<open>C6: No permission is ever both granted and denied, and none outside the permission table
  is either: this holds of a new account and is kept by every sequence of grants, denials,
  revocations and reloads, whatever their results.\<close>

theorem granted_and_denied_disjoint:
  "rbac_inv am (foldl (rbac_call am) (RBACData_init i realm level) cs)"
  by (rule rbac.run_inv) (simp add: rbac_inv_def RBACData_init_def)

text \<open>C7: The permission check of an account: it holds exactly of the permissions inherited from
  those whose first database row grants them and from the defaults of the security level that
  no row mentions; account 0 has none.\<close>

theorem AccountMgr_HasPermission_correct:
  "AccountMgr_HasPermission am sec rows acc p realm \<longleftrightarrow>
     acc \<noteq> 0 \<and> p \<in> inherited am (directly_granted am (rows acc realm) (sec acc))"
  by (simp add: AccountMgr_HasPermission_def HasPermission_def LoadFromDB_eq RBACData_init_def)

section \<open>What a denial does\<close>

text \<open>
  The comment on \<open>CalculateNewPermissions\<close> says "Granted - Denied". \<open>RemovePermissions\<close> erases
  its first argument from its second and is called with the effective permissions first, so
  the set that shrinks is the local copy of the denied ones.
\<close>

text \<open>C8: A denied permission is not taken away from an account that inherits it: after a
  successful \<open>DenyPermission\<close> with a realm, the account has exactly the permissions it inherits
  from its granted ones, the denied one included if a granted permission leads to it.\<close>

theorem denied_permission_stays_inherited:
  assumes "DenyPermission am p realm r = (RBAC_OK, r')" and "realm \<noteq> 0"
  shows "p \<in> rb_denied r' \<and> rb_granted r' = rb_granted r
    \<and> (\<forall>q. HasPermission r' q \<longleftrightarrow> q \<in> inherited am (rb_granted r))"
  using assms
  by (auto simp: rbac_ops HasPermission_def CalculateNewPermissions_eq split: if_splits)

definition example_table :: account_mgr where
  "example_table = \<lparr>am_permissions = [1 \<mapsto> Some \<lparr>perm_name = ''role'', perm_links = {2}\<rparr>,
                                      2 \<mapsto> Some \<lparr>perm_name = ''command'', perm_links = {}\<rparr>],
                    am_defaults = (\<lambda>_. {})\<rparr>"

theorem denied_permission_stays_inherited_witness:
  "\<exists>r'. DenyPermission example_table 2 1 ((RBACData_init 7 1 0)\<lparr>rb_granted := {1}\<rparr>) = (RBAC_OK, r')
     \<and> 2 \<in> rb_denied r' \<and> HasPermission r' 2"
proof -
  let ?r = "(RBACData_init 7 1 0)\<lparr>rb_granted := {1}\<rparr>"
  define r' where "r' = snd (DenyPermission example_table 2 1 ?r)"
  have deny: "DenyPermission example_table 2 1 ?r = (RBAC_OK, r')"
    by (simp add: r'_def rbac_ops example_table_def GetRBACPermission_def RBACData_init_def)
  have "1 \<in> inherited example_table {1}"
    by (rule inherited.direct) (simp_all add: example_table_def GetRBACPermission_def)
  then have "2 \<in> inherited example_table {1}"
    by (rule inherited.linked [where perm = "\<lparr>perm_name = ''role'', perm_links = {2}\<rparr>"])
      (simp_all add: example_table_def GetRBACPermission_def)
  with denied_permission_stays_inherited [OF deny] show ?thesis
    using deny by (auto simp: RBACData_init_def)
qed

lemma Grant_then_Revoke:
  assumes "GrantPermission am p realm r = (RBAC_OK, r1)"
  shows "fst (RevokePermission am p realm' r1) = RBAC_OK
    \<and> rb_granted (snd (RevokePermission am p realm' r1)) = rb_granted r
    \<and> rb_denied (snd (RevokePermission am p realm' r1)) = rb_denied r"
  using assms by (auto simp: rbac_ops CalculateNewPermissions_eq split: if_splits)

text \<open>
  \<open>UpdateAccountAccess\<close> compares for equality, so that a changed level only reaches the database:
  the account in memory keeps its level, and with another level also its permissions.
\<close>

lemma UpdateAccountAccess_memory:
  assumes "UpdateAccountAccess am rows (Some r) acc level realm = (Some r', stmts)"
  shows "rb_secLevel r' = rb_secLevel r" and "level \<noteq> rb_secLevel r \<Longrightarrow> r' = r"
  using assms by (auto simp: UpdateAccountAccess_def SetSecurityLevel_def LoadFromDB_eq split: if_splits)

section \<open>Loading the permission table\<close>

lemma load_permissions_lookup:
  "am_permissions (load_permissions rows am) i =
     (case map_of (rev rows) i of
        None \<Rightarrow> am_permissions am i
      | Some name \<Rightarrow> Some (Some \<lparr>perm_name = name, perm_links = {}\<rparr>))"
  by (induction rows am rule: load_permissions.induct) (auto simp: map_add_def split: option.splits)

lemma lookup_or_create_known:
  "in_table am i \<Longrightarrow> lookup_or_create am i = am"
  by (auto simp: lookup_or_create_def in_table_def GetRBACPermission_def split: option.splits)

text \<open>One row of the link query, when the permission it names is in the table.\<close>

definition add_link :: "u32 \<Rightarrow> u32 \<Rightarrow> account_mgr \<Rightarrow> account_mgr" where
  "add_link i l am =
     (case GetRBACPermission am i of
        None \<Rightarrow> am
      | Some p \<Rightarrow> am\<lparr>am_permissions := (am_permissions am)
                      (i \<mapsto> Some (p\<lparr>perm_links := insert l (perm_links p)\<rparr>))\<rparr>)"

lemma GetRBACPermission_add_link:
  "GetRBACPermission (add_link i l am) j =
     (if j = i then map_option (\<lambda>p. p\<lparr>perm_links := insert l (perm_links p)\<rparr>) (GetRBACPermission am i)
      else GetRBACPermission am j)"
  by (auto simp: add_link_def GetRBACPermission_def split: option.splits)

lemma load_links_good:
  assumes "\<forall>(i, l) \<in> set rows. in_table am i"
    and "(\<forall>(i, l) \<in> set rows. i \<noteq> pid) \<and> ptr = None \<or> ptr = Some pid \<and> in_table am pid"
  shows "load_links pid ptr rows am =
     Some (foldl (\<lambda>am (i, l). if l = i then am else add_link i l am) am rows)"
  using assms
proof (induction rows arbitrary: pid ptr am)
  case Nil
  show ?case by simp
next
  case (Cons row rows)
  obtain i l where row: "row = (i, l)" by fastforce
  have i: "in_table am i" using Cons.prems(1) by (simp add: row)
  have step: "load_links pid ptr (row # rows) am =
      load_links i (Some i) rows (if l = i then am else add_link i l am)"
    using Cons.prems(2) i
    by (cases "pid = i")
      (auto simp: row lookup_or_create_known add_link_def in_table_def GetRBACPermission_def Let_def
        split: option.splits)
  have "in_table (if l = i then am else add_link i l am) j \<longleftrightarrow> in_table am j" for j
    by (auto simp: in_table_def GetRBACPermission_add_link)
  then show ?case
    unfolding step using Cons.IH [of "if l = i then am else add_link i l am" i "Some i"] Cons.prems(1) i
    by (simp add: row)
qed

end
