(* ===== verification/StdMap.thy ===== *)
theory StdMap
  imports Prelude
begin

text \<open>
  \<^verbatim>\<open>std::map\<close>: a list of key-value pairs in strictly increasing order of the keys, with the
  operations the components use: \<open>find\<close>, insertion or assignment, \<open>operator[]\<close> (which inserts a
  default value), \<open>erase\<close>, \<open>begin\<close> and iteration in key order. \<open>om_map\<close> forgets the order.
\<close>

type_synonym ('k, 'v) omap = "('k \<times> 'v) list"

definition om_ok :: "('k::linorder, 'v) omap \<Rightarrow> bool" where
  "om_ok m \<longleftrightarrow> sorted_wrt (<) (map fst m)"

definition om_find :: "'k \<Rightarrow> ('k, 'v) omap \<Rightarrow> 'v option" where
  "om_find k m = map_of m k"

definition om_has :: "'k \<Rightarrow> ('k, 'v) omap \<Rightarrow> bool" where
  "om_has k m \<longleftrightarrow> om_find k m \<noteq> None"

fun om_set :: "'k::linorder \<Rightarrow> 'v \<Rightarrow> ('k, 'v) omap \<Rightarrow> ('k, 'v) omap" where
  "om_set k v [] = [(k, v)]"
| "om_set k v (e # m) =
     (if k = fst e then (k, v) # m else if k < fst e then (k, v) # e # m else e # om_set k v m)"

definition om_erase :: "'k \<Rightarrow> ('k, 'v) omap \<Rightarrow> ('k, 'v) omap" where
  "om_erase k m = filter (\<lambda>e. fst e \<noteq> k) m"

text \<open>\<open>m[k]\<close>: the value, with the entry created when there is none.\<close>

definition om_at :: "'v \<Rightarrow> 'k \<Rightarrow> ('k, 'v) omap \<Rightarrow> 'v" where
  "om_at d k m = (case om_find k m of Some v \<Rightarrow> v | None \<Rightarrow> d)"

definition om_touch :: "'v \<Rightarrow> 'k::linorder \<Rightarrow> ('k, 'v) omap \<Rightarrow> ('k, 'v) omap" where
  "om_touch d k m = (if om_has k m then m else om_set k d m)"

definition om_keys :: "('k, 'v) omap \<Rightarrow> 'k list" where
  "om_keys m = map fst m"

named_theorems om_simps "lookup after an update of an ordered map"

lemma om_find_Nil [om_simps]: "om_find k [] = None"
  by (simp add: om_find_def)

lemma om_find_set [om_simps]: "om_find k (om_set j v m) = (if k = j then Some v else om_find k m)"
  unfolding om_find_def by (induction m) auto

lemma om_find_erase [om_simps]: "om_find k (om_erase j m) = (if k = j then None else om_find k m)"
  unfolding om_find_def om_erase_def by (induction m) auto

lemma om_find_touch [om_simps]:
  "om_find k (om_touch d j m) = (if k = j then Some (om_at d j m) else om_find k m)"
  by (auto simp: om_touch_def om_at_def om_has_def om_simps split: option.split)

lemma om_has_set [om_simps]: "om_has k (om_set j v m) \<longleftrightarrow> k = j \<or> om_has k m"
  by (simp add: om_has_def om_simps)

lemma om_has_erase [om_simps]: "om_has k (om_erase j m) \<longleftrightarrow> k \<noteq> j \<and> om_has k m"
  by (simp add: om_has_def om_simps)

lemma om_has_touch [om_simps]: "om_has k (om_touch d j m) \<longleftrightarrow> k = j \<or> om_has k m"
  by (auto simp: om_has_def om_simps)

lemma om_at_set [om_simps]: "om_at d k (om_set j v m) = (if k = j then v else om_at d k m)"
  by (simp add: om_at_def om_simps)

lemma om_at_touch [om_simps]: "om_at d k (om_touch d j m) = om_at d k m"
  by (auto simp: om_at_def om_simps)

lemma om_touch_id: "om_has k m \<Longrightarrow> om_touch d k m = m"
  by (simp add: om_touch_def)

lemma om_has_keys: "om_has k m \<longleftrightarrow> k \<in> set (om_keys m)"
  unfolding om_has_def om_find_def om_keys_def by (induction m) auto

lemma om_find_Some_has: "om_find k m = Some v \<Longrightarrow> om_has k m"
  by (simp add: om_has_def)

lemma om_find_hd: "om_find (fst e) (e # m) = Some (snd e)"
  by (simp add: om_find_def)

lemma set_om_set_keys: "set (map fst (om_set k v m)) = insert k (set (map fst m))"
  by (induction m) auto

lemma om_ok_Nil [simp]: "om_ok []"
  by (simp add: om_ok_def)

lemma om_ok_set [simp]: "om_ok m \<Longrightarrow> om_ok (om_set k v m)"
  unfolding om_ok_def
proof (induction m)
  case Nil
  then show ?case by simp
next
  case (Cons e m)
  have "fst e < x" if "x \<in> set (map fst (om_set k v m))" and "fst e < k" for x
    using that Cons.prems unfolding set_om_set_keys by auto
  with Cons show ?case by (auto simp: not_less_iff_gr_or_eq)
qed

lemma om_ok_erase [simp]: "om_ok m \<Longrightarrow> om_ok (om_erase k m)"
  unfolding om_ok_def om_erase_def by (induction m) auto

lemma om_ok_touch [simp]: "om_ok m \<Longrightarrow> om_ok (om_touch d k m)"
  by (simp add: om_touch_def)

text \<open>In an ordered map an entry of the list is what a lookup of its key finds.\<close>

lemma om_ok_find: "om_ok m \<Longrightarrow> (k, v) \<in> set m \<longleftrightarrow> om_find k m = Some v"
  unfolding om_ok_def om_find_def by (induction m) force+

lemma om_erase_absent: "\<not> om_has k m \<Longrightarrow> om_erase k m = m"
  unfolding om_erase_def filter_id_conv by (auto simp: om_has_keys om_keys_def)

text \<open>
  The interface of a finite map, as the components rely on it; \<open>std::map\<close> provides it.
\<close>

locale finite_map =
  fixes find :: "'k \<Rightarrow> 'm \<Rightarrow> 'v option"
    and upd :: "'k \<Rightarrow> 'v \<Rightarrow> 'm \<Rightarrow> 'm"
    and del :: "'k \<Rightarrow> 'm \<Rightarrow> 'm"
  assumes find_upd: "find k (upd j v m) = (if k = j then Some v else find k m)"
    and find_del: "find k (del j m) = (if k = j then None else find k m)"
begin

lemma find_upd_del: "find k (del j (upd j v m)) = find k (del j m)"
  by (simp add: find_upd find_del)

text \<open>A property of every value is kept by an update with such a value and by every deletion.\<close>

lemma all_upd: "(\<And>k v. find k m = Some v \<Longrightarrow> P k v) \<Longrightarrow> P j w \<Longrightarrow> find k (upd j w m) = Some v \<Longrightarrow> P k v"
  by (auto simp: find_upd split: if_splits)

lemma all_del: "(\<And>k v. find k m = Some v \<Longrightarrow> P k v) \<Longrightarrow> find k (del j m) = Some v \<Longrightarrow> P k v"
  by (auto simp: find_del split: if_splits)

end

interpretation omap: finite_map om_find om_set om_erase
  by unfold_locales (simp_all add: om_simps)

text \<open>Counting the values with a property, across an update.\<close>

definition om_count :: "('v \<Rightarrow> bool) \<Rightarrow> ('k, 'v) omap \<Rightarrow> nat" where
  "om_count P m = length (filter (\<lambda>e. P (snd e)) m)"

lemma om_find_below: "om_ok (e # m) \<Longrightarrow> k < fst e \<Longrightarrow> om_find k (e # m) = None"
  unfolding om_ok_def om_find_def map_of_eq_None_iff by force

lemma om_count_set:
  "om_ok m \<Longrightarrow> om_count P (om_set k v m) + (case om_find k m of None \<Rightarrow> 0 | Some w \<Rightarrow> of_bool (P w))
     = om_count P m + of_bool (P v)"
proof (induction m)
  case Nil
  then show ?case by (simp add: om_count_def om_simps)
next
  case (Cons e m)
  then have ok: "om_ok m" by (simp add: om_ok_def)
  consider "k = fst e" | "k < fst e" | "fst e < k" by fastforce
  then show ?case
  proof cases
    case 1
    then show ?thesis by (simp add: om_count_def om_find_hd)
  next
    case 2
    then show ?thesis using om_find_below [OF Cons.prems 2] by (auto simp: om_count_def)
  next
    case 3
    then have "om_find k (e # m) = om_find k m" by (auto simp: om_find_def)
    moreover have "k \<noteq> fst e" "\<not> k < fst e" using 3 by auto
    ultimately show ?thesis using Cons.IH [OF ok] by (simp add: om_count_def)
  qed
qed

lemma om_count_erase: "om_count P (om_erase k m) \<le> om_count P m"
  unfolding om_count_def om_erase_def by (induction m) auto

end
