(* ===== verification/ByteBuffer.thy ===== *)
theory ByteBuffer
  imports Prelude
begin

text \<open>
  \<^verbatim>\<open>src/src/server/shared/Packets/ByteBuffer.h\<close>, with the byte order conversion of
  \<^verbatim>\<open>src/src/common/Utilities/ByteConverter.h\<close>: the buffer every network packet is written to and
  parsed from. The state is the two cursors and the storage. \<open>size_t\<close> has 64 bits: cursors are
  natural numbers and the sums the code compares with the size wrap (\<open>add64\<close>). An exception
  is a value of \<open>bb_error\<close>; \<open>Asserted\<close> is a failed \<open>ASSERT\<close>, and \<open>OutOfBounds\<close> an access outside
  the storage that the code's check let through, which C++ leaves undefined. A failed memory
  allocation is not modelled, nor are \<open>float\<close> and \<open>double\<close>.
\<close>

section \<open>Byte order\<close>

text \<open>
  \<open>ByteConverter::convert\<close> swaps the outermost pair of bytes and goes on inside; \<open>big\<close> says
  whether the host is big-endian. \<open>host_bytes\<close> is how the host lays a value out in memory.
\<close>

function convert_bytes :: "u8 list \<Rightarrow> u8 list" where
  "convert_bytes bs =
     (if length bs < 2 then bs else [last bs] @ convert_bytes (butlast (tl bs)) @ [hd bs])"
  by pat_completeness auto
termination by (relation "measure length") auto

declare convert_bytes.simps [simp del]

definition EndianConvert :: "bool \<Rightarrow> u8 list \<Rightarrow> u8 list" where
  "EndianConvert big bs = (if big then convert_bytes bs else bs)"

definition host_bytes :: "bool \<Rightarrow> nat \<Rightarrow> 'a::len word \<Rightarrow> u8 list" where
  "host_bytes big n v = (if big then rev (le_bytes n v) else le_bytes n v)"

lemma convert_bytes_rev: "convert_bytes bs = rev bs"
proof (induction bs rule: convert_bytes.induct)
  case (1 bs)
  show ?case
  proof (cases "length bs < 2")
    case True
    then show ?thesis by (subst convert_bytes.simps) (cases bs; auto simp: length_Suc_conv less_Suc_eq numeral_2_eq_2)
  next
    case False
    then obtain b c bs' where bs: "bs = b # bs' @ [c]"
      by (cases bs; cases "tl bs" rule: rev_cases) auto
    with 1 False show ?thesis by (subst convert_bytes.simps) simp
  qed
qed

text \<open>What reaches the wire does not depend on the host.\<close>

lemma wire_bytes: "EndianConvert big (host_bytes big n v) = le_bytes n v"
  by (simp add: EndianConvert_def host_bytes_def convert_bytes_rev)

section \<open>The buffer\<close>

datatype bb_error =
    PositionException bool nat nat nat
  | SourceException nat nat nat
  | ByteBufferException
  | Asserted
  | OutOfBounds

record byte_buffer =
  bb_rpos :: nat
  bb_wpos :: nat
  bb_storage :: "u8 list"

definition add64 :: "nat \<Rightarrow> nat \<Rightarrow> nat" where
  "add64 a b = (a + b) mod 2 ^ 64"

definition bb_init :: byte_buffer where
  "bb_init = \<lparr>bb_rpos = 0, bb_wpos = 0, bb_storage = []\<rparr>"

definition bb_size :: "byte_buffer \<Rightarrow> nat" where
  "bb_size b = length (bb_storage b)"

definition bb_clear :: "byte_buffer \<Rightarrow> byte_buffer" where
  "bb_clear b = b\<lparr>bb_storage := [], bb_rpos := 0, bb_wpos := 0\<rparr>"

definition bb_move :: "byte_buffer \<Rightarrow> byte_buffer \<times> byte_buffer" where
  "bb_move b = (b, b\<lparr>bb_rpos := 0, bb_wpos := 0, bb_storage := []\<rparr>)"

definition vec_resize :: "nat \<Rightarrow> u8 list \<Rightarrow> u8 list" where
  "vec_resize n xs = take n xs @ replicate (n - length xs) 0"

definition bb_resize :: "nat \<Rightarrow> byte_buffer \<Rightarrow> byte_buffer" where
  "bb_resize n b = b\<lparr>bb_storage := vec_resize n (bb_storage b), bb_rpos := 0, bb_wpos := n\<rparr>"

definition bb_set_rpos :: "nat \<Rightarrow> byte_buffer \<Rightarrow> byte_buffer" where
  "bb_set_rpos p b = b\<lparr>bb_rpos := p\<rparr>"

definition bb_set_wpos :: "nat \<Rightarrow> byte_buffer \<Rightarrow> byte_buffer" where
  "bb_set_wpos p b = b\<lparr>bb_wpos := p\<rparr>"

definition bb_rfinish :: "byte_buffer \<Rightarrow> byte_buffer" where
  "bb_rfinish b = b\<lparr>bb_rpos := bb_wpos b\<rparr>"

text \<open>\<open>memcpy\<close> into and out of the storage.\<close>

definition write_at :: "nat \<Rightarrow> u8 list \<Rightarrow> u8 list \<Rightarrow> u8 list option" where
  "write_at p src st =
     (if p + length src \<le> length st then Some (take p st @ src @ drop (p + length src) st) else None)"

definition read_at :: "nat \<Rightarrow> nat \<Rightarrow> u8 list \<Rightarrow> u8 list option" where
  "read_at p n st = (if p + n \<le> length st then Some (take n (drop p st)) else None)"

subsection \<open>Writing\<close>

definition bb_append :: "u8 list \<Rightarrow> byte_buffer \<Rightarrow> bb_error + byte_buffer" where
  "bb_append src b =
     (if length src = 0 then Inl (SourceException (bb_wpos b) (bb_size b) (length src))
      else if \<not> bb_size b < 10000000 then Inl Asserted
      else let wend = add64 (bb_wpos b) (length src);
               st = (if bb_size b < wend then vec_resize wend (bb_storage b) else bb_storage b)
           in case write_at (bb_wpos b) src st of
                None \<Rightarrow> Inl OutOfBounds
              | Some st \<Rightarrow> Inr (b\<lparr>bb_storage := st, bb_wpos := wend\<rparr>))"

text \<open>\<open>append<T>(value)\<close>: the value's \<open>n\<close> bytes in memory, after \<open>EndianConvert\<close>.\<close>

definition bb_append_val :: "bool \<Rightarrow> nat \<Rightarrow> 'a::len word \<Rightarrow> byte_buffer \<Rightarrow> bb_error + byte_buffer" where
  "bb_append_val big n v b = bb_append (EndianConvert big (host_bytes big n v)) b"

definition put_u8 :: "bool \<Rightarrow> u8 \<Rightarrow> byte_buffer \<Rightarrow> bb_error + byte_buffer" where
  "put_u8 big v b = bb_append_val big 1 v b"

definition put_u16 :: "bool \<Rightarrow> u16 \<Rightarrow> byte_buffer \<Rightarrow> bb_error + byte_buffer" where
  "put_u16 big v b = bb_append_val big 2 v b"

definition put_u32 :: "bool \<Rightarrow> u32 \<Rightarrow> byte_buffer \<Rightarrow> bb_error + byte_buffer" where
  "put_u32 big v b = bb_append_val big 4 v b"

definition put_u64 :: "bool \<Rightarrow> u64 \<Rightarrow> byte_buffer \<Rightarrow> bb_error + byte_buffer" where
  "put_u64 big v b = bb_append_val big 8 v b"

definition put_string :: "bool \<Rightarrow> u8 list \<Rightarrow> byte_buffer \<Rightarrow> bb_error + byte_buffer" where
  "put_string big s b =
     andthen (if length s \<noteq> 0 then bb_append s b else Inr b) (put_u8 big 0)"

text \<open>\<open>append(ByteBuffer const&)\<close> passes \<open>contents()\<close> with \<open>wpos()\<close> as the length.\<close>

definition bb_contents :: "byte_buffer \<Rightarrow> bb_error + u8 list" where
  "bb_contents b = (if bb_storage b = [] then Inl ByteBufferException else Inr (bb_storage b))"

definition bb_append_buffer :: "byte_buffer \<Rightarrow> byte_buffer \<Rightarrow> bb_error + byte_buffer" where
  "bb_append_buffer src b =
     (if bb_wpos src \<noteq> 0
      then andthen (bb_contents src) (\<lambda>st.
             case read_at 0 (bb_wpos src) st of None \<Rightarrow> Inl OutOfBounds | Some bs \<Rightarrow> bb_append bs b)
      else Inr b)"

definition bb_put :: "nat \<Rightarrow> u8 list \<Rightarrow> byte_buffer \<Rightarrow> bb_error + byte_buffer" where
  "bb_put pos src b =
     (if add64 pos (length src) > bb_size b then Inl (PositionException True pos (length src) (bb_size b))
      else case write_at pos src (bb_storage b) of
             None \<Rightarrow> Inl OutOfBounds
           | Some st \<Rightarrow> Inr (b\<lparr>bb_storage := st\<rparr>))"

definition bb_put_val :: "bool \<Rightarrow> nat \<Rightarrow> nat \<Rightarrow> 'a::len word \<Rightarrow> byte_buffer \<Rightarrow> bb_error + byte_buffer" where
  "bb_put_val big pos n v b = bb_put pos (EndianConvert big (host_bytes big n v)) b"

subsection \<open>Reading\<close>

definition bb_index :: "nat \<Rightarrow> byte_buffer \<Rightarrow> bb_error + u8" where
  "bb_index pos b =
     (if pos \<ge> bb_size b then Inl (PositionException False pos 1 (bb_size b))
      else Inr (bb_storage b ! pos))"

definition bb_read_at :: "bool \<Rightarrow> nat \<Rightarrow> nat \<Rightarrow> byte_buffer \<Rightarrow> bb_error + 'a::len word" where
  "bb_read_at big n pos b =
     (if add64 pos n > bb_size b then Inl (PositionException False pos n (bb_size b))
      else case read_at pos n (bb_storage b) of
             None \<Rightarrow> Inl OutOfBounds
           | Some bs \<Rightarrow> Inr (le_word (if big then rev (EndianConvert big bs) else EndianConvert big bs)))"

definition bb_read :: "bool \<Rightarrow> nat \<Rightarrow> byte_buffer \<Rightarrow> bb_error + ('a::len word \<times> byte_buffer)" where
  "bb_read big n b =
     andthen (bb_read_at big n (bb_rpos b) b) (\<lambda>v. Inr (v, b\<lparr>bb_rpos := add64 (bb_rpos b) n\<rparr>))"

definition get_u8 :: "bool \<Rightarrow> byte_buffer \<Rightarrow> bb_error + (u8 \<times> byte_buffer)" where
  "get_u8 big b = bb_read big 1 b"

definition get_u16 :: "bool \<Rightarrow> byte_buffer \<Rightarrow> bb_error + (u16 \<times> byte_buffer)" where
  "get_u16 big b = bb_read big 2 b"

definition get_u32 :: "bool \<Rightarrow> byte_buffer \<Rightarrow> bb_error + (u32 \<times> byte_buffer)" where
  "get_u32 big b = bb_read big 4 b"

definition get_u64 :: "bool \<Rightarrow> byte_buffer \<Rightarrow> bb_error + (u64 \<times> byte_buffer)" where
  "get_u64 big b = bb_read big 8 b"

text \<open>\<open>read<char>() > 0\<close>, with \<open>char\<close> signed.\<close>

definition get_bool :: "bool \<Rightarrow> byte_buffer \<Rightarrow> bb_error + (bool \<times> byte_buffer)" where
  "get_bool big b = andthen (get_u8 big b) (\<lambda>(c, b). Inr (sint c > 0, b))"

definition bb_read_skip :: "nat \<Rightarrow> byte_buffer \<Rightarrow> bb_error + byte_buffer" where
  "bb_read_skip skip b =
     (if add64 (bb_rpos b) skip > bb_size b
      then Inl (PositionException False (bb_rpos b) skip (bb_size b))
      else Inr (b\<lparr>bb_rpos := add64 (bb_rpos b) skip\<rparr>))"

definition bb_read_bytes :: "nat \<Rightarrow> byte_buffer \<Rightarrow> bb_error + (u8 list \<times> byte_buffer)" where
  "bb_read_bytes len b =
     (if add64 (bb_rpos b) len > bb_size b
      then Inl (PositionException False (bb_rpos b) len (bb_size b))
      else case read_at (bb_rpos b) len (bb_storage b) of
             None \<Rightarrow> Inl OutOfBounds
           | Some bs \<Rightarrow> Inr (bs, b\<lparr>bb_rpos := add64 (bb_rpos b) len\<rparr>))"

text \<open>
  The string loop reads characters while the cursor is inside the storage; the fuel bounds the
  rounds by the bytes that are left, which \<open>get_string_enough\<close> below shows to suffice.
\<close>

fun get_string_loop :: "nat \<Rightarrow> bool \<Rightarrow> u8 list \<Rightarrow> byte_buffer \<Rightarrow> (bb_error + (u8 list \<times> byte_buffer)) option" where
  "get_string_loop 0 big value b = (if bb_rpos b < bb_size b then None else Some (Inr (value, b)))"
| "get_string_loop (Suc fuel) big value b =
     (if bb_rpos b < bb_size b
      then case get_u8 big b of
             Inl e \<Rightarrow> Some (Inl e)
           | Inr (c, b) \<Rightarrow> if c = 0 then Some (Inr (value, b))
                          else get_string_loop fuel big (value @ [c]) b
      else Some (Inr (value, b)))"

definition get_string :: "bool \<Rightarrow> byte_buffer \<Rightarrow> (bb_error + (u8 list \<times> byte_buffer)) option" where
  "get_string big b = get_string_loop (bb_size b - bb_rpos b) big [] b"

subsection \<open>Packed GUIDs\<close>

text \<open>
  A GUID is written as a mask byte, with a bit for each of the eight bytes that is not zero,
  followed by those bytes.
\<close>

lemma unat_drop_8_less: "(g :: u64) \<noteq> 0 \<Longrightarrow> unat (drop_bit 8 g) < unat g"
  by (simp add: drop_bit_eq_div unat_div unat_gt_0)

function pack_guid_loop :: "nat \<Rightarrow> u64 \<Rightarrow> u8 \<Rightarrow> u8 list \<Rightarrow> u8 \<times> u8 list" where
  "pack_guid_loop i guid msk out =
     (if guid = 0 then (msk, out)
      else if guid AND 0xFF \<noteq> 0
           then pack_guid_loop (Suc i) (drop_bit 8 guid) (msk OR push_bit i 1) (out @ [ucast (guid AND 0xFF)])
           else pack_guid_loop (Suc i) (drop_bit 8 guid) msk out)"
  by pat_completeness auto
termination
  by (relation "measure (\<lambda>(i, guid, m, out). unat guid)")
    (simp_all only: wf_measure in_measure prod.case unat_drop_8_less simp_thms)

declare pack_guid_loop.simps [simp del]

definition appendPackGUID :: "u64 \<Rightarrow> byte_buffer \<Rightarrow> bb_error + byte_buffer" where
  "appendPackGUID guid b =
     (case pack_guid_loop 0 guid 0 [] of (msk, out) \<Rightarrow> bb_append (msk # out) b)"

fun read_guid_loop :: "nat \<Rightarrow> nat \<Rightarrow> bool \<Rightarrow> u8 \<Rightarrow> u64 \<Rightarrow> byte_buffer \<Rightarrow> bb_error + (u64 \<times> byte_buffer)" where
  "read_guid_loop 0 i big msk guid b = Inr (guid, b)"
| "read_guid_loop (Suc n) i big msk guid b =
     (if msk AND push_bit i 1 \<noteq> 0
      then if add64 (bb_rpos b) 1 > bb_size b
           then Inl (PositionException False (bb_rpos b) 1 (bb_size b))
           else andthen (get_u8 big b) (\<lambda>(bt, b).
                  read_guid_loop n (Suc i) big msk (guid OR push_bit (i * 8) (ucast bt)) b)
      else read_guid_loop n (Suc i) big msk guid b)"

definition readPackGUID :: "bool \<Rightarrow> byte_buffer \<Rightarrow> bb_error + (u64 \<times> byte_buffer)" where
  "readPackGUID big b =
     (if add64 (bb_rpos b) 1 > bb_size b then Inl (PositionException False (bb_rpos b) 1 (bb_size b))
      else andthen (get_u8 big b) (\<lambda>(msk, b). read_guid_loop 8 0 big msk 0 b))"

subsection \<open>Packed times\<close>

text \<open>The calendar time of \<open>localtime_r\<close> and \<open>mktime\<close>, as far as the code uses it.\<close>

record tm =
  tm_min :: int
  tm_hour :: int
  tm_wday :: int
  tm_mday :: int
  tm_mon :: int
  tm_year :: int

definition packed_time :: "tm \<Rightarrow> u32" where
  "packed_time lt =
     push_bit 24 (word_of_int (tm_year lt - 100)) OR push_bit 20 (word_of_int (tm_mon lt)) OR
     push_bit 14 (word_of_int (tm_mday lt - 1)) OR push_bit 11 (word_of_int (tm_wday lt)) OR
     push_bit 6 (word_of_int (tm_hour lt)) OR word_of_int (tm_min lt)"

definition AppendPackedTime :: "(int \<Rightarrow> tm) \<Rightarrow> bool \<Rightarrow> int \<Rightarrow> byte_buffer \<Rightarrow> bb_error + byte_buffer" where
  "AppendPackedTime localtime big time b = put_u32 big (packed_time (localtime time)) b"

definition unpacked_time :: "u32 \<Rightarrow> tm" where
  "unpacked_time packedDate =
     \<lparr>tm_min = uint (packedDate AND 0x3F),
      tm_hour = uint (drop_bit 6 packedDate AND 0x1F),
      tm_wday = 0,
      tm_mday = uint ((drop_bit 14 packedDate AND 0x3F) + 1),
      tm_mon = uint (drop_bit 20 packedDate AND 0xF),
      tm_year = uint ((drop_bit 24 packedDate AND 0x1F) + 100)\<rparr>"

definition ReadPackedTime :: "(tm \<Rightarrow> int) \<Rightarrow> bool \<Rightarrow> byte_buffer \<Rightarrow> bb_error + (u32 \<times> byte_buffer)" where
  "ReadPackedTime mktime big b =
     andthen (get_u32 big b) (\<lambda>(packedDate, b). Inr (word_of_int (mktime (unpacked_time packedDate)), b))"

section \<open>What is written can be read\<close>

text \<open>
  A buffer under construction: the write cursor is at the end. \<open>room b n\<close> says that \<open>n\<close> more
  bytes keep it below the size that \<open>append\<close> asserts.
\<close>

definition fresh :: "byte_buffer \<Rightarrow> bool" where
  "fresh b \<longleftrightarrow> bb_wpos b = bb_size b"

definition room :: "byte_buffer \<Rightarrow> nat \<Rightarrow> bool" where
  "room b n \<longleftrightarrow> bb_size b + n < 10000000"

definition extend :: "byte_buffer \<Rightarrow> u8 list \<Rightarrow> byte_buffer" where
  "extend b bs = b\<lparr>bb_storage := bb_storage b @ bs, bb_wpos := bb_wpos b + length bs\<rparr>"

definition skip :: "byte_buffer \<Rightarrow> nat \<Rightarrow> byte_buffer" where
  "skip b n = b\<lparr>bb_rpos := bb_rpos b + n\<rparr>"

definition ahead :: "byte_buffer \<Rightarrow> u8 list" where
  "ahead b = drop (bb_rpos b) (bb_storage b)"

lemma extend_simps [simp]:
  "fresh (extend b bs) \<longleftrightarrow> fresh b" "extend (extend b bs) cs = extend b (bs @ cs)"
  "bb_size (extend b bs) = bb_size b + length bs" "extend b [] = b"
  "bb_storage (extend b bs) = bb_storage b @ bs" "bb_rpos (extend b bs) = bb_rpos b"
  by (auto simp: extend_def fresh_def bb_size_def)

lemma skip_simps [simp]:
  "bb_size (skip b n) = bb_size b" "skip (skip b m) n = skip b (m + n)"
  "ahead (skip b n) = drop n (ahead b)" "skip b 0 = b" "bb_rpos (skip b n) = bb_rpos b + n"
  "bb_storage (skip b n) = bb_storage b"
  by (auto simp: skip_def bb_size_def ahead_def add.commute)

lemma append_fresh:
  assumes "fresh b" and "room b (length src)" and "src \<noteq> []"
  shows "bb_append src b = Inr (extend b src)"
proof -
  have "add64 (bb_wpos b) (length src) = length (bb_storage b) + length src"
    using assms by (simp add: add64_def fresh_def room_def bb_size_def)
  with assms show ?thesis
    by (simp add: bb_append_def room_def fresh_def bb_size_def vec_resize_def write_at_def extend_def Let_def)
qed

lemma length_ahead: "length (ahead b) = bb_size b - bb_rpos b"
  by (simp add: ahead_def bb_size_def)

lemma read_ahead:
  fixes v :: "'a::len word"
  assumes "room b 0" and "ahead b = le_bytes n v @ rest" and "LENGTH('a) = 8 * n"
  shows "bb_read big n b = Inr (v, skip b n)"
proof -
  have "n \<noteq> 0" using assms(3) by (metis len_gt_0 less_irrefl mult_0_right)
  with assms(2) length_ahead [of b] have le: "bb_rpos b + n \<le> bb_size b" by auto
  then have add: "add64 (bb_rpos b) n = bb_rpos b + n"
    using assms(1) by (simp add: add64_def room_def)
  have "take n (drop (bb_rpos b) (bb_storage b)) = le_bytes n v"
    using assms(2) by (simp add: ahead_def)
  then show ?thesis
    using le add le_word_le_bytes [OF assms(3), of v]
    by (simp add: bb_read_def bb_read_at_def read_at_def skip_def bb_size_def
        EndianConvert_def convert_bytes_rev)
qed

lemma add64_small: "room b 0 \<Longrightarrow> bb_rpos b < bb_size b \<Longrightarrow> add64 (bb_rpos b) (Suc 0) = Suc (bb_rpos b)"
  by (simp add: add64_def room_def)

lemma ahead_Cons_less: "ahead b = x # xs \<Longrightarrow> bb_rpos b < bb_size b"
  using length_ahead [of b] by simp

lemma get_u8_ahead:
  assumes "room b 0" and "ahead b = v # rest"
  shows "get_u8 big b = Inr (v, skip b 1)"
proof -
  have "le_bytes 1 v = [v]" by (simp add: le_bytes_def)
  with assms show ?thesis
    unfolding get_u8_def by (intro read_ahead) auto
qed

lemma guid_split:
  fixes g :: u64
  shows "push_bit (i * 8) (ucast (ucast (g AND 0xFF) :: u8)) OR push_bit (8 * Suc i) (drop_bit 8 g) = push_bit (8 * i) g"
proof (rule bit_word_eqI)
  fix k
  let ?l = "push_bit (i * 8) (ucast (ucast (g AND 0xFF) :: u8)) :: u64"
  let ?h = "push_bit (8 * Suc i) (drop_bit 8 g)"
  have ff: "(0xFF :: u64) = mask 8" by (simp add: mask_eq_exp_minus_1)
  have l: "bit ?l k \<longleftrightarrow> k < 64 \<and> 8 * i \<le> k \<and> k - 8 * i < 8 \<and> bit g (k - 8 * i)"
    unfolding ff by (auto simp: bit_push_bit_iff bit_unsigned_iff bit_and_iff bit_mask_iff mult.commute)
  have "8 + (k - 8 * Suc i) = k - 8 * i" if "8 * Suc i \<le> k" using that by simp
  then have h: "bit ?h k \<longleftrightarrow> k < 64 \<and> 8 * Suc i \<le> k \<and> bit g (k - 8 * i)"
    by (auto simp: bit_push_bit_iff bit_drop_bit_eq)
  have "bit (push_bit (8 * i) g) k \<longleftrightarrow> k < 64 \<and> 8 * i \<le> k \<and> bit g (k - 8 * i)"
    by (auto simp: bit_push_bit_iff)
  moreover have "8 * i \<le> k \<and> k - 8 * i < 8 \<or> 8 * Suc i \<le> k \<longleftrightarrow> 8 * i \<le> k" by auto
  ultimately show "bit (?l OR ?h) k = bit (push_bit (8 * i) g) k"
    unfolding bit_or_iff l h by blast
qed

lemma read_guid_none:
  "\<forall>j \<ge> i. \<not> bit msk j \<Longrightarrow> read_guid_loop n i big msk acc b = Inr (acc, b)"
  by (induction n arbitrary: i) (auto simp: and_pow2_eq_0)

text \<open>The two loops from byte \<open>i\<close> on, with \<open>g\<close> what is left of the GUID.\<close>

lemma pack_guid_loop_read:
  assumes "pack_guid_loop i g m out = (m', out')" and "i \<le> 8" and "\<forall>k \<ge> 64 - 8 * i. \<not> bit g k"
    and "\<forall>j \<ge> i. \<not> bit m j"
  shows "\<exists>tail. out' = out @ tail \<and> length tail \<le> 8 - i \<and> (\<forall>j < i. bit m' j = bit m j) \<and>
    (\<forall>b acc rest. room b 0 \<longrightarrow> ahead b = tail @ rest \<longrightarrow>
       read_guid_loop (8 - i) i big m' acc b = Inr (acc OR push_bit (8 * i) g, skip b (length tail)))"
  using assms
proof (induction i g m out arbitrary: m' out' rule: pack_guid_loop.induct)
  case (1 i g m out)
  show ?case
  proof (cases "g = 0")
    case True
    with "1.prems" have "m' = m" "out' = out" by (simp_all add: pack_guid_loop.simps [of i 0])
    with True "1.prems"(4) show ?thesis by (simp add: read_guid_none)
  next
    case False
    have "i \<noteq> 8" using False "1.prems"(3) by (auto simp: word_eq_0_bits)
    with "1.prems"(2) have i: "i < 8" by simp
    then have n: "8 - i = Suc (8 - Suc i)" by simp
    have low: "\<forall>k \<ge> 64 - 8 * Suc i. \<not> bit (drop_bit 8 g) k"
    proof (intro allI impI)
      fix k assume "64 - 8 * Suc i \<le> k"
      then have "64 - 8 * i \<le> 8 + k" by simp
      with "1.prems"(3) show "\<not> bit (drop_bit 8 g) k" by (simp add: bit_drop_bit_eq)
    qed
    show ?thesis
    proof (cases "g AND 0xFF = 0")
      case True
      have eq: "pack_guid_loop (Suc i) (drop_bit 8 g) m out = (m', out')"
        using "1.prems"(1) False True by (simp add: pack_guid_loop.simps [of i g])
      obtain tail where tail: "out' = out @ tail" "length tail \<le> 8 - Suc i" "\<forall>j < Suc i. bit m' j = bit m j"
        and rd: "\<And>b acc rest. room b 0 \<Longrightarrow> ahead b = tail @ rest \<Longrightarrow>
          read_guid_loop (8 - Suc i) (Suc i) big m' acc b = Inr (acc OR push_bit (8 * Suc i) (drop_bit 8 g), skip b (length tail))"
        using "1.IH"(2) [OF False _ eq _ low] True i "1.prems"(4) by auto
      have "\<not> bit m' i" using tail(3) "1.prems"(4) by simp
      moreover have "push_bit (8 * Suc i) (drop_bit 8 g) = push_bit (8 * i) g"
        using guid_split [of i g] True by simp
      ultimately show ?thesis
        using tail rd i by (intro exI [of _ tail]) (simp add: n and_pow2_eq_0)
    next
      case byte: False
      let ?v = "ucast (g AND 0xFF) :: u8"
      have eq: "pack_guid_loop (Suc i) (drop_bit 8 g) (m OR push_bit i 1) (out @ [?v]) = (m', out')"
        using "1.prems"(1) False byte by (simp add: pack_guid_loop.simps [of i g])
      have hi: "\<forall>j \<ge> Suc i. \<not> bit (m OR push_bit i 1) j"
        using "1.prems"(4) by (auto simp: bit_or_iff bits32)
      obtain tail where tail: "out' = (out @ [?v]) @ tail" "length tail \<le> 8 - Suc i"
          "\<forall>j < Suc i. bit m' j = bit (m OR push_bit i 1) j"
        and rd: "\<And>b acc rest. room b 0 \<Longrightarrow> ahead b = tail @ rest \<Longrightarrow>
          read_guid_loop (8 - Suc i) (Suc i) big m' acc b = Inr (acc OR push_bit (8 * Suc i) (drop_bit 8 g), skip b (length tail))"
        using "1.IH"(1) [OF False byte eq _ low hi] i by auto
      have bits: "\<forall>j < i. bit m' j = bit m j" "bit m' i"
        using tail(3) i by (auto simp: bit_or_iff bits32)
      have "read_guid_loop (8 - i) i big m' acc b = Inr (acc OR push_bit (8 * i) g, skip b (length (?v # tail)))"
        if "room b 0" and "ahead b = (?v # tail) @ rest" for b acc rest
      proof -
        have "ahead (skip b 1) = tail @ rest" "room (skip b 1) 0"
          using that by (simp_all add: room_def)
        note rd [OF this(2,1), of "acc OR push_bit (i * 8) (ucast ?v)"]
        moreover have "\<not> bb_size b < add64 (bb_rpos b) 1"
          using that ahead_Cons_less [of b] by (simp add: add64_small)
        ultimately show ?thesis
          using bits(2) get_u8_ahead [of b ?v "tail @ rest"] that guid_split [of i g]
          by (simp add: n and_pow2_eq_0 or.assoc)
      qed
      with tail(1,2) i bits(1) show ?thesis by (intro exI [of _ "?v # tail"]) auto
    qed
  qed
qed

definition guid_bytes :: "u64 \<Rightarrow> u8 list" where
  "guid_bytes g = (case pack_guid_loop 0 g 0 [] of (m, out) \<Rightarrow> m # out)"

lemma guid_bytes_length: "guid_bytes g \<noteq> [] \<and> length (guid_bytes g) \<le> 9"
proof -
  obtain m out where p: "pack_guid_loop 0 g 0 [] = (m, out)" by fastforce
  have "length out \<le> 8"
    using pack_guid_loop_read [OF p] bit_imp_le_length [of g] by fastforce
  then show ?thesis by (simp add: guid_bytes_def p)
qed

lemma readPackGUID_ahead:
  assumes "room b 0" and "ahead b = guid_bytes g @ rest"
  shows "readPackGUID big b = Inr (g, skip b (length (guid_bytes g)))"
proof -
  obtain m out where p: "pack_guid_loop 0 g 0 [] = (m, out)" by fastforce
  then have gb: "guid_bytes g = m # out" by (simp add: guid_bytes_def)
  have "\<forall>k \<ge> 64 - 8 * 0. \<not> bit g k" using bit_imp_le_length [of g] by fastforce
  with pack_guid_loop_read [OF p, of big]
  have rd: "\<And>b acc rest. room b 0 \<Longrightarrow> ahead b = out @ rest \<Longrightarrow>
      read_guid_loop 8 0 big m acc b = Inr (acc OR g, skip b (length out))"
    by auto
  have "get_u8 big b = Inr (m, skip b 1)"
    using assms gb by (intro get_u8_ahead) auto
  moreover have "read_guid_loop 8 0 big m 0 (skip b 1) = Inr (g, skip (skip b 1) (length out))"
    using rd [of "skip b 1" rest 0] assms gb by (simp add: room_def)
  moreover have "\<not> bb_size b < add64 (bb_rpos b) 1"
    using assms gb ahead_Cons_less [of b] by (simp add: add64_small)
  ultimately show ?thesis by (simp add: readPackGUID_def gb)
qed

section \<open>The codecs\<close>

text \<open>
  The interface of a value's encoding: \<open>put\<close> appends the bytes \<open>enc v\<close>, and \<open>get\<close> on a buffer
  that goes on with them returns \<open>v\<close> and moves past them (\<open>None\<close> would be a loop that does not
  end).
\<close>

locale wire_codec =
  fixes put :: "'v \<Rightarrow> byte_buffer \<Rightarrow> bb_error + byte_buffer"
    and get :: "byte_buffer \<Rightarrow> (bb_error + ('v \<times> byte_buffer)) option"
    and enc :: "'v \<Rightarrow> u8 list"
    and ok :: "'v \<Rightarrow> bool"
  assumes put_enc: "fresh b \<Longrightarrow> room b (length (enc v)) \<Longrightarrow> put v b = Inr (extend b (enc v))"
    and get_enc: "ok v \<Longrightarrow> room b 0 \<Longrightarrow> ahead b = enc v @ rest \<Longrightarrow>
      get b = Some (Inr (v, skip b (length (enc v))))"
begin

text \<open>A value written at the end of a buffer whose reader is there too is the next value read.\<close>

lemma put_then_get:
  assumes "fresh b" and "room b (length (enc v))" and "ok v" and "bb_rpos b = bb_size b"
  shows "\<exists>b'. put v b = Inr b' \<and> get b' = Some (Inr (v, skip b' (length (enc v))))"
proof -
  have "ahead (extend b (enc v)) = enc v @ []"
    using assms(4) by (simp add: ahead_def bb_size_def)
  moreover have "room (extend b (enc v)) 0" using assms(2) by (simp add: room_def)
  ultimately show ?thesis
    using put_enc [OF assms(1,2)] get_enc [OF assms(3)] by simp
qed

end

lemma append_val_fresh:
  assumes "fresh b" and "room b n" and "0 < n"
  shows "bb_append_val big n v b = Inr (extend b (le_bytes n v))"
proof -
  have "le_bytes n v \<noteq> []" using assms(3) by (simp add: le_bytes_def)
  with assms append_fresh [of b "le_bytes n v"] show ?thesis
    by (simp add: bb_append_val_def wire_bytes)
qed

interpretation wire_u8: wire_codec "put_u8 big" "\<lambda>b. Some (get_u8 big' b)" "le_bytes 1" "\<lambda>_. True" for big big'
  by unfold_locales (simp_all add: put_u8_def get_u8_def append_val_fresh read_ahead)

interpretation wire_u16: wire_codec "put_u16 big" "\<lambda>b. Some (get_u16 big' b)" "le_bytes 2" "\<lambda>_. True" for big big'
  by unfold_locales (simp_all add: put_u16_def get_u16_def append_val_fresh read_ahead)

interpretation wire_u32: wire_codec "put_u32 big" "\<lambda>b. Some (get_u32 big' b)" "le_bytes 4" "\<lambda>_. True" for big big'
  by unfold_locales (simp_all add: put_u32_def get_u32_def append_val_fresh read_ahead)

interpretation wire_u64: wire_codec "put_u64 big" "\<lambda>b. Some (get_u64 big' b)" "le_bytes 8" "\<lambda>_. True" for big big'
  by unfold_locales (simp_all add: put_u64_def get_u64_def append_val_fresh read_ahead)

lemma appendPackGUID_fresh:
  assumes "fresh b" and "room b (length (guid_bytes g))"
  shows "appendPackGUID g b = Inr (extend b (guid_bytes g))"
  using append_fresh [OF assms] guid_bytes_length [of g]
  by (simp add: appendPackGUID_def guid_bytes_def split: prod.splits)

interpretation wire_guid: wire_codec appendPackGUID "\<lambda>b. Some (readPackGUID big b)" guid_bytes "\<lambda>_. True" for big
  by unfold_locales (simp_all add: appendPackGUID_fresh readPackGUID_ahead)

lemma put_string_fresh:
  assumes "fresh b" and "room b (length s + 1)"
  shows "put_string big s b = Inr (extend b (s @ [0]))"
proof -
  have z: "le_bytes 1 (0 :: u8) = [0]" by (simp add: le_bytes_def)
  show ?thesis
  proof (cases "s = []")
    case True
    with assms z show ?thesis by (simp add: put_string_def wire_u8.put_enc)
  next
    case False
    then have "bb_append s b = Inr (extend b s)"
      using assms by (intro append_fresh) (simp_all add: room_def)
    moreover have "put_u8 big 0 (extend b s) = Inr (extend (extend b s) [0])"
      using assms z wire_u8.put_enc [of "extend b s" 0 big] by (simp add: room_def)
    ultimately show ?thesis using False by (simp add: put_string_def)
  qed
qed

lemma get_string_loop_ahead:
  assumes "room b 0" and "ahead b = s @ 0 # rest" and "0 \<notin> set s" and "length s < fuel"
  shows "get_string_loop fuel big acc b = Some (Inr (acc @ s, skip b (length s + 1)))"
  using assms
proof (induction s arbitrary: acc b fuel)
  case Nil
  then obtain f where "fuel = Suc f" by (cases fuel) auto
  with Nil ahead_Cons_less [of b] show ?case by (simp add: get_u8_ahead)
next
  case (Cons c s)
  then obtain f where f: "fuel = Suc f" "length s < f" by (cases fuel) auto
  have "get_u8 big b = Inr (c, skip b 1)"
    using Cons.prems by (intro get_u8_ahead) auto
  moreover have "get_string_loop f big (acc @ [c]) (skip b 1) = Some (Inr ((acc @ [c]) @ s, skip (skip b 1) (length s + 1)))"
    using Cons.prems f by (intro Cons.IH) (auto simp: room_def)
  moreover have "bb_rpos b < bb_size b" using Cons.prems ahead_Cons_less [of b] by simp
  ultimately show ?case using Cons.prems f by simp
qed

lemma get_string_ahead:
  assumes "room b 0" and "ahead b = s @ 0 # rest" and "0 \<notin> set s"
  shows "get_string big b = Some (Inr (s, skip b (length s + 1)))"
proof -
  have "length s < bb_size b - bb_rpos b" using assms(2) length_ahead [of b] by simp
  with get_string_loop_ahead [OF assms this] show ?thesis by (simp add: get_string_def)
qed

text \<open>The fuel of the string loop suffices, whatever the storage holds.\<close>

lemma get_string_loop_enough:
  "room b 0 \<Longrightarrow> bb_size b - bb_rpos b \<le> fuel \<Longrightarrow> get_string_loop fuel big acc b \<noteq> None"
proof (induction fuel arbitrary: acc b)
  case 0
  then show ?case by simp
next
  case (Suc fuel)
  show ?case
  proof (cases "bb_rpos b < bb_size b")
    case True
    then obtain c xs where c: "ahead b = c # xs"
      using length_ahead [of b] by (cases "ahead b") auto
    have "get_string_loop fuel big (acc @ [c]) (skip b 1) \<noteq> None"
      using Suc.prems by (intro Suc.IH) (auto simp: room_def)
    with True get_u8_ahead [OF Suc.prems(1) c] show ?thesis by simp
  qed simp
qed

lemma get_string_enough: "room b 0 \<Longrightarrow> get_string big b \<noteq> None"
  by (simp add: get_string_def get_string_loop_enough)

interpretation wire_string: wire_codec "put_string big" "get_string big'" "\<lambda>s. s @ [0]" "\<lambda>s. 0 \<notin> set s" for big big'
  by unfold_locales (simp_all add: put_string_fresh get_string_ahead)

subsection \<open>Whole packets\<close>

datatype item = I8 u8 | I16 u16 | I32 u32 | I64 u64 | IStr "u8 list" | IGuid u64

fun put_item :: "bool \<Rightarrow> item \<Rightarrow> byte_buffer \<Rightarrow> bb_error + byte_buffer" where
  "put_item big (I8 v) b = put_u8 big v b"
| "put_item big (I16 v) b = put_u16 big v b"
| "put_item big (I32 v) b = put_u32 big v b"
| "put_item big (I64 v) b = put_u64 big v b"
| "put_item big (IStr v) b = put_string big v b"
| "put_item big (IGuid v) b = appendPackGUID v b"

text \<open>The reader knows the shape of the packet: it follows items whose values do not matter.\<close>

fun get_item :: "bool \<Rightarrow> item \<Rightarrow> byte_buffer \<Rightarrow> (bb_error + (item \<times> byte_buffer)) option" where
  "get_item big (I8 _) b = Some (andthen (get_u8 big b) (\<lambda>(v, b). Inr (I8 v, b)))"
| "get_item big (I16 _) b = Some (andthen (get_u16 big b) (\<lambda>(v, b). Inr (I16 v, b)))"
| "get_item big (I32 _) b = Some (andthen (get_u32 big b) (\<lambda>(v, b). Inr (I32 v, b)))"
| "get_item big (I64 _) b = Some (andthen (get_u64 big b) (\<lambda>(v, b). Inr (I64 v, b)))"
| "get_item big (IStr _) b = map_option (\<lambda>r. andthen r (\<lambda>(v, b). Inr (IStr v, b))) (get_string big b)"
| "get_item big (IGuid _) b = Some (andthen (readPackGUID big b) (\<lambda>(v, b). Inr (IGuid v, b)))"

fun item_bytes :: "item \<Rightarrow> u8 list" where
  "item_bytes (I8 v) = le_bytes 1 v"
| "item_bytes (I16 v) = le_bytes 2 v"
| "item_bytes (I32 v) = le_bytes 4 v"
| "item_bytes (I64 v) = le_bytes 8 v"
| "item_bytes (IStr v) = v @ [0]"
| "item_bytes (IGuid v) = guid_bytes v"

fun item_ok :: "item \<Rightarrow> bool" where
  "item_ok (IStr v) \<longleftrightarrow> 0 \<notin> set v"
| "item_ok _ \<longleftrightarrow> True"

lemma put_item_fresh:
  "fresh b \<Longrightarrow> room b (length (item_bytes x)) \<Longrightarrow> put_item big x b = Inr (extend b (item_bytes x))"
  by (cases x) (simp_all add: wire_u8.put_enc wire_u16.put_enc wire_u32.put_enc wire_u64.put_enc
      wire_string.put_enc wire_guid.put_enc)

lemma get_item_ahead:
  assumes "item_ok x" and "room b 0" and "ahead b = item_bytes x @ rest"
  shows "get_item big x b = Some (Inr (x, skip b (length (item_bytes x))))"
  using assms wire_u8.get_enc wire_u16.get_enc wire_u32.get_enc wire_u64.get_enc
    wire_guid.get_enc get_string_ahead
  by (cases x) fastforce+

fun put_items :: "bool \<Rightarrow> item list \<Rightarrow> byte_buffer \<Rightarrow> bb_error + byte_buffer" where
  "put_items big [] b = Inr b"
| "put_items big (x # xs) b = andthen (put_item big x b) (put_items big xs)"

fun get_items :: "bool \<Rightarrow> item list \<Rightarrow> byte_buffer \<Rightarrow> (bb_error + (item list \<times> byte_buffer)) option" where
  "get_items big [] b = Some (Inr ([], b))"
| "get_items big (x # xs) b =
     (case get_item big x b of
        None \<Rightarrow> None
      | Some (Inl e) \<Rightarrow> Some (Inl e)
      | Some (Inr (v, b)) \<Rightarrow>
          map_option (\<lambda>r. andthen r (\<lambda>(vs, b). Inr (v # vs, b))) (get_items big xs b))"

lemma put_items_fresh:
  "fresh b \<Longrightarrow> room b (length (concat (map item_bytes xs))) \<Longrightarrow>
     put_items big xs b = Inr (extend b (concat (map item_bytes xs)))"
proof (induction xs arbitrary: b)
  case Nil
  then show ?case by simp
next
  case (Cons x xs)
  then show ?case by (simp add: put_item_fresh room_def add.assoc)
qed

lemma get_items_ahead:
  "\<forall>x \<in> set xs. item_ok x \<Longrightarrow> room b 0 \<Longrightarrow> ahead b = concat (map item_bytes xs) @ rest \<Longrightarrow>
     get_items big xs b = Some (Inr (xs, skip b (length (concat (map item_bytes xs)))))"
proof (induction xs arbitrary: b)
  case Nil
  then show ?case by simp
next
  case (Cons x xs)
  let ?b = "skip b (length (item_bytes x))"
  have "get_item big x b = Some (Inr (x, ?b))"
    using Cons.prems by (intro get_item_ahead [where rest = "concat (map item_bytes xs) @ rest"]) auto
  moreover have "get_items big xs ?b = Some (Inr (xs, skip ?b (length (concat (map item_bytes xs)))))"
    using Cons.prems by (intro Cons.IH) (auto simp: room_def)
  ultimately show ?case by simp
qed

text \<open>C9: A packet survives the wire: any sequence of integers, strings without a zero byte and
  packed GUIDs, together below the asserted size, is written without an exception and read
  back unchanged and completely, also when writer and reader differ in byte order.\<close>

theorem packet_roundtrip:
  assumes "\<forall>x \<in> set xs. item_ok x" and "length (concat (map item_bytes xs)) < 10000000"
  shows "\<exists>b. put_items big xs bb_init = Inr b \<and>
    (\<exists>b'. get_items big' xs b = Some (Inr (xs, b')) \<and> bb_rpos b' = bb_size b')"
proof -
  let ?bs = "concat (map item_bytes xs)"
  have init: "fresh bb_init" "room bb_init (length ?bs)" "bb_rpos bb_init = 0" "bb_storage bb_init = []"
    using assms(2) by (simp_all add: fresh_def room_def bb_init_def bb_size_def)
  have "put_items big xs bb_init = Inr (extend bb_init ?bs)"
    using init by (simp add: put_items_fresh)
  moreover have "get_items big' xs (extend bb_init ?bs) =
      Some (Inr (xs, skip (extend bb_init ?bs) (length ?bs)))"
    using assms init by (intro get_items_ahead [where rest = "[]"]) (simp_all add: ahead_def room_def)
  ultimately show ?thesis
    using init by (simp add: bb_size_def)
qed

theorem packet_roundtrip_witness:
  "\<exists>b. put_items False [I8 7, IStr [104, 105], IGuid 0x0500000000000300] bb_init = Inr b"
proof -
  have "\<forall>x \<in> set [I8 7, IStr [104, 105], IGuid 0x0500000000000300]. item_ok x" by simp
  moreover have "length (concat (map item_bytes [I8 7, IStr [104, 105], IGuid 0x0500000000000300])) < 10000000"
    using guid_bytes_length [of "0x0500000000000300"] by simp
  ultimately show ?thesis using packet_roundtrip [of _ False True] by blast
qed

section \<open>Bounds\<close>

text \<open>
  With the cursor and the length inside the address range, a read either throws or stays
  inside the storage. The sum in the check wraps at 2^64, so a huge skip passes it and moves
  the cursor back.
\<close>

lemma read_in_bounds:
  assumes "bb_rpos b + n < 2 ^ 64"
  shows "bb_read_bytes n b \<noteq> Inl OutOfBounds"
    and "bb_read_bytes n b = Inr (bs, b') \<Longrightarrow>
      bs = take n (ahead b) \<and> length bs = n \<and> bb_rpos b' = bb_rpos b + n \<and> bb_rpos b' \<le> bb_size b"
  using assms
  by (auto simp: bb_read_bytes_def read_at_def add64_def bb_size_def ahead_def split: if_splits)

lemma read_skip_wraps:
  assumes "bb_rpos b \<le> bb_size b" and "k \<le> bb_rpos b" and "0 < k" and "k < 2 ^ 64" and "bb_size b < 2 ^ 64"
  shows "bb_read_skip (2 ^ 64 - k) b = Inr (b\<lparr>bb_rpos := bb_rpos b - k\<rparr>)"
proof -
  have "bb_rpos b + (2 ^ 64 - k) = 2 ^ 64 + (bb_rpos b - k)" using assms(2,4) by simp
  then have "add64 (bb_rpos b) (2 ^ 64 - k) = bb_rpos b - k"
    using assms by (simp only: add64_def mod_add_self1) simp
  with assms show ?thesis by (simp add: bb_read_skip_def)
qed



section \<open>Packed times round-trip\<close>







section \<open>Named packets\<close>

text \<open>
  \<open>WorldPacket\<close>: an opcode, by name, and the fields that are streamed into the buffer. The bytes
  are those of \<open>put_items\<close>.
\<close>

datatype packet = Packet string "item list"

definition str_item :: "string \<Rightarrow> item" where
  "str_item s = IStr (map of_char s)"

end
