(* ===== verification/Channel.thy ===== *)
theory Channel
  imports StdMap ByteBuffer
begin

text \<open>
  \<^verbatim>\<open>src/src/server/game/Channel.{h,cpp}\<close> and \<^verbatim>\<open>ChannelMgr.h\<close>: chat channels with their members, owner,
  moderators, mutes and bans. \<open>channel\<close> is the object; what it sends and the calls it makes on
  players are appended to \<open>ch_out\<close>. \<open>chan_world\<close> is what it reads of the rest of the server: the
  players online, the character cache, the ignore lists, the configuration and the clock.
  Packets are lists of the items of \<open>ByteBuffer\<close>, so their bytes are those of \<open>put_items\<close>.
\<close>

section \<open>What a channel sees of the server\<close>

record online =
  on_guid :: u64
  on_name :: string
  on_security :: nat
  on_guild :: u32
  on_team :: u32
  on_group :: bool
  on_lfg_empty :: bool
  on_level :: nat

text \<open>
  \<open>cw_find\<close> is \<open>ObjectAccessor::FindPlayer\<close> (in the world), \<open>cw_connected\<close> is
  \<open>FindConnectedPlayer\<close>, \<open>cw_by_name\<close> is \<open>FindConnectedPlayerByName\<close>; \<open>cw_ignores who p\<close> says that
  \<open>who\<close> ignores \<open>p\<close>.
\<close>

record chan_world =
  cw_find :: "u64 \<Rightarrow> online option"
  cw_connected :: "u64 \<Rightarrow> online option"
  cw_by_name :: "string \<Rightarrow> online option"
  cw_ignores :: "u64 \<Rightarrow> u64 \<Rightarrow> bool"
  cw_account :: "u64 \<Rightarrow> u64"
  cw_char_name :: "u64 \<Rightarrow> string option"
  cw_time :: u64
  cw_restricted_lfg :: bool
  cw_silent_gm :: bool
  cw_two_side :: bool
  cw_world_minlevel :: nat
  cw_has_mgr :: "u32 \<Rightarrow> bool"

definition SEC_PLAYER :: nat where "SEC_PLAYER = 0"
definition SEC_GAMEMASTER1 :: nat where "SEC_GAMEMASTER1 = 1"
definition SEC_GAMEMASTER2 :: nat where "SEC_GAMEMASTER2 = 2"

section \<open>Notices\<close>

datatype notice =
    NJoined u64 | NLeft u64 | NYouJoined u8 u32 | NYouLeft u32 | NWrongPassword | NNotMember
  | NNotModerator | NPasswordChanged u64 | NOwnerChanged u64 | NPlayerNotFound string | NNotOwner
  | NChannelOwner string | NModeChange u64 u8 u8 | NAnnouncementsOn u64 | NAnnouncementsOff u64
  | NModerationOn u64 | NModerationOff u64 | NMuted | NPlayerKicked u64 u64 | NBanned
  | NPlayerBanned u64 u64 | NPlayerUnbanned u64 u64 | NPlayerNotBanned u64
  | NPlayerAlreadyMember u64 | NInvite u64 | NInviteWrongFaction | NWrongFaction | NInvalidName
  | NNotModerated | NPlayerInvited string | NPlayerInviteBanned u64 | NThrottled | NNotInArea
  | NNotInLfg | NVoiceOn u64 | NVoiceOff u64

fun notify_type :: "notice \<Rightarrow> u8" where
  "notify_type (NJoined _) = 0x00"
| "notify_type (NLeft _) = 0x01"
| "notify_type (NYouJoined _ _) = 0x02"
| "notify_type (NYouLeft _) = 0x03"
| "notify_type NWrongPassword = 0x04"
| "notify_type NNotMember = 0x05"
| "notify_type NNotModerator = 0x06"
| "notify_type (NPasswordChanged _) = 0x07"
| "notify_type (NOwnerChanged _) = 0x08"
| "notify_type (NPlayerNotFound _) = 0x09"
| "notify_type NNotOwner = 0x0A"
| "notify_type (NChannelOwner _) = 0x0B"
| "notify_type (NModeChange _ _ _) = 0x0C"
| "notify_type (NAnnouncementsOn _) = 0x0D"
| "notify_type (NAnnouncementsOff _) = 0x0E"
| "notify_type (NModerationOn _) = 0x0F"
| "notify_type (NModerationOff _) = 0x10"
| "notify_type NMuted = 0x11"
| "notify_type (NPlayerKicked _ _) = 0x12"
| "notify_type NBanned = 0x13"
| "notify_type (NPlayerBanned _ _) = 0x14"
| "notify_type (NPlayerUnbanned _ _) = 0x15"
| "notify_type (NPlayerNotBanned _) = 0x16"
| "notify_type (NPlayerAlreadyMember _) = 0x17"
| "notify_type (NInvite _) = 0x18"
| "notify_type NInviteWrongFaction = 0x19"
| "notify_type NWrongFaction = 0x1A"
| "notify_type NInvalidName = 0x1B"
| "notify_type NNotModerated = 0x1C"
| "notify_type (NPlayerInvited _) = 0x1D"
| "notify_type (NPlayerInviteBanned _) = 0x1E"
| "notify_type NThrottled = 0x1F"
| "notify_type NNotInArea = 0x20"
| "notify_type NNotInLfg = 0x21"
| "notify_type (NVoiceOn _) = 0x22"
| "notify_type (NVoiceOff _) = 0x23"

text \<open>The bodies that the \<open>Make...\<close> functions write, in two groups.\<close>

fun notify_body_late :: "notice \<Rightarrow> item list" where
  "notify_body_late (NPlayerBanned bad good) = [I64 bad, I64 good]"
| "notify_body_late (NPlayerUnbanned bad good) = [I64 bad, I64 good]"
| "notify_body_late (NPlayerNotBanned g) = [I64 g]"
| "notify_body_late (NPlayerAlreadyMember g) = [I64 g]"
| "notify_body_late (NInvite g) = [I64 g]"
| "notify_body_late (NPlayerInvited name) = [str_item name]"
| "notify_body_late (NPlayerInviteBanned g) = [I64 g]"
| "notify_body_late (NVoiceOn g) = [I64 g]"
| "notify_body_late (NVoiceOff g) = [I64 g]"
| "notify_body_late _ = []"

fun notify_body :: "notice \<Rightarrow> item list" where
  "notify_body (NJoined g) = [I64 g]"
| "notify_body (NLeft g) = [I64 g]"
| "notify_body (NYouJoined flags i) = [I8 flags, I32 i, I32 0]"
| "notify_body (NYouLeft i) = [I32 i, I8 0]"
| "notify_body (NPasswordChanged g) = [I64 g]"
| "notify_body (NOwnerChanged g) = [I64 g]"
| "notify_body (NPlayerNotFound name) = [str_item name]"
| "notify_body (NChannelOwner name) = [str_item name]"
| "notify_body (NModeChange g old new) = [I64 g, I8 old, I8 new]"
| "notify_body (NAnnouncementsOn g) = [I64 g]"
| "notify_body (NAnnouncementsOff g) = [I64 g]"
| "notify_body (NModerationOn g) = [I64 g]"
| "notify_body (NModerationOff g) = [I64 g]"
| "notify_body (NPlayerKicked bad good) = [I64 bad, I64 good]"
| "notify_body n = notify_body_late n"

definition MakeNotifyPacket :: "string \<Rightarrow> notice \<Rightarrow> packet" where
  "MakeNotifyPacket name n =
     Packet ''SMSG_CHANNEL_NOTIFY'' (I8 (notify_type n) # str_item name # notify_body n)"

section \<open>The channel\<close>

record chan_player =
  cp_player :: u64
  cp_flags :: u8
  cp_invisible :: bool

definition empty_player :: chan_player where
  "empty_player = \<lparr>cp_player = 0, cp_flags = 0, cp_invisible = False\<rparr>"

definition IsOwner :: "chan_player \<Rightarrow> bool" where
  "IsOwner p \<longleftrightarrow> cp_flags p AND 0x01 \<noteq> 0"

definition IsModerator :: "chan_player \<Rightarrow> bool" where
  "IsModerator p \<longleftrightarrow> cp_flags p AND 0x02 \<noteq> 0"

definition IsMuted :: "chan_player \<Rightarrow> bool" where
  "IsMuted p \<longleftrightarrow> cp_flags p AND 0x08 \<noteq> 0"

definition PSetOwner :: "bool \<Rightarrow> chan_player \<Rightarrow> chan_player" where
  "PSetOwner state p = p\<lparr>cp_flags := (if state then cp_flags p OR 0x01 else cp_flags p AND NOT 0x01)\<rparr>"

definition PSetModerator :: "bool \<Rightarrow> chan_player \<Rightarrow> chan_player" where
  "PSetModerator state p = p\<lparr>cp_flags := (if state then cp_flags p OR 0x02 else cp_flags p AND NOT 0x02)\<rparr>"

definition PSetMuted :: "bool \<Rightarrow> chan_player \<Rightarrow> chan_player" where
  "PSetMuted state p = p\<lparr>cp_flags := (if state then cp_flags p OR 0x08 else cp_flags p AND NOT 0x08)\<rparr>"

datatype chan_event =
    SendTo u64 packet
  | PlayerJoined u64
  | PlayerLeft u64
  | SysMessageLevel u64 nat
  | GmWorldChat string u64 string

record channel =
  ch_players :: "(u64, chan_player) omap"
  ch_banned :: "u64 set"
  ch_gmbanned :: "u64 \<rightharpoonup> u64"
  ch_announce :: bool
  ch_moderate :: bool
  ch_name :: string
  ch_password :: string
  ch_flags :: u8
  ch_channelId :: u32
  ch_owner :: u64
  ch_out :: "chan_event list"

text \<open>
  The constructor: \<open>ch\<close> is the entry of the channel in the client's database (its id and
  flags), \<open>gmrows\<close> the rows of \<open>channel_ban\<close>.
\<close>

definition Channel_init :: "(u32 \<Rightarrow> (u32 \<times> u32) option) \<Rightarrow> (u32 \<times> u32) list \<Rightarrow> string \<Rightarrow> u32 \<Rightarrow> channel" where
  "Channel_init entry gmrows name channel_id =
     (let c = \<lparr>ch_players = [], ch_banned = {}, ch_gmbanned = Map.empty, ch_announce = True,
               ch_moderate = False, ch_name = name, ch_password = '''', ch_flags = 0,
               ch_channelId = channel_id, ch_owner = 0, ch_out = []\<rparr>
      in case entry channel_id of
           Some (eid, eflags) \<Rightarrow>
             c\<lparr>ch_channelId := eid, ch_announce := False,
               ch_flags := 0x10 OR (if eflags AND 0x08 \<noteq> 0 then 0x04 else 0)
                  OR (if eflags AND 0x20 \<noteq> 0 then 0x20 else 0)
                  OR (if eflags AND 0x40000 \<noteq> 0 then 0x40 else 0x08)\<rparr>
         | None \<Rightarrow>
             c\<lparr>ch_flags := 0x01,
               ch_gmbanned := foldl (\<lambda>m (acc, expire). m(ucast acc \<mapsto> ucast expire)) Map.empty gmrows,
               ch_announce := \<not> (name = ''2v2'' \<or> name = ''3v3'' \<or> name = ''5v5'' \<or> name = ''pvp'')\<rparr>)"

definition IsOn :: "u64 \<Rightarrow> channel \<Rightarrow> bool" where
  "IsOn who c \<longleftrightarrow> om_has who (ch_players c)"

definition IsBanned :: "u64 \<Rightarrow> channel \<Rightarrow> bool" where
  "IsBanned who c \<longleftrightarrow> who \<in> ch_banned c"

definition IsConstant :: "channel \<Rightarrow> bool" where
  "IsConstant c \<longleftrightarrow> ch_channelId c \<noteq> 0"

definition Channel_HasFlag :: "u8 \<Rightarrow> channel \<Rightarrow> bool" where
  "Channel_HasFlag flag c \<longleftrightarrow> ch_flags c AND flag \<noteq> 0"

definition GetPlayerFlags :: "u64 \<Rightarrow> channel \<Rightarrow> u8" where
  "GetPlayerFlags p c = (case om_find p (ch_players c) of None \<Rightarrow> 0 | Some i \<Rightarrow> cp_flags i)"

definition GetNumPlayers :: "channel \<Rightarrow> u32" where
  "GetNumPlayers c = of_nat (length (filter (\<lambda>e. \<not> cp_invisible (snd e)) (ch_players c)))"

definition IsBannedByGM :: "chan_world \<Rightarrow> u64 \<Rightarrow> channel \<Rightarrow> bool" where
  "IsBannedByGM w guid c =
     (let accountId = cw_account w guid
      in if accountId = 0 then False
         else case ch_gmbanned c accountId of None \<Rightarrow> False | Some expire \<Rightarrow> expire > cw_time w)"

definition AddNewGMBan :: "u64 \<Rightarrow> u64 \<Rightarrow> channel \<Rightarrow> channel" where
  "AddNewGMBan accountid expire c = c\<lparr>ch_gmbanned := (ch_gmbanned c)(accountid \<mapsto> expire)\<rparr>"

definition RemoveGMBan :: "chan_world \<Rightarrow> u64 \<Rightarrow> channel \<Rightarrow> channel" where
  "RemoveGMBan w accountid c = c\<lparr>ch_gmbanned := (ch_gmbanned c)(accountid \<mapsto> cw_time w)\<rparr>"

text \<open>\<open>players[p]\<close> read: it creates the entry.\<close>

definition player_at :: "u64 \<Rightarrow> channel \<Rightarrow> chan_player" where
  "player_at p c = om_at empty_player p (ch_players c)"

definition touch_player :: "u64 \<Rightarrow> channel \<Rightarrow> channel" where
  "touch_player p c = c\<lparr>ch_players := om_touch empty_player p (ch_players c)\<rparr>"

definition change_player :: "(chan_player \<Rightarrow> chan_player) \<Rightarrow> u64 \<Rightarrow> channel \<Rightarrow> channel" where
  "change_player f p c = c\<lparr>ch_players := om_set p (f (player_at p c)) (ch_players c)\<rparr>"

subsection \<open>Sending\<close>

definition SendToOne :: "chan_world \<Rightarrow> packet \<Rightarrow> u64 \<Rightarrow> channel \<Rightarrow> channel" where
  "SendToOne w data who c =
     (if cw_find w who \<noteq> None then c\<lparr>ch_out := ch_out c @ [SendTo who data]\<rparr> else c)"

definition SendToAll :: "chan_world \<Rightarrow> packet \<Rightarrow> u64 \<Rightarrow> channel \<Rightarrow> channel" where
  "SendToAll w data p c =
     c\<lparr>ch_out := ch_out c @
        map (\<lambda>k. SendTo k data)
          (filter (\<lambda>k. cw_find w k \<noteq> None \<and> (p = 0 \<or> \<not> cw_ignores w k p)) (om_keys (ch_players c)))\<rparr>"

definition SendToAllButOne :: "chan_world \<Rightarrow> packet \<Rightarrow> u64 \<Rightarrow> channel \<Rightarrow> channel" where
  "SendToAllButOne w data who c =
     c\<lparr>ch_out := ch_out c @
        map (\<lambda>k. SendTo k data)
          (filter (\<lambda>k. k \<noteq> who \<and> cw_find w k \<noteq> None) (om_keys (ch_players c)))\<rparr>"

definition NotifyOne :: "chan_world \<Rightarrow> notice \<Rightarrow> u64 \<Rightarrow> channel \<Rightarrow> channel" where
  "NotifyOne w n who c = SendToOne w (MakeNotifyPacket (ch_name c) n) who c"

definition NotifyAll :: "chan_world \<Rightarrow> notice \<Rightarrow> channel \<Rightarrow> channel" where
  "NotifyAll w n c = SendToAll w (MakeNotifyPacket (ch_name c) n) 0 c"

definition emit :: "chan_event \<Rightarrow> channel \<Rightarrow> channel" where
  "emit e c = c\<lparr>ch_out := ch_out c @ [e]\<rparr>"

definition JoinNotify :: "chan_world \<Rightarrow> u64 \<Rightarrow> channel \<Rightarrow> channel" where
  "JoinNotify w guid c =
     SendToAll w (Packet (if IsConstant c then ''SMSG_USERLIST_ADD'' else ''SMSG_USERLIST_UPDATE'')
       [I64 guid, I8 (GetPlayerFlags guid c), I8 (ch_flags c), I32 (GetNumPlayers c), str_item (ch_name c)]) 0 c"

definition LeaveNotify :: "chan_world \<Rightarrow> u64 \<Rightarrow> channel \<Rightarrow> channel" where
  "LeaveNotify w guid c =
     SendToAll w (Packet ''SMSG_USERLIST_REMOVE''
       [I64 guid, I8 (ch_flags c), I32 (GetNumPlayers c), str_item (ch_name c)]) 0 c"

subsection \<open>Owner, moderators, mutes\<close>

definition SetOwner :: "chan_world \<Rightarrow> u64 \<Rightarrow> bool \<Rightarrow> channel \<Rightarrow> channel" where
  "SetOwner w guid exclaim c =
     (let c = (if ch_owner c \<noteq> 0 \<and> om_has (ch_owner c) (ch_players c)
               then change_player (PSetOwner False) (ch_owner c) c else c);
          c = c\<lparr>ch_owner := guid\<rparr>
      in if guid \<noteq> 0
         then let oldFlag = GetPlayerFlags guid c;
                  c = change_player (PSetOwner True) guid c;
                  c = NotifyAll w (NModeChange guid oldFlag (GetPlayerFlags guid c)) c
              in if exclaim then NotifyAll w (NOwnerChanged guid) c else c
         else c)"

definition SetModerator :: "chan_world \<Rightarrow> u64 \<Rightarrow> bool \<Rightarrow> channel \<Rightarrow> channel" where
  "SetModerator w p st c =
     (let c = touch_player p c
      in if IsModerator (player_at p c) \<noteq> st
         then let oldFlag = GetPlayerFlags p c;
                  c = change_player (PSetModerator st) p c
              in NotifyAll w (NModeChange p oldFlag (GetPlayerFlags p c)) c
         else c)"

definition SetMute :: "chan_world \<Rightarrow> u64 \<Rightarrow> bool \<Rightarrow> channel \<Rightarrow> channel" where
  "SetMute w p st c =
     (if ch_name c = ''world'' then c
      else let c = touch_player p c
           in if IsMuted (player_at p c) \<noteq> st
              then let oldFlag = GetPlayerFlags p c;
                       c = change_player (PSetMuted st) p c
                   in NotifyAll w (NModeChange p oldFlag (GetPlayerFlags p c)) c
              else c)"

subsection \<open>Joining and leaving\<close>

definition announces :: "channel \<Rightarrow> bool" where
  "announces c \<longleftrightarrow> ch_announce c \<and> ch_name c \<noteq> ''world'' \<and> ch_name c \<noteq> ''pvp''"

text \<open>\<open>Join\<close> in two parts: what it does once nothing refuses the player, and its checks.\<close>

definition join_admit :: "chan_world \<Rightarrow> u64 \<Rightarrow> channel \<Rightarrow> channel" where
  "join_admit w p c =
     (let plr = cw_find w p;
          c = (if plr \<noteq> None then emit (PlayerJoined p) c else c);
          c = (if announces c \<and> (case plr of None \<Rightarrow> True | Some q \<Rightarrow>
                    on_security q < SEC_GAMEMASTER1 \<or> \<not> cw_silent_gm w)
               then NotifyAll w (NJoined p) c else c);
          pinfo = \<lparr>cp_player = p, cp_flags = 0,
                   cp_invisible = (case plr of None \<Rightarrow> False | Some q \<Rightarrow> on_security q > SEC_PLAYER)
                                  \<and> cw_silent_gm w\<rparr>;
          c = c\<lparr>ch_players := om_set p pinfo (ch_players c)\<rparr>;
          c = NotifyOne w (NYouJoined (ch_flags c) (ch_channelId c)) p c;
          c = JoinNotify w p c
      in if \<not> IsConstant c \<and> ch_owner c = 0
         then change_player (PSetModerator True) p
                (SetOwner w p (length (ch_players c) > 1) c)
         else c)"

definition Join :: "chan_world \<Rightarrow> u64 \<Rightarrow> string \<Rightarrow> channel \<Rightarrow> channel" where
  "Join w p pass c =
     (if IsOn p c then (if \<not> IsConstant c then NotifyOne w (NPlayerAlreadyMember p) p c else c)
      else if IsBanned p c then NotifyOne w NBanned p c
      else if IsBannedByGM w p c then NotifyOne w NBanned p c
      else if length (ch_password c) > 0 \<and> pass \<noteq> ch_password c then NotifyOne w NWrongPassword p c
      else if (case cw_find w p of None \<Rightarrow> False | Some q \<Rightarrow>
                 Channel_HasFlag 0x40 c \<and> cw_restricted_lfg w \<and> on_security q = SEC_PLAYER \<and>
                 (on_group q \<or> on_lfg_empty q))
      then NotifyOne w NNotInLfg p c
      else if (case cw_find w p of None \<Rightarrow> False | Some q \<Rightarrow> on_guild q \<noteq> 0 \<and> ch_flags c = 0x38)
      then c
      else join_admit w p c)"

definition Leave :: "chan_world \<Rightarrow> u64 \<Rightarrow> bool \<Rightarrow> channel \<Rightarrow> channel" where
  "Leave w p send c =
     (if \<not> IsOn p c then (if send then NotifyOne w NNotMember p c else c)
      else
        let plr = cw_find w p;
            c = (if send
                 then let c = NotifyOne w (NYouLeft (ch_channelId c)) p c
                      in if plr \<noteq> None then emit (PlayerLeft p) c else c
                 else c);
            changeowner = IsOwner (player_at p c);
            c = c\<lparr>ch_players := om_erase p (ch_players c)\<rparr>;
            c = (if announces c \<and> (case plr of None \<Rightarrow> True | Some q \<Rightarrow>
                      on_security q = SEC_PLAYER \<or> \<not> cw_silent_gm w)
                 then NotifyAll w (NLeft p) c else c);
            c = LeaveNotify w p c
        in if changeowner
           then SetOwner w (case ch_players c of [] \<Rightarrow> 0 | e # _ \<Rightarrow> cp_player (snd e)) True c
           else c)"

subsection \<open>Commands of members\<close>

definition security :: "online option \<Rightarrow> nat" where
  "security plr = (case plr of None \<Rightarrow> 0 | Some q \<Rightarrow> on_security q)"

text \<open>The end of \<open>KickOrBan\<close>: \<open>bad\<close> is on the channel and \<open>good\<close> may remove him.\<close>

definition kick_member :: "chan_world \<Rightarrow> u64 \<Rightarrow> u64 \<Rightarrow> bool \<Rightarrow> channel \<Rightarrow> channel" where
  "kick_member w good bad ban c =
     (let changeowner = ch_owner c = bad;
          newban = ban \<and> \<not> IsBanned bad c;
          c = (if newban then c\<lparr>ch_banned := insert bad (ch_banned c)\<rparr> else c);
          n = (if newban then NPlayerBanned bad good else NPlayerKicked bad good);
          c = (if ch_name c \<noteq> ''world'' then NotifyAll w n c else c);
          c = c\<lparr>ch_players := om_erase bad (ch_players c)\<rparr>;
          c = emit (PlayerLeft bad) c
      in if changeowner
         then SetOwner w (if ch_players c \<noteq> [] then good else 0) True c
         else c)"

text \<open>
  \<open>KickOrBan\<close> looks \<open>players[good]\<close> up before it compares the security, so a game master who
  is not on the channel gets an entry.
\<close>

definition KickOrBan :: "chan_world \<Rightarrow> u64 \<Rightarrow> string \<Rightarrow> bool \<Rightarrow> channel \<Rightarrow> channel" where
  "KickOrBan w good badname ban c =
     (let sec = security (cw_connected w good)
      in if ch_name c = ''world'' \<and> sec < SEC_GAMEMASTER1 then c
         else if \<not> IsOn good c \<and> sec < SEC_GAMEMASTER1 then NotifyOne w NNotMember good c
         else
           let c = touch_player good c
           in if \<not> IsModerator (player_at good c) \<and> sec < SEC_GAMEMASTER1
              then NotifyOne w NNotModerator good c
              else case cw_by_name w badname of
                     None \<Rightarrow> NotifyOne w (NPlayerNotFound badname) good c
                   | Some b \<Rightarrow>
                       let bad = on_guid b
                       in if \<not> IsOn bad c then NotifyOne w (NPlayerNotFound badname) good c
                          else if sec < SEC_GAMEMASTER1 \<and> bad = ch_owner c \<and> good \<noteq> ch_owner c
                          then NotifyOne w NNotOwner good c
                          else kick_member w good bad ban c)"

definition UnBan :: "chan_world \<Rightarrow> u64 \<Rightarrow> string \<Rightarrow> channel \<Rightarrow> channel" where
  "UnBan w good badname c =
     (if \<not> IsOn good c then NotifyOne w NNotMember good c
      else if \<not> IsModerator (player_at good c) \<and> security (cw_find w good) < SEC_GAMEMASTER2
      then NotifyOne w NNotModerator good c
      else case cw_by_name w badname of
             None \<Rightarrow> NotifyOne w (NPlayerNotFound badname) good c
           | Some b \<Rightarrow>
               if \<not> IsBanned (on_guid b) c then NotifyOne w (NPlayerNotFound badname) good c
               else NotifyAll w (NPlayerUnbanned (on_guid b) good)
                      (c\<lparr>ch_banned := ch_banned c - {on_guid b}\<rparr>))"

definition Password :: "chan_world \<Rightarrow> u64 \<Rightarrow> string \<Rightarrow> channel \<Rightarrow> channel" where
  "Password w p pass c =
     (let sec = security (cw_find w p)
      in if ch_name c = ''world'' \<and> sec < SEC_GAMEMASTER2 then c
         else if \<not> IsOn p c then NotifyOne w NNotMember p c
         else if \<not> IsModerator (player_at p c) \<and> sec < SEC_GAMEMASTER2 then NotifyOne w NNotModerator p c
         else NotifyAll w (NPasswordChanged p) (c\<lparr>ch_password := pass\<rparr>))"

text \<open>\<open>SetMode\<close> reads \<open>players[newp]\<close> before it asks whether \<open>newp\<close> is on the channel.\<close>

definition SetMode :: "chan_world \<Rightarrow> u64 \<Rightarrow> string \<Rightarrow> bool \<Rightarrow> bool \<Rightarrow> channel \<Rightarrow> channel" where
  "SetMode w p p2n md st c =
     (let plr = cw_find w p; sec = security plr
      in if \<not> IsOn p c then NotifyOne w NNotMember p c
         else if \<not> IsModerator (player_at p c) \<and> sec < SEC_GAMEMASTER2 then NotifyOne w NNotModerator p c
         else case cw_by_name w p2n of
                None \<Rightarrow> NotifyOne w (NPlayerNotFound p2n) p c
              | Some newp \<Rightarrow>
                  let n = on_guid newp; c = touch_player n c
                  in if p = ch_owner c \<and> n = ch_owner c \<and> md then c
                     else if \<not> IsOn n c then NotifyOne w (NPlayerNotFound p2n) p c
                     else if (case plr of None \<Rightarrow> False | Some q \<Rightarrow>
                                (on_security q < SEC_GAMEMASTER2 \<or> on_security newp < SEC_GAMEMASTER2) \<and>
                                on_team q \<noteq> on_team newp \<and> \<not> cw_two_side w)
                     then NotifyOne w (NPlayerNotFound p2n) p c
                     else if ch_owner c = n \<and> ch_owner c \<noteq> p then NotifyOne w NNotOwner p c
                     else if md then SetModerator w n st c else SetMute w n st c)"

definition SetOwner_named :: "chan_world \<Rightarrow> u64 \<Rightarrow> string \<Rightarrow> channel \<Rightarrow> channel" where
  "SetOwner_named w p newname c =
     (let plr = cw_find w p; sec = security plr
      in if \<not> IsOn p c then NotifyOne w NNotMember p c
         else if sec < SEC_GAMEMASTER2 \<and> p \<noteq> ch_owner c then NotifyOne w NNotOwner p c
         else case cw_by_name w newname of
                None \<Rightarrow> NotifyOne w (NPlayerNotFound newname) p c
              | Some newp \<Rightarrow>
                  if \<not> IsOn (on_guid newp) c then NotifyOne w (NPlayerNotFound newname) p c
                  else if (case plr of None \<Rightarrow> False | Some q \<Rightarrow>
                             on_team newp \<noteq> on_team q \<and> \<not> cw_two_side w)
                  then NotifyOne w (NPlayerNotFound newname) p c
                  else SetOwner w (on_guid newp) True
                         (change_player (PSetModerator True) (on_guid newp) c))"

definition SendWhoOwner :: "chan_world \<Rightarrow> u64 \<Rightarrow> channel \<Rightarrow> channel" where
  "SendWhoOwner w p c =
     (if \<not> IsOn p c then NotifyOne w NNotMember p c
      else let name = (case cw_char_name w (ch_owner c) of
                         None \<Rightarrow> ''PLAYER_NOT_FOUND''
                       | Some s \<Rightarrow> if s = '''' then ''PLAYER_NOT_FOUND'' else s)
           in NotifyOne w (NChannelOwner (if IsConstant c \<or> ch_owner c = 0 then ''Nobody'' else name)) p c)"

definition List :: "chan_world \<Rightarrow> u64 \<Rightarrow> channel \<Rightarrow> channel" where
  "List w p c =
     (if \<not> IsOn p c then NotifyOne w NNotMember p c
      else let visible = filter (\<lambda>e. \<not> cp_invisible (snd e)) (ch_players c)
           in SendToOne w (Packet ''SMSG_CHANNEL_LIST''
                ([I8 1, str_item (ch_name c), I8 (ch_flags c), I32 (of_nat (length visible))] @
                 concat (map (\<lambda>(g, i). [I64 g, I8 (cp_flags i)]) visible))) p c)"

definition Announce :: "chan_world \<Rightarrow> u64 \<Rightarrow> channel \<Rightarrow> channel" where
  "Announce w p c =
     (if \<not> IsOn p c then NotifyOne w NNotMember p c
      else if \<not> IsModerator (player_at p c) \<and> security (cw_find w p) < SEC_GAMEMASTER2
      then NotifyOne w NNotModerator p c
      else let c = c\<lparr>ch_announce := \<not> ch_announce c\<rparr>
           in NotifyAll w (if ch_announce c then NAnnouncementsOn p else NAnnouncementsOff p) c)"

definition Moderate :: "chan_world \<Rightarrow> u64 \<Rightarrow> channel \<Rightarrow> channel" where
  "Moderate w p c =
     (if \<not> IsOn p c then NotifyOne w NNotMember p c
      else if \<not> IsModerator (player_at p c) \<and> security (cw_find w p) < SEC_GAMEMASTER2
      then NotifyOne w NNotModerator p c
      else let c = c\<lparr>ch_moderate := \<not> ch_moderate c\<rparr>
           in NotifyAll w (if ch_moderate c then NModerationOn p else NModerationOff p) c)"

text \<open>
  \<open>Say\<close>: \<open>chat lang what\<close> stands for the packet \<open>ChatHandler::BuildChatPacket\<close> builds for the
  speaker. A line on \<open>world\<close> also goes to the game masters' channel of the other side.
\<close>

definition LANG_UNIVERSAL :: u32 where "LANG_UNIVERSAL = 0"
definition HORDE :: u32 where "HORDE = 67"

definition Say ::
  "chan_world \<Rightarrow> (u32 \<Rightarrow> u64 \<Rightarrow> string \<Rightarrow> string \<Rightarrow> packet) \<Rightarrow> u64 \<Rightarrow> string \<Rightarrow> u32 \<Rightarrow> channel \<Rightarrow> channel" where
  "Say w chat p what lang c =
     (let lang = (if cw_two_side w then LANG_UNIVERSAL else lang);
          plr = cw_find w p
      in if \<not> IsOn p c then NotifyOne w NNotMember p c
         else if IsMuted (player_at p c) then NotifyOne w NMuted p c
         else if ch_moderate c \<and> \<not> IsModerator (player_at p c) \<and> security plr < SEC_GAMEMASTER2
         then NotifyOne w NNotModerator p c
         else case plr of
                None \<Rightarrow> c
              | Some q \<Rightarrow>
                  if ch_name c = ''world'' \<and> on_level q < cw_world_minlevel w
                  then emit (SysMessageLevel p (cw_world_minlevel w)) c
                  else if ch_name c \<in> {''2v2'', ''3v3'', ''5v5'', ''pvp''} then c
                  else
                    let c = SendToAll w (chat lang p what (ch_name c))
                              (if \<not> IsModerator (player_at p c) then p else 0) c
                    in if ch_name c = ''world'' \<and> cw_has_mgr w (on_team q)
                       then emit (GmWorldChat (if on_team q = HORDE then ''gmworldh'' else ''gmworlda'') p what) c
                       else c)"

definition Invite :: "chan_world \<Rightarrow> u64 \<Rightarrow> string \<Rightarrow> channel \<Rightarrow> channel" where
  "Invite w p newname c =
     (if \<not> IsOn p c then NotifyOne w NNotMember p c
      else case cw_by_name w newname of
             None \<Rightarrow> NotifyOne w (NPlayerNotFound newname) p c
           | Some newp \<Rightarrow>
               (case cw_find w p of
                  None \<Rightarrow> c
                | Some plr \<Rightarrow>
                    if on_team newp \<noteq> on_team plr \<and> \<not> cw_two_side w then NotifyOne w NInviteWrongFaction p c
                    else if IsOn (on_guid newp) c then NotifyOne w (NPlayerAlreadyMember (on_guid newp)) p c
                    else NotifyOne w (NPlayerInvited (on_name newp)) p
                           (if \<not> cw_ignores w (on_guid newp) p
                            then NotifyOne w (NInvite p) (on_guid newp) c else c)))"

section \<open>Sending changes nothing but the log\<close>

named_theorems chan_frame "the fields an operation of a channel leaves alone"

lemma SendToOne_frame [chan_frame, simp]:
  "ch_players (SendToOne w d p c) = ch_players c" "ch_banned (SendToOne w d p c) = ch_banned c"
  "ch_gmbanned (SendToOne w d p c) = ch_gmbanned c" "ch_announce (SendToOne w d p c) = ch_announce c"
  "ch_moderate (SendToOne w d p c) = ch_moderate c" "ch_name (SendToOne w d p c) = ch_name c"
  "ch_password (SendToOne w d p c) = ch_password c" "ch_flags (SendToOne w d p c) = ch_flags c"
  "ch_channelId (SendToOne w d p c) = ch_channelId c" "ch_owner (SendToOne w d p c) = ch_owner c"
  by (simp_all add: SendToOne_def)

lemma SendToAll_frame [chan_frame, simp]:
  "ch_players (SendToAll w d p c) = ch_players c" "ch_banned (SendToAll w d p c) = ch_banned c"
  "ch_gmbanned (SendToAll w d p c) = ch_gmbanned c" "ch_announce (SendToAll w d p c) = ch_announce c"
  "ch_moderate (SendToAll w d p c) = ch_moderate c" "ch_name (SendToAll w d p c) = ch_name c"
  "ch_password (SendToAll w d p c) = ch_password c" "ch_flags (SendToAll w d p c) = ch_flags c"
  "ch_channelId (SendToAll w d p c) = ch_channelId c" "ch_owner (SendToAll w d p c) = ch_owner c"
  by (simp_all add: SendToAll_def)

lemma NotifyOne_frame [chan_frame, simp]:
  "ch_players (NotifyOne w n p c) = ch_players c" "ch_banned (NotifyOne w n p c) = ch_banned c"
  "ch_gmbanned (NotifyOne w n p c) = ch_gmbanned c" "ch_announce (NotifyOne w n p c) = ch_announce c"
  "ch_moderate (NotifyOne w n p c) = ch_moderate c" "ch_name (NotifyOne w n p c) = ch_name c"
  "ch_password (NotifyOne w n p c) = ch_password c" "ch_flags (NotifyOne w n p c) = ch_flags c"
  "ch_channelId (NotifyOne w n p c) = ch_channelId c" "ch_owner (NotifyOne w n p c) = ch_owner c"
  by (simp_all add: NotifyOne_def chan_frame)

lemma NotifyAll_frame [chan_frame, simp]:
  "ch_players (NotifyAll w n c) = ch_players c" "ch_banned (NotifyAll w n c) = ch_banned c"
  "ch_gmbanned (NotifyAll w n c) = ch_gmbanned c" "ch_announce (NotifyAll w n c) = ch_announce c"
  "ch_moderate (NotifyAll w n c) = ch_moderate c" "ch_name (NotifyAll w n c) = ch_name c"
  "ch_password (NotifyAll w n c) = ch_password c" "ch_flags (NotifyAll w n c) = ch_flags c"
  "ch_channelId (NotifyAll w n c) = ch_channelId c" "ch_owner (NotifyAll w n c) = ch_owner c"
  by (simp_all add: NotifyAll_def chan_frame)

lemma emit_frame [chan_frame, simp]:
  "ch_players (emit e c) = ch_players c" "ch_banned (emit e c) = ch_banned c"
  "ch_gmbanned (emit e c) = ch_gmbanned c" "ch_announce (emit e c) = ch_announce c"
  "ch_moderate (emit e c) = ch_moderate c" "ch_name (emit e c) = ch_name c"
  "ch_password (emit e c) = ch_password c" "ch_flags (emit e c) = ch_flags c"
  "ch_channelId (emit e c) = ch_channelId c" "ch_owner (emit e c) = ch_owner c"
  by (simp_all add: emit_def)

lemma JoinNotify_frame [chan_frame, simp]:
  "ch_players (JoinNotify w g c) = ch_players c" "ch_banned (JoinNotify w g c) = ch_banned c"
  "ch_gmbanned (JoinNotify w g c) = ch_gmbanned c" "ch_announce (JoinNotify w g c) = ch_announce c"
  "ch_moderate (JoinNotify w g c) = ch_moderate c" "ch_name (JoinNotify w g c) = ch_name c"
  "ch_password (JoinNotify w g c) = ch_password c" "ch_flags (JoinNotify w g c) = ch_flags c"
  "ch_channelId (JoinNotify w g c) = ch_channelId c" "ch_owner (JoinNotify w g c) = ch_owner c"
  by (simp_all add: JoinNotify_def chan_frame)

lemma LeaveNotify_frame [chan_frame, simp]:
  "ch_players (LeaveNotify w g c) = ch_players c" "ch_banned (LeaveNotify w g c) = ch_banned c"
  "ch_gmbanned (LeaveNotify w g c) = ch_gmbanned c" "ch_announce (LeaveNotify w g c) = ch_announce c"
  "ch_moderate (LeaveNotify w g c) = ch_moderate c" "ch_name (LeaveNotify w g c) = ch_name c"
  "ch_password (LeaveNotify w g c) = ch_password c" "ch_flags (LeaveNotify w g c) = ch_flags c"
  "ch_channelId (LeaveNotify w g c) = ch_channelId c" "ch_owner (LeaveNotify w g c) = ch_owner c"
  by (simp_all add: LeaveNotify_def chan_frame)

lemma change_player_simps [simp]:
  "ch_players (change_player f p c) = om_set p (f (om_at empty_player p (ch_players c))) (ch_players c)"
  "ch_owner (change_player f p c) = ch_owner c" "ch_banned (change_player f p c) = ch_banned c"
  "ch_name (change_player f p c) = ch_name c" "ch_channelId (change_player f p c) = ch_channelId c"
  by (simp_all add: change_player_def player_at_def)

lemma touch_player_simps [simp]:
  "ch_players (touch_player p c) = om_touch empty_player p (ch_players c)"
  "ch_owner (touch_player p c) = ch_owner c" "ch_banned (touch_player p c) = ch_banned c"
  "ch_name (touch_player p c) = ch_name c" "ch_channelId (touch_player p c) = ch_channelId c"
  by (simp_all add: touch_player_def)

section \<open>One owner, and he is a member\<close>

definition members_ok :: "(u64, chan_player) omap \<Rightarrow> u64 \<Rightarrow> bool" where
  "members_ok pl ow \<longleftrightarrow> om_ok pl
     \<and> (ow \<noteq> 0 \<longrightarrow> (\<exists>i. om_find ow pl = Some i \<and> IsOwner i))
     \<and> (\<forall>g i. om_find g pl = Some i \<longrightarrow> g \<noteq> ow \<or> ow = 0 \<longrightarrow> \<not> IsOwner i)"

abbreviation chan_inv :: "channel \<Rightarrow> bool" where
  "chan_inv c \<equiv> members_ok (ch_players c) (ch_owner c)"

text \<open>What is left of it when the owner's entry has just been erased.\<close>

definition owner_gone_ok :: "(u64, chan_player) omap \<Rightarrow> u64 \<Rightarrow> bool" where
  "owner_gone_ok pl ow \<longleftrightarrow> om_ok pl \<and> (\<forall>g i. om_find g pl = Some i \<longrightarrow> g \<noteq> ow \<or> ow = 0 \<longrightarrow> \<not> IsOwner i)"

lemma members_ok_weaken: "members_ok pl ow \<Longrightarrow> owner_gone_ok pl ow"
  by (auto simp: members_ok_def owner_gone_ok_def)

lemma owner_gone_erase: "members_ok pl ow \<Longrightarrow> owner_gone_ok (om_erase p pl) ow"
  by (auto simp: members_ok_def owner_gone_ok_def om_simps)

lemma members_erase_other: "members_ok pl ow \<Longrightarrow> p \<noteq> ow \<Longrightarrow> members_ok (om_erase p pl) ow"
  by (auto simp: members_ok_def om_simps)

lemma flag_simps [simp]:
  "IsOwner (PSetOwner b i) \<longleftrightarrow> b" "IsOwner (PSetModerator b i) \<longleftrightarrow> IsOwner i"
  "IsOwner (PSetMuted b i) \<longleftrightarrow> IsOwner i" "IsModerator (PSetModerator b i) \<longleftrightarrow> b"
  "IsModerator (PSetOwner b i) \<longleftrightarrow> IsModerator i" "IsModerator (PSetMuted b i) \<longleftrightarrow> IsModerator i"
  "IsMuted (PSetMuted b i) \<longleftrightarrow> b" "IsMuted (PSetOwner b i) \<longleftrightarrow> IsMuted i"
  "IsMuted (PSetModerator b i) \<longleftrightarrow> IsMuted i"
proof -
  have one: "(w :: u8) AND 0x01 \<noteq> 0 \<longleftrightarrow> bit w 0" "w AND 0x02 \<noteq> 0 \<longleftrightarrow> bit w 1" "w AND 0x08 \<noteq> 0 \<longleftrightarrow> bit w 3" for w
    using and_pow2_eq_0 [of w 0] and_pow2_eq_0 [of w 1] and_pow2_eq_0 [of w 3] by simp_all
  have b: "bit (0x01 :: u8) k \<longleftrightarrow> k = 0" "bit (0x02 :: u8) k \<longleftrightarrow> k = 1" "bit (0x08 :: u8) k \<longleftrightarrow> k = 3" for k
    using bit_pow2 [of 0 k, where 'a = 8] bit_pow2 [of 1 k, where 'a = 8] bit_pow2 [of 3 k, where 'a = 8] by auto
  note d = IsOwner_def IsModerator_def IsMuted_def PSetOwner_def PSetModerator_def PSetMuted_def
  show "IsOwner (PSetOwner b i) \<longleftrightarrow> b" "IsOwner (PSetModerator b i) \<longleftrightarrow> IsOwner i"
    "IsOwner (PSetMuted b i) \<longleftrightarrow> IsOwner i" "IsModerator (PSetModerator b i) \<longleftrightarrow> b"
    "IsModerator (PSetOwner b i) \<longleftrightarrow> IsModerator i" "IsModerator (PSetMuted b i) \<longleftrightarrow> IsModerator i"
    "IsMuted (PSetMuted b i) \<longleftrightarrow> b" "IsMuted (PSetOwner b i) \<longleftrightarrow> IsMuted i"
    "IsMuted (PSetModerator b i) \<longleftrightarrow> IsMuted i"
    unfolding d one by (cases b; simp add: bit_or_iff bit_and_iff bit_not_iff b)+
qed

lemma empty_player_flags [simp]: "\<not> IsOwner empty_player" "\<not> IsModerator empty_player"
  by (simp_all add: empty_player_def IsOwner_def IsModerator_def)

lemma om_at_found: "om_find k m = Some v \<Longrightarrow> om_at d k m = v"
  by (simp add: om_at_def)

lemma SetOwner_owner [simp]: "ch_owner (SetOwner w guid ex c) = guid"
  by (simp add: SetOwner_def Let_def)

lemma SetOwner_players:
  "ch_players (SetOwner w guid ex c) =
     (let pl = ch_players c;
          pl = (if ch_owner c \<noteq> 0 \<and> om_has (ch_owner c) pl
                then om_set (ch_owner c) (PSetOwner False (om_at empty_player (ch_owner c) pl)) pl else pl)
      in if guid \<noteq> 0 then om_set guid (PSetOwner True (om_at empty_player guid pl)) pl else pl)"
  by (simp add: SetOwner_def Let_def)

lemma clear_owner:
  assumes "owner_gone_ok pl ow"
  defines "pl' \<equiv> (if ow \<noteq> 0 \<and> om_has ow pl then om_set ow (PSetOwner False (om_at empty_player ow pl)) pl else pl)"
  shows "om_ok pl'" and "\<And>g i. om_find g pl' = Some i \<Longrightarrow> \<not> IsOwner i"
proof -
  have ok: "om_ok pl" and only: "\<And>g i. om_find g pl = Some i \<Longrightarrow> g \<noteq> ow \<or> ow = 0 \<Longrightarrow> \<not> IsOwner i"
    using assms(1) unfolding owner_gone_ok_def by blast+
  show "om_ok pl'" using ok by (simp add: pl'_def)
  show "\<not> IsOwner i" if f: "om_find g pl' = Some i" for g i
  proof (cases "ow \<noteq> 0 \<and> om_has ow pl")
    case True
    then have "om_find g pl' = (if g = ow then Some (PSetOwner False (om_at empty_player ow pl)) else om_find g pl)"
      by (simp add: pl'_def om_simps)
    then show ?thesis using f only [of g i] by (cases "g = ow") auto
  next
    case False
    then have g: "om_find g pl = Some i" using f unfolding pl'_def by (simp split: if_splits)
    then have "g \<noteq> ow \<or> ow = 0" using False by (auto simp: om_has_def)
    with g show ?thesis by (rule only)
  qed
qed

lemma make_owner:
  assumes "om_ok pl" and only: "\<And>g i. om_find g pl = Some i \<Longrightarrow> \<not> IsOwner i"
  shows "members_ok (if guid \<noteq> 0 then om_set guid (PSetOwner True (om_at empty_player guid pl)) pl else pl) guid"
proof (cases "guid = 0")
  case True
  then show ?thesis using assms(1) only unfolding members_ok_def by simp
next
  case False
  then show ?thesis using assms(1) only unfolding members_ok_def by (simp add: om_simps)
qed

lemma SetOwner_inv: "owner_gone_ok (ch_players c) (ch_owner c) \<Longrightarrow> chan_inv (SetOwner w guid ex c)"
  unfolding SetOwner_players SetOwner_owner Let_def
  by (rule make_owner [OF clear_owner])

lemma SetOwner_member:
  "om_has g (ch_players (SetOwner w guid ex c)) \<longleftrightarrow> om_has g (ch_players c) \<or> (g = guid \<and> guid \<noteq> 0)"
  by (auto simp: SetOwner_players Let_def om_simps)

text \<open>Entries change without touching the owner's flag.\<close>

lemma members_set_same:
  assumes inv: "members_ok pl ow" and same: "IsOwner i \<longleftrightarrow> IsOwner (om_at empty_player p pl)"
  shows "members_ok (om_set p i pl) ow"
proof -
  have only: "\<And>g j. om_find g pl = Some j \<Longrightarrow> g \<noteq> ow \<or> ow = 0 \<Longrightarrow> \<not> IsOwner j"
    and own: "ow \<noteq> 0 \<Longrightarrow> \<exists>j. om_find ow pl = Some j \<and> IsOwner j" and ok: "om_ok pl"
    using inv unfolding members_ok_def by blast+
  have found: "IsOwner i \<Longrightarrow> \<exists>j. om_find p pl = Some j \<and> IsOwner j"
    using same by (cases "om_find p pl") (simp_all add: om_at_def)
  show ?thesis unfolding members_ok_def
  proof (intro conjI allI impI)
    show "om_ok (om_set p i pl)" using ok by simp
    show "\<exists>j. om_find ow (om_set p i pl) = Some j \<and> IsOwner j" if "ow \<noteq> 0"
      using own [OF that] same by (cases "ow = p") (auto simp: om_simps om_at_def)
    show "\<not> IsOwner j" if "om_find g (om_set p i pl) = Some j" and n: "g \<noteq> ow \<or> ow = 0" for g j
    proof (cases "g = p")
      case True
      then show ?thesis using that found only n by (simp add: om_simps) blast
    next
      case False
      then show ?thesis using that only [of g j] by (simp add: om_simps)
    qed
  qed
qed

lemma members_touch: "members_ok pl ow \<Longrightarrow> members_ok (om_touch empty_player p pl) ow"
  unfolding om_touch_def
  by (auto simp: om_has_def om_at_def intro!: members_set_same)

lemma change_player_inv:
  "chan_inv c \<Longrightarrow> (\<And>i. IsOwner (f i) \<longleftrightarrow> IsOwner i) \<Longrightarrow> chan_inv (change_player f p c)"
  by (simp add: members_set_same)

lemma SetModerator_inv: "chan_inv c \<Longrightarrow> chan_inv (SetModerator w p st c)"
  by (simp add: SetModerator_def Let_def members_touch members_set_same)

lemma SetMute_inv: "chan_inv c \<Longrightarrow> chan_inv (SetMute w p st c)"
  by (simp add: SetMute_def Let_def members_touch members_set_same)

text \<open>
  \<open>Join\<close> is refused, or adds the entry and, on a custom channel without an owner, makes the
  newcomer its owner.
\<close>

definition join_refused :: "chan_world \<Rightarrow> u64 \<Rightarrow> string \<Rightarrow> channel \<Rightarrow> bool" where
  "join_refused w p pass c \<longleftrightarrow>
     IsBanned p c \<or> IsBannedByGM w p c \<or> (ch_password c \<noteq> [] \<and> pass \<noteq> ch_password c)
     \<or> (case cw_find w p of None \<Rightarrow> False | Some q \<Rightarrow>
          Channel_HasFlag 0x40 c \<and> cw_restricted_lfg w \<and> on_security q = SEC_PLAYER \<and> (on_group q \<or> on_lfg_empty q)
          \<or> on_guild q \<noteq> 0 \<and> ch_flags c = 0x38)"

lemma Join_refused_frame:
  assumes "IsOn p c \<or> join_refused w p pass c"
  shows "ch_players (Join w p pass c) = ch_players c \<and> ch_owner (Join w p pass c) = ch_owner c"
  using assms by (auto simp: Join_def join_refused_def split: option.splits)

lemma Join_admitted:
  "\<not> IsOn p c \<Longrightarrow> \<not> join_refused w p pass c \<Longrightarrow> Join w p pass c = join_admit w p c"
  by (auto simp: Join_def join_refused_def split: option.splits)

lemma join_admit_members:
  "IsOn g (join_admit w p c) \<longleftrightarrow> g = p \<or> IsOn g c"
  by (auto simp: join_admit_def Let_def IsOn_def SetOwner_member om_simps)

lemma members_add:
  assumes "members_ok pl ow" and "\<not> om_has p pl" and "\<not> IsOwner i"
  shows "members_ok (om_set p i pl) ow"
  using assms by (intro members_set_same) (auto simp: om_has_def om_at_def)

lemma join_admit_inv:
  assumes "chan_inv c" and "\<not> IsOn p c"
  shows "chan_inv (join_admit w p c)"
proof -
  have add: "members_ok (om_set p \<lparr>cp_player = p, cp_flags = 0, cp_invisible = v\<rparr> (ch_players c)) (ch_owner c)" for v
    using assms by (intro members_add) (simp_all add: IsOn_def IsOwner_def)
  then have add0: "ch_owner c = 0 \<Longrightarrow>
      members_ok (om_set p \<lparr>cp_player = p, cp_flags = 0, cp_invisible = v\<rparr> (ch_players c)) 0" for v
    by metis
  show ?thesis
    unfolding join_admit_def Let_def
    by (auto simp: add add0 simp del: change_player_simps SetOwner_owner
        intro!: change_player_inv SetOwner_inv members_ok_weaken)
qed

lemma Join_inv: "chan_inv c \<Longrightarrow> chan_inv (Join w p pass c)"
  using Join_refused_frame [of p c w pass] Join_admitted [of p c w pass] join_admit_inv [of c p w]
  by (cases "IsOn p c \<or> join_refused w p pass c") auto


text \<open>\<open>IsOwner\<close> of the entry and \<open>ch_owner\<close> agree under the invariant.\<close>

lemma owner_flag: "members_ok pl ow \<Longrightarrow> om_has p pl \<Longrightarrow> IsOwner (om_at empty_player p pl) \<longleftrightarrow> p = ow \<and> ow \<noteq> 0"
  unfolding members_ok_def om_has_def om_at_def by (cases "om_find p pl") auto

lemmas step_inv_intros = SetOwner_inv members_ok_weaken owner_gone_erase members_erase_other change_player_inv
  SetModerator_inv SetMute_inv

lemma Leave_inv:
  assumes "chan_inv c"
  shows "chan_inv (Leave w p send c)"
proof (cases "IsOn p c")
  case False
  then show ?thesis using assms by (simp add: Leave_def)
next
  case True
  then have flag: "IsOwner (om_at empty_player p (ch_players c)) \<longleftrightarrow> p = ch_owner c \<and> ch_owner c \<noteq> 0"
    using assms owner_flag by (simp add: IsOn_def)
  have gone: "owner_gone_ok (om_erase q (ch_players c)) (ch_owner c)" for q
    using assms by (rule owner_gone_erase)
  have other: "p \<noteq> ch_owner c \<or> ch_owner c = 0 \<Longrightarrow> members_ok (om_erase p (ch_players c)) (ch_owner c)"
    using assms by (cases "p = ch_owner c") (auto simp: members_erase_other members_ok_def om_simps)
  show ?thesis
    using True unfolding Leave_def Let_def
    by (auto simp: player_at_def flag other gone intro!: SetOwner_inv split del: if_split simp del: SetOwner_owner split: if_splits)
qed


lemma kick_member_inv:
  assumes "chan_inv c"
  shows "chan_inv (kick_member w good bad ban c)"
proof (cases "ch_owner c = bad")
  case True
  have "owner_gone_ok (om_erase bad (ch_players c)) (ch_owner c)"
    using assms by (rule owner_gone_erase)
  with True show ?thesis
    unfolding kick_member_def Let_def by (auto intro!: SetOwner_inv simp del: SetOwner_owner)
next
  case False
  then have "members_ok (om_erase bad (ch_players c)) (ch_owner c)"
    using members_erase_other [OF assms] by metis
  with False show ?thesis unfolding kick_member_def Let_def by simp
qed

lemma KickOrBan_inv: "chan_inv c \<Longrightarrow> chan_inv (KickOrBan w good badname ban c)"
  unfolding KickOrBan_def Let_def
  by (auto simp: members_touch intro!: kick_member_inv split: option.splits)

lemma SetMode_inv: "chan_inv c \<Longrightarrow> chan_inv (SetMode w p p2n md st c)"
  unfolding SetMode_def Let_def
  by (auto simp: members_touch intro!: SetModerator_inv SetMute_inv split del: if_split split: if_splits option.splits)

lemma SetOwner_named_inv: "chan_inv c \<Longrightarrow> chan_inv (SetOwner_named w p newname c)"
  unfolding SetOwner_named_def Let_def
  by (auto simp: members_set_same intro!: SetOwner_inv members_ok_weaken split del: if_split
      simp del: SetOwner_owner split: if_splits option.splits)

lemma quiet_inv:
  "chan_inv (UnBan w p n c) = chan_inv c" "chan_inv (Password w p s c) = chan_inv c"
  "chan_inv (SendWhoOwner w p c) = chan_inv c" "chan_inv (List w p c) = chan_inv c"
  "chan_inv (Announce w p c) = chan_inv c" "chan_inv (Moderate w p c) = chan_inv c"
  "chan_inv (Say w chat p n lang c) = chan_inv c" "chan_inv (Invite w p n c) = chan_inv c"
  by (simp_all add: UnBan_def Password_def SendWhoOwner_def List_def Announce_def Moderate_def Say_def
      Invite_def Let_def split: option.split)

section \<open>Any sequence of calls\<close>

text \<open>\<open>chan_step\<close> dispatches a client's or the server's request to the channel's operation.\<close>

datatype chan_call =
    CJoin u64 string | CLeave u64 bool | CKick u64 string | CBan u64 string | CUnBan u64 string
  | CPassword u64 string | CSetMode u64 string bool bool | CSetOwner u64 string | CWhoOwner u64
  | CList u64 | CAnnounce u64 | CModerate u64 | CSay u64 string u32 | CInvite u64 string
  | CGMBan u64 u64 | CGMUnBan u64

fun chan_step ::
  "(u32 \<Rightarrow> u64 \<Rightarrow> string \<Rightarrow> string \<Rightarrow> packet) \<Rightarrow> channel \<Rightarrow> chan_world \<times> chan_call \<Rightarrow> channel" where
  "chan_step chat c (w, CJoin p pass) = Join w p pass c"
| "chan_step chat c (w, CLeave p send) = Leave w p send c"
| "chan_step chat c (w, CKick p n) = KickOrBan w p n False c"
| "chan_step chat c (w, CBan p n) = KickOrBan w p n True c"
| "chan_step chat c (w, CUnBan p n) = UnBan w p n c"
| "chan_step chat c (w, CPassword p s) = Password w p s c"
| "chan_step chat c (w, CSetMode p n md st) = SetMode w p n md st c"
| "chan_step chat c (w, CSetOwner p n) = SetOwner_named w p n c"
| "chan_step chat c (w, CWhoOwner p) = SendWhoOwner w p c"
| "chan_step chat c (w, CList p) = List w p c"
| "chan_step chat c (w, CAnnounce p) = Announce w p c"
| "chan_step chat c (w, CModerate p) = Moderate w p c"
| "chan_step chat c (w, CSay p s lang) = Say w chat p s lang c"
| "chan_step chat c (w, CInvite p n) = Invite w p n c"
| "chan_step chat c (w, CGMBan a t) = AddNewGMBan a t c"
| "chan_step chat c (w, CGMUnBan a) = RemoveGMBan w a c"

lemma chan_step_inv: "chan_inv c \<Longrightarrow> chan_inv (chan_step chat c x)"
proof (cases x)
  case (Pair w call)
  show "chan_inv c \<Longrightarrow> ?thesis"
    unfolding Pair
    by (cases call) (simp_all add: Join_inv Leave_inv KickOrBan_inv SetMode_inv SetOwner_named_inv quiet_inv
        AddNewGMBan_def RemoveGMBan_def)
qed

interpretation chan: machine "chan_step chat" chan_inv for chat
  by unfold_locales (rule chan_step_inv)

lemma Channel_init_fields [simp]:
  "ch_players (Channel_init entry rows name i) = []" "ch_owner (Channel_init entry rows name i) = 0"
  by (simp_all add: Channel_init_def Let_def split: option.split)

lemma Channel_init_inv: "chan_inv (Channel_init entry rows name i)"
  by (simp add: members_ok_def om_simps)


text \<open>
  C12: On a channel made by the constructor, after any sequence of requests, in any order and
  whatever the rest of the server looks like at each of them: a channel that names an owner has
  an entry for him that carries the owner flag, and no other member carries that flag.
\<close>

theorem channel_one_owner:
  "chan_inv (foldl (chan_step chat) (Channel_init entry rows name i) calls)"
  by (rule chan.run_inv) (rule Channel_init_inv)

section \<open>Who gets in\<close>

text \<open>
  C13: \<open>Join\<close> admits a player exactly when nothing refuses him: no ban, no ban by a game master,
  the right password, no restriction of the looking-for-group channel and no guild-recruitment
  channel for a player in a guild. Nobody else's membership changes.
\<close>

theorem Join_admits:
  "IsOn g (Join w p pass c) \<longleftrightarrow> IsOn g c \<or> (g = p \<and> \<not> join_refused w p pass c)"
  using Join_refused_frame [of p c w pass] Join_admitted [of p c w pass] join_admit_members [of g w p c]
  by (cases "IsOn p c \<or> join_refused w p pass c") (auto simp: IsOn_def)

section \<open>A small server, for the examples\<close>

definition online_as :: "u64 \<Rightarrow> string \<Rightarrow> nat \<Rightarrow> online" where
  "online_as g name sec = \<lparr>on_guid = g, on_name = name, on_security = sec, on_guild = 0, on_team = 469,
     on_group = False, on_lfg_empty = True, on_level = 70\<rparr>"

definition example_players :: "(u64 \<times> online) list" where
  "example_players = [(1, online_as 1 ''Anna'' 0), (2, online_as 2 ''Bert'' 0), (3, online_as 3 ''Carl'' 0)]"

definition example_world :: chan_world where
  "example_world = \<lparr>cw_find = map_of example_players, cw_connected = map_of example_players,
     cw_by_name = map_of (map (\<lambda>e. (on_name (snd e), snd e)) example_players),
     cw_ignores = (\<lambda>_ _. False), cw_account = (\<lambda>g. g), cw_char_name = (\<lambda>_. None), cw_time = 1000,
     cw_restricted_lfg = False, cw_silent_gm = False, cw_two_side = False, cw_world_minlevel = 0,
     cw_has_mgr = (\<lambda>_. True)\<rparr>"

definition example_channel :: channel where
  "example_channel = \<lparr>ch_players = [(1, \<lparr>cp_player = 1, cp_flags = 3, cp_invisible = False\<rparr>),
       (2, \<lparr>cp_player = 2, cp_flags = 0, cp_invisible = False\<rparr>), (3, \<lparr>cp_player = 3, cp_flags = 0, cp_invisible = False\<rparr>)],
     ch_banned = {}, ch_gmbanned = Map.empty, ch_announce = True, ch_moderate = False, ch_name = ''trade'',
     ch_password = [], ch_flags = 1, ch_channelId = 0, ch_owner = 1, ch_out = []\<rparr>"

lemmas example_simps = example_world_def example_channel_def example_players_def online_as_def
  security_def SEC_PLAYER_def SEC_GAMEMASTER1_def SEC_GAMEMASTER2_def IsOn_def om_has_def om_find_def
  player_at_def om_at_def IsOwner_def IsModerator_def

section \<open>Who may command\<close>

text \<open>What a command may change: everything but the log.\<close>

definition chan_settings :: "channel \<Rightarrow> channel" where
  "chan_settings c = c\<lparr>ch_out := []\<rparr>"

lemma NotifyOne_settings [simp]: "chan_settings (NotifyOne w n p c) = chan_settings c"
  by (simp add: chan_settings_def NotifyOne_def SendToOne_def)

fun commands :: "u64 \<Rightarrow> chan_call \<Rightarrow> bool" where
  "commands p (CKick q _) = (q = p)"
| "commands p (CBan q _) = (q = p)"
| "commands p (CUnBan q _) = (q = p)"
| "commands p (CPassword q _) = (q = p)"
| "commands p (CSetMode q _ _ _) = (q = p)"
| "commands p (CAnnounce q) = (q = p)"
| "commands p (CModerate q) = (q = p)"
| "commands p _ = False"

definition plain_member :: "chan_world \<Rightarrow> u64 \<Rightarrow> channel \<Rightarrow> bool" where
  "plain_member w p c \<longleftrightarrow> \<not> (IsOn p c \<and> IsModerator (player_at p c))
     \<and> security (cw_find w p) < SEC_GAMEMASTER1 \<and> security (cw_connected w p) < SEC_GAMEMASTER1"

lemma gm1_gm2: "n < SEC_GAMEMASTER1 \<Longrightarrow> n < SEC_GAMEMASTER2"
  by (simp add: SEC_GAMEMASTER1_def SEC_GAMEMASTER2_def)

text \<open>
  C14: A player who is not a moderator of the channel (or not on it at all) and has no game
  master's security changes nothing of it by any moderator's command: kick, ban, unban, password,
  moderator or mute flags, announcements, moderation. He only gets a refusal.
\<close>

theorem plain_member_commands_nothing:
  assumes "plain_member w p c" and "commands p call"
  shows "chan_settings (chan_step chat c (w, call)) = chan_settings c"
  using assms
  by (cases call)
     (auto simp: plain_member_def KickOrBan_def UnBan_def Password_def SetMode_def Announce_def Moderate_def
        Let_def touch_player_def om_touch_id IsOn_def player_at_def dest: gm1_gm2)

theorem plain_member_commands_nothing_witness:
  "chan_settings (chan_step (\<lambda>_ _ _ _. Packet [] []) example_channel (example_world, CBan 2 ''Anna''))
     = chan_settings example_channel"
  by (rule plain_member_commands_nothing [where p = 2]) (simp_all add: plain_member_def example_simps)


section \<open>What a kick does\<close>

text \<open>
  The kick goes through: \<open>good\<close> is a moderator of the channel, or a game master, \<open>badname\<close> is the
  connected player \<open>b\<close>, on the channel, and not the owner kicked by somebody else.
\<close>

definition kick_allowed :: "chan_world \<Rightarrow> u64 \<Rightarrow> online \<Rightarrow> channel \<Rightarrow> bool" where
  "kick_allowed w good b c \<longleftrightarrow>
     IsOn good c \<and> IsOn (on_guid b) c
     \<and> (security (cw_connected w good) \<ge> SEC_GAMEMASTER1
        \<or> ch_name c \<noteq> ''world'' \<and> IsModerator (player_at good c) \<and> (on_guid b \<noteq> ch_owner c \<or> good = ch_owner c))"

lemma kick_allowed_runs:
  assumes "kick_allowed w good b c" and "cw_by_name w badname = Some b"
  shows "KickOrBan w good badname ban c = kick_member w good (on_guid b) ban c"
proof -
  have "touch_player good c = c"
    using assms(1) by (simp add: kick_allowed_def touch_player_def om_touch_id IsOn_def)
  then show ?thesis
    using assms by (auto simp: KickOrBan_def kick_allowed_def Let_def)
qed

lemma kick_member_banned:
  "ch_banned (kick_member w good bad ban c) = (if ban then insert bad (ch_banned c) else ch_banned c)"
  by (auto simp: kick_member_def Let_def SetOwner_def IsBanned_def)

lemma kick_member_on:
  "IsOn g (kick_member w good bad ban c) \<longleftrightarrow>
     (g \<noteq> bad \<and> IsOn g c)
     \<or> (g = good \<and> good \<noteq> 0 \<and> ch_owner c = bad \<and> om_erase bad (ch_players c) \<noteq> [])"
  by (auto simp: kick_member_def Let_def IsOn_def SetOwner_member om_simps)



text \<open>
  C17: An owner who kicks or bans himself from a channel that has other members is still on it
  afterwards, and is its owner: \<open>SetOwner(good)\<close> runs after \<open>players.erase(bad)\<close> and creates the
  entry again, now with an empty player guid, and with the ban recorded against him.
\<close>

theorem owner_kicks_himself_and_stays:
  assumes "kick_allowed w good b c" and "cw_by_name w badname = Some b" and "on_guid b = good"
    and "ch_owner c = good" and "good \<noteq> 0" and "g \<noteq> good" and "IsOn g c"
  shows "IsOn good (KickOrBan w good badname ban c) \<and> ch_owner (KickOrBan w good badname ban c) = good
    \<and> cp_player (player_at good (KickOrBan w good badname ban c)) = 0
    \<and> (ban \<longrightarrow> IsBanned good (KickOrBan w good badname ban c))"
proof -
  have "om_has g (om_erase good (ch_players c))"
    using assms(6,7) by (simp add: IsOn_def om_simps)
  then have rest: "om_erase good (ch_players c) \<noteq> []"
    by (metis om_has_def om_find_Nil)
  then have "IsOn good (kick_member w good good ban c)" "ch_owner (kick_member w good good ban c) = good"
    using assms by (simp_all add: kick_member_on) (simp add: kick_member_def Let_def)
  moreover have "cp_player (player_at good (kick_member w good good ban c)) = 0"
    using rest assms(4,5)
    by (simp add: kick_member_def Let_def player_at_def SetOwner_players om_simps)
       (simp add: om_at_def om_simps PSetOwner_def empty_player_def)
  ultimately show ?thesis
    using kick_allowed_runs [OF assms(1,2), of ban] assms(3) by (auto simp: IsBanned_def kick_member_banned)
qed

theorem owner_kicks_himself_and_stays_witness:
  "IsOn 1 (KickOrBan example_world 1 ''Anna'' True example_channel)
    \<and> IsBanned 1 (KickOrBan example_world 1 ''Anna'' True example_channel)"
  using owner_kicks_himself_and_stays [of example_world 1 "online_as 1 ''Anna'' 0" example_channel "''Anna''" 2 True]
  by (simp add: kick_allowed_def example_simps)


section \<open>What leaving does\<close>




end
