(* ===== verification/ChannelHandler.thy ===== *)
theory ChannelHandler
  imports Channel "HOL-Library.List_Lexorder" "HOL-Library.Char_ord"
begin

text \<open>
  \<^verbatim>\<open>src/src/server/game/ChannelMgr.h\<close> and \<^verbatim>\<open>src/src/server/game/Handlers/ChannelHandler.cpp\<close>: the
  channels of the two factions and the packets by which a client uses them. A handler reads the
  packet's fields with the readers of \<open>ByteBuffer\<close> (\<open>Inl\<close> is the exception of a packet that is too
  short), picks the manager of the player's side and calls one operation of \<open>Channel\<close>.
\<close>

section \<open>The channels of a side\<close>

text \<open>\<open>cm_gone\<close> keeps what deleted channels have sent.\<close>

record channel_mgr =
  cm_channels :: "(string, channel) omap"
  cm_gone :: "chan_event list"

definition ChannelMgr_init :: channel_mgr where
  "ChannelMgr_init = \<lparr>cm_channels = [], cm_gone = []\<rparr>"

text \<open>What a new channel is made from: the client's database and the table \<open>channel_ban\<close>.\<close>

record chan_db =
  db_entry :: "u32 \<Rightarrow> (u32 \<times> u32) option"
  db_gmbans :: "string \<Rightarrow> (u32 \<times> u32) list"

definition GetJoinChannel :: "chan_db \<Rightarrow> string \<Rightarrow> u32 \<Rightarrow> channel_mgr \<Rightarrow> channel_mgr" where
  "GetJoinChannel db name channel_id m =
     (if \<not> om_has name (cm_channels m)
      then m\<lparr>cm_channels := om_set name (Channel_init (db_entry db) (db_gmbans db name) name channel_id)
               (cm_channels m)\<rparr>
      else m)"

definition GetChannel :: "string \<Rightarrow> channel_mgr \<Rightarrow> channel option" where
  "GetChannel name m = om_find name (cm_channels m)"

definition MakeNotOnPacket :: "string \<Rightarrow> packet" where
  "MakeNotOnPacket name = Packet ''SMSG_CHANNEL_NOTIFY'' [I8 0x05, str_item name]"

definition LeftChannel :: "string \<Rightarrow> channel_mgr \<Rightarrow> channel_mgr" where
  "LeftChannel name m =
     (case om_find name (cm_channels m) of
        None \<Rightarrow> m
      | Some c \<Rightarrow> if ch_players c = [] \<and> \<not> IsConstant c
                  then m\<lparr>cm_channels := om_erase name (cm_channels m), cm_gone := cm_gone m @ ch_out c\<rparr>
                  else m)"

definition set_channel :: "string \<Rightarrow> channel \<Rightarrow> channel_mgr \<Rightarrow> channel_mgr" where
  "set_channel name c m = m\<lparr>cm_channels := om_set name c (cm_channels m)\<rparr>"

record chan_server =
  cs_alliance :: channel_mgr
  cs_horde :: channel_mgr
  cs_replies :: "(u64 \<times> packet) list"

definition chan_server_init :: chan_server where
  "chan_server_init = \<lparr>cs_alliance = ChannelMgr_init, cs_horde = ChannelMgr_init, cs_replies = []\<rparr>"

definition ALLIANCE :: u32 where "ALLIANCE = 469"

datatype side = AllianceSide | HordeSide

text \<open>\<open>channelMgr(team)\<close>: the manager, or none for another team number.\<close>

definition channelMgr :: "chan_world \<Rightarrow> u32 \<Rightarrow> side option" where
  "channelMgr w team =
     (if cw_two_side w then Some AllianceSide
      else if team = ALLIANCE then Some AllianceSide
      else if team = HORDE then Some HordeSide
      else None)"

fun get_mgr :: "side \<Rightarrow> chan_server \<Rightarrow> channel_mgr" where
  "get_mgr AllianceSide st = cs_alliance st"
| "get_mgr HordeSide st = cs_horde st"

fun put_mgr :: "side \<Rightarrow> channel_mgr \<Rightarrow> chan_server \<Rightarrow> chan_server" where
  "put_mgr AllianceSide m st = st\<lparr>cs_alliance := m\<rparr>"
| "put_mgr HordeSide m st = st\<lparr>cs_horde := m\<rparr>"

section \<open>The handlers\<close>

record chan_session =
  ss_guid :: u64
  ss_team :: u32
  ss_gm :: bool

definition reply :: "chan_session \<Rightarrow> packet \<Rightarrow> chan_server \<Rightarrow> chan_server" where
  "reply s p st = st\<lparr>cs_replies := cs_replies st @ [(ss_guid s, p)]\<rparr>"

text \<open>
  \<open>recvPacket >> str\<close>. The loop of \<open>get_string\<close> has enough fuel, so the \<open>None\<close> case is never
  taken (\<open>get_str_total\<close>).
\<close>

definition get_str :: "bool \<Rightarrow> byte_buffer \<Rightarrow> bb_error + (string \<times> byte_buffer)" where
  "get_str big b =
     (case get_string big b of
        None \<Rightarrow> Inl ByteBufferException
      | Some r \<Rightarrow> andthen r (\<lambda>(s, b). Inr (map (\<lambda>c. char_of (unat c)) s, b)))"

text \<open>
  What most handlers do with a channel's name: nothing without a manager; a notice to the
  player when there is no such channel; otherwise the operation \<open>f\<close>.
\<close>

definition on_channel ::
  "chan_world \<Rightarrow> chan_session \<Rightarrow> string \<Rightarrow> (channel \<Rightarrow> channel) \<Rightarrow> chan_server \<Rightarrow> chan_server" where
  "on_channel w s name f st =
     (case channelMgr w (ss_team s) of
        None \<Rightarrow> st
      | Some k \<Rightarrow>
          (case GetChannel name (get_mgr k st) of
             None \<Rightarrow> reply s (MakeNotOnPacket name) st
           | Some c \<Rightarrow> put_mgr k (set_channel name (f c) (get_mgr k st)) st))"

definition iswdigit :: "char \<Rightarrow> bool" where
  "iswdigit c \<longleftrightarrow> (48 :: nat) \<le> of_char c \<and> of_char c \<le> (57 :: nat)"

text \<open>What a handler does once the packet is read.\<close>

definition join_named ::
  "chan_world \<Rightarrow> chan_db \<Rightarrow> chan_session \<Rightarrow> string \<Rightarrow> u32 \<Rightarrow> string \<Rightarrow> chan_server \<Rightarrow> chan_server" where
  "join_named w db s channelname channel_id pass st =
     (case channelMgr w (ss_team s) of
        None \<Rightarrow> st
      | Some k \<Rightarrow>
          let m = GetJoinChannel db channelname channel_id (get_mgr k st)
          in case GetChannel channelname m of
               None \<Rightarrow> put_mgr k m st
             | Some c \<Rightarrow> put_mgr k (set_channel channelname (Join w (ss_guid s) pass c) m) st)"

definition HandleJoinChannel ::
  "chan_world \<Rightarrow> chan_db \<Rightarrow> bool \<Rightarrow> chan_session \<Rightarrow> byte_buffer \<Rightarrow> chan_server \<Rightarrow> bb_error + chan_server" where
  "HandleJoinChannel w db big s b st =
     andthen (get_u32 big b) (\<lambda>(channel_id, b).
     andthen (get_u8 big b) (\<lambda>(unknown1, b).
     andthen (get_u8 big b) (\<lambda>(hasVoice, b).
     andthen (get_str big b) (\<lambda>(channelname, b).
       if channelname = [] \<or> iswdigit (hd channelname)
       then Inr (reply s (Packet ''SMSG_CHANNEL_NOTIFY'' [I8 0x1B, str_item channelname]) st)
       else if channelname = ''gmworlda'' \<and> \<not> ss_gm s then Inr st
       else if channelname = ''gmworldh'' \<and> \<not> ss_gm s then Inr st
       else andthen (get_str big b) (\<lambda>(pass, b). Inr (join_named w db s channelname channel_id pass st))))))"

definition leave_named :: "chan_world \<Rightarrow> chan_session \<Rightarrow> string \<Rightarrow> chan_server \<Rightarrow> chan_server" where
  "leave_named w s channelname st =
     (case channelMgr w (ss_team s) of
        None \<Rightarrow> st
      | Some k \<Rightarrow>
          let st = (case GetChannel channelname (get_mgr k st) of
                      None \<Rightarrow> reply s (MakeNotOnPacket channelname) st
                    | Some c \<Rightarrow> put_mgr k (set_channel channelname (Leave w (ss_guid s) True c) (get_mgr k st)) st)
          in put_mgr k (LeftChannel channelname (get_mgr k st)) st)"

definition HandleLeaveChannel ::
  "chan_world \<Rightarrow> bool \<Rightarrow> chan_session \<Rightarrow> byte_buffer \<Rightarrow> chan_server \<Rightarrow> bb_error + chan_server" where
  "HandleLeaveChannel w big s b st =
     andthen (get_u32 big b) (\<lambda>(zoneChannelID, b).
     andthen (get_str big b) (\<lambda>(channelname, b).
       if channelname = [] then Inr st else Inr (leave_named w s channelname st)))"

definition HandleChannelList ::
  "chan_world \<Rightarrow> bool \<Rightarrow> chan_session \<Rightarrow> byte_buffer \<Rightarrow> chan_server \<Rightarrow> bb_error + chan_server" where
  "HandleChannelList w big s b st =
     andthen (get_str big b) (\<lambda>(channelname, b). Inr (on_channel w s channelname (List w (ss_guid s)) st))"

definition HandleChannelPassword ::
  "chan_world \<Rightarrow> bool \<Rightarrow> chan_session \<Rightarrow> byte_buffer \<Rightarrow> chan_server \<Rightarrow> bb_error + chan_server" where
  "HandleChannelPassword w big s b st =
     andthen (get_str big b) (\<lambda>(channelname, b).
     andthen (get_str big b) (\<lambda>(pass, b).
       Inr (on_channel w s channelname (Password w (ss_guid s) pass) st)))"

text \<open>
  The handlers that name another player. \<open>nz\<close> is \<open>normalizePlayerName\<close>, which goes
  through the UTF-8 library; it is \<open>None\<close> where that returns false.
\<close>

definition named_op ::
  "(string \<Rightarrow> string option) \<Rightarrow> (u64 \<Rightarrow> string \<Rightarrow> channel \<Rightarrow> channel) \<Rightarrow> chan_world \<Rightarrow> bool \<Rightarrow> chan_session
     \<Rightarrow> byte_buffer \<Rightarrow> chan_server \<Rightarrow> bb_error + chan_server" where
  "named_op nz f w big s b st =
     andthen (get_str big b) (\<lambda>(channelname, b).
     andthen (get_str big b) (\<lambda>(otp, b).
       case nz otp of
         None \<Rightarrow> Inr st
       | Some otp \<Rightarrow> Inr (on_channel w s channelname (f (ss_guid s) otp) st)))"

definition HandleChannelSetOwner where
  "HandleChannelSetOwner nz w = named_op nz (SetOwner_named w) w"

definition HandleChannelModerator where
  "HandleChannelModerator nz w = named_op nz (\<lambda>p n. SetMode w p n True True) w"

definition HandleChannelUnmoderator where
  "HandleChannelUnmoderator nz w = named_op nz (\<lambda>p n. SetMode w p n True False) w"

definition HandleChannelMute where
  "HandleChannelMute nz w = named_op nz (\<lambda>p n. SetMode w p n False True) w"

definition HandleChannelUnmute where
  "HandleChannelUnmute nz w = named_op nz (\<lambda>p n. SetMode w p n False False) w"

definition HandleChannelInvite where
  "HandleChannelInvite nz w = named_op nz (Invite w) w"

definition HandleChannelKick where
  "HandleChannelKick nz w = named_op nz (\<lambda>p n. KickOrBan w p n False) w"

definition HandleChannelBan where
  "HandleChannelBan nz w = named_op nz (\<lambda>p n. KickOrBan w p n True) w"

definition HandleChannelUnban where
  "HandleChannelUnban nz w = named_op nz (UnBan w) w"

text \<open>The handlers that only name the channel.\<close>

definition HandleChannelOwner ::
  "chan_world \<Rightarrow> bool \<Rightarrow> chan_session \<Rightarrow> byte_buffer \<Rightarrow> chan_server \<Rightarrow> bb_error + chan_server" where
  "HandleChannelOwner w big s b st =
     andthen (get_str big b) (\<lambda>(channelname, b). Inr (on_channel w s channelname (SendWhoOwner w (ss_guid s)) st))"

definition HandleChannelAnnouncements ::
  "chan_world \<Rightarrow> bool \<Rightarrow> chan_session \<Rightarrow> byte_buffer \<Rightarrow> chan_server \<Rightarrow> bb_error + chan_server" where
  "HandleChannelAnnouncements w big s b st =
     andthen (get_str big b) (\<lambda>(channelname, b). Inr (on_channel w s channelname (Announce w (ss_guid s)) st))"

definition HandleChannelModerate ::
  "chan_world \<Rightarrow> bool \<Rightarrow> chan_session \<Rightarrow> byte_buffer \<Rightarrow> chan_server \<Rightarrow> bb_error + chan_server" where
  "HandleChannelModerate w big s b st =
     andthen (get_str big b) (\<lambda>(channelname, b). Inr (on_channel w s channelname (Moderate w (ss_guid s)) st))"

definition HandleChannelDisplayListQuery ::
  "chan_world \<Rightarrow> bool \<Rightarrow> chan_session \<Rightarrow> byte_buffer \<Rightarrow> chan_server \<Rightarrow> bb_error + chan_server" where
  "HandleChannelDisplayListQuery w big s b st =
     andthen (get_str big b) (\<lambda>(channelname, b). Inr (on_channel w s channelname (List w (ss_guid s)) st))"

definition HandleGetChannelMemberCount ::
  "chan_world \<Rightarrow> bool \<Rightarrow> chan_session \<Rightarrow> byte_buffer \<Rightarrow> chan_server \<Rightarrow> bb_error + chan_server" where
  "HandleGetChannelMemberCount w big s b st =
     andthen (get_str big b) (\<lambda>(channelname, b).
       case channelMgr w (ss_team s) of
         None \<Rightarrow> Inr st
       | Some k \<Rightarrow>
           (case GetChannel channelname (get_mgr k st) of
              None \<Rightarrow> Inr (reply s (MakeNotOnPacket channelname) st)
            | Some c \<Rightarrow> Inr (reply s (Packet ''SMSG_CHANNEL_MEMBER_COUNT''
                         [str_item (ch_name c), I8 (ch_flags c), I32 (GetNumPlayers c)]) st)))"

datatype chan_opcode =
    OpJoin | OpLeave | OpList | OpPassword | OpSetOwner | OpOwner | OpModerator | OpUnmoderator
  | OpMute | OpUnmute | OpInvite | OpKick | OpBan | OpUnban | OpAnnouncements | OpModerate
  | OpDisplayList | OpMemberCount

fun dispatch ::
  "(string \<Rightarrow> string option) \<Rightarrow> chan_world \<Rightarrow> chan_db \<Rightarrow> bool \<Rightarrow> chan_opcode \<Rightarrow> chan_session \<Rightarrow> byte_buffer
     \<Rightarrow> chan_server \<Rightarrow> bb_error + chan_server" where
  "dispatch nz w db big OpJoin = HandleJoinChannel w db big"
| "dispatch nz w db big OpLeave = HandleLeaveChannel w big"
| "dispatch nz w db big OpList = HandleChannelList w big"
| "dispatch nz w db big OpPassword = HandleChannelPassword w big"
| "dispatch nz w db big OpSetOwner = HandleChannelSetOwner nz w big"
| "dispatch nz w db big OpOwner = HandleChannelOwner w big"
| "dispatch nz w db big OpModerator = HandleChannelModerator nz w big"
| "dispatch nz w db big OpUnmoderator = HandleChannelUnmoderator nz w big"
| "dispatch nz w db big OpMute = HandleChannelMute nz w big"
| "dispatch nz w db big OpUnmute = HandleChannelUnmute nz w big"
| "dispatch nz w db big OpInvite = HandleChannelInvite nz w big"
| "dispatch nz w db big OpKick = HandleChannelKick nz w big"
| "dispatch nz w db big OpBan = HandleChannelBan nz w big"
| "dispatch nz w db big OpUnban = HandleChannelUnban nz w big"
| "dispatch nz w db big OpAnnouncements = HandleChannelAnnouncements w big"
| "dispatch nz w db big OpModerate = HandleChannelModerate w big"
| "dispatch nz w db big OpDisplayList = HandleChannelDisplayListQuery w big"
| "dispatch nz w db big OpMemberCount = HandleGetChannelMemberCount w big"


section \<open>Reading the strings\<close>





lemma get_str_total: "room b 0 \<Longrightarrow> get_str big b = (case get_string big b of Some r \<Rightarrow> andthen r (\<lambda>(s, b). Inr (map (\<lambda>c. char_of (unat c)) s, b)))"
  using get_string_enough [of b big] by (auto simp: get_str_def)

section \<open>What every packet keeps\<close>

definition mgr_ok :: "channel_mgr \<Rightarrow> bool" where
  "mgr_ok m \<longleftrightarrow> (\<forall>name c. om_find name (cm_channels m) = Some c \<longrightarrow> chan_inv c \<and> ch_name c = name)"

definition server_ok :: "chan_server \<Rightarrow> bool" where
  "server_ok st \<longleftrightarrow> mgr_ok (cs_alliance st) \<and> mgr_ok (cs_horde st)"

lemma server_ok_get: "server_ok st \<Longrightarrow> mgr_ok (get_mgr k st)"
  by (cases k) (simp_all add: server_ok_def)

lemma server_ok_put: "server_ok st \<Longrightarrow> mgr_ok m \<Longrightarrow> server_ok (put_mgr k m st)"
  by (cases k) (simp_all add: server_ok_def)

lemma server_ok_reply [simp]: "server_ok (reply s p st) = server_ok st"
  by (simp add: server_ok_def reply_def)

lemma get_put [simp]: "get_mgr k (put_mgr k m st) = m"
  by (cases k) simp_all

lemma get_reply [simp]: "get_mgr k (reply s p st) = get_mgr k st"
  by (cases k) (simp_all add: reply_def)

lemma mgr_ok_set: "mgr_ok m \<Longrightarrow> chan_inv c \<Longrightarrow> ch_name c = name \<Longrightarrow> mgr_ok (set_channel name c m)"
  by (simp add: mgr_ok_def set_channel_def om_simps)

lemma mgr_ok_find: "mgr_ok m \<Longrightarrow> GetChannel name m = Some c \<Longrightarrow> chan_inv c \<and> ch_name c = name"
  by (simp add: mgr_ok_def GetChannel_def)

lemma mgr_ok_left: "mgr_ok m \<Longrightarrow> mgr_ok (LeftChannel name m)"
  by (auto simp: mgr_ok_def LeftChannel_def om_simps split: option.split)

lemma Channel_init_name [simp]: "ch_name (Channel_init entry rows name i) = name"
  by (simp add: Channel_init_def Let_def split: option.split)

lemma mgr_ok_join: "mgr_ok m \<Longrightarrow> mgr_ok (GetJoinChannel db name i m)"
  using Channel_init_inv by (simp add: GetJoinChannel_def mgr_ok_def om_simps)

text \<open>The channel's operations keep its name.\<close>

lemma op_names [simp]:
  "ch_name (Join w p pass c) = ch_name c" "ch_name (Leave w p send c) = ch_name c"
  "ch_name (KickOrBan w p n ban c) = ch_name c" "ch_name (UnBan w p n c) = ch_name c"
  "ch_name (Password w p s c) = ch_name c" "ch_name (SetMode w p n md st c) = ch_name c"
  "ch_name (SetOwner_named w p n c) = ch_name c" "ch_name (SendWhoOwner w p c) = ch_name c"
  "ch_name (List w p c) = ch_name c" "ch_name (Announce w p c) = ch_name c"
  "ch_name (Moderate w p c) = ch_name c" "ch_name (Invite w p n c) = ch_name c"
proof -
  have own: "ch_name (SetOwner w p ex c) = ch_name c" for p ex c
    by (simp add: SetOwner_def Let_def)
  have md: "ch_name (SetModerator w p b c) = ch_name c" "ch_name (SetMute w p b c) = ch_name c" for p b c
    by (simp_all add: SetModerator_def SetMute_def Let_def)
  have kick: "ch_name (kick_member w p q ban c) = ch_name c" for p q c
    by (simp add: kick_member_def Let_def own)
  have admit: "ch_name (join_admit w p c) = ch_name c"
    by (simp add: join_admit_def Let_def own)
  show "ch_name (Join w p pass c) = ch_name c"
    by (simp add: Join_def admit)
  show "ch_name (Leave w p send c) = ch_name c"
    by (simp add: Leave_def Let_def own)
  show "ch_name (KickOrBan w p n ban c) = ch_name c"
    by (simp add: KickOrBan_def Let_def kick split: option.split)
  show "ch_name (SetMode w p n md st c) = ch_name c"
    by (simp add: SetMode_def Let_def md split: option.split)
  show "ch_name (SetOwner_named w p n c) = ch_name c"
    by (simp add: SetOwner_named_def Let_def own split: option.split)
qed (simp_all add: UnBan_def Password_def SendWhoOwner_def List_def Announce_def Moderate_def Invite_def
    Let_def split: option.split)


lemma on_channel_ok:
  assumes "server_ok st" and "\<And>c. chan_inv c \<Longrightarrow> chan_inv (f c)" and "\<And>c. ch_name (f c) = ch_name c"
  shows "server_ok (on_channel w s name f st)"
proof (cases "channelMgr w (ss_team s)")
  case None
  then show ?thesis using assms(1) by (simp add: on_channel_def)
next
  case (Some k)
  show ?thesis
  proof (cases "GetChannel name (get_mgr k st)")
    case None
    with Some assms(1) show ?thesis by (simp add: on_channel_def)
  next
    case c: (Some c)
    have "chan_inv c \<and> ch_name c = name"
      using server_ok_get [OF assms(1)] c by (rule mgr_ok_find)
    then have "mgr_ok (set_channel name (f c) (get_mgr k st))"
      using server_ok_get [OF assms(1)] assms(2,3) by (intro mgr_ok_set) auto
    with Some c assms(1) show ?thesis by (simp add: on_channel_def server_ok_put)
  qed
qed

lemma join_named_ok:
  assumes "server_ok st"
  shows "server_ok (join_named w db s name i pass st)"
proof (cases "channelMgr w (ss_team s)")
  case None
  then show ?thesis using assms by (simp add: join_named_def)
next
  case (Some k)
  let ?m = "GetJoinChannel db name i (get_mgr k st)"
  have m: "mgr_ok ?m" using server_ok_get [OF assms] by (rule mgr_ok_join)
  have "server_ok (put_mgr k (set_channel name (Join w (ss_guid s) pass c) ?m) st)"
    if "GetChannel name ?m = Some c" for c
    using mgr_ok_find [OF m that] m assms by (intro server_ok_put mgr_ok_set) (auto intro: Join_inv)
  then show ?thesis
    using Some assms m by (auto simp: join_named_def Let_def server_ok_put split: option.split)
qed

lemma leave_named_ok:
  assumes "server_ok st"
  shows "server_ok (leave_named w s name st)"
proof (cases "channelMgr w (ss_team s)")
  case None
  then show ?thesis using assms by (simp add: leave_named_def)
next
  case (Some k)
  have "server_ok (case GetChannel name (get_mgr k st) of
           None \<Rightarrow> reply s (MakeNotOnPacket name) st
         | Some c \<Rightarrow> put_mgr k (set_channel name (Leave w (ss_guid s) True c) (get_mgr k st)) st)"
    (is "server_ok ?st")
  proof (cases "GetChannel name (get_mgr k st)")
    case (Some c)
    then show ?thesis
      using mgr_ok_find [OF server_ok_get [OF assms] Some] server_ok_get [OF assms, of k] assms
      by (simp del: members_ok_def) (intro server_ok_put mgr_ok_set; auto intro: Leave_inv)
  qed (simp add: assms)
  then have "server_ok (put_mgr k (LeftChannel name (get_mgr k ?st)) ?st)"
    by (intro server_ok_put mgr_ok_left server_ok_get)
  with Some show ?thesis by (simp add: leave_named_def Let_def)
qed

lemma named_op_ok:
  assumes "named_op nz f w big s b st = Inr st'" and "server_ok st"
    and "\<And>p n c. chan_inv c \<Longrightarrow> chan_inv (f p n c)" and "\<And>p n c. ch_name (f p n c) = ch_name c"
  shows "server_ok st'"
proof -
  have "server_ok (on_channel w s name (f p n) st)" for name p n
    using assms(2,3,4) by (rule on_channel_ok)
  with assms(1,2) show ?thesis by (auto simp: named_op_def andthen_Inr_iff split: option.splits)
qed

lemma member_count_ok:
  assumes "HandleGetChannelMemberCount w big s b st = Inr st'" and "server_ok st"
  shows "server_ok st'"
proof -
  obtain name b' where "get_str big b = Inr (name, b')"
    using assms(1) by (auto simp: HandleGetChannelMemberCount_def andthen_Inr_iff)
  with assms show ?thesis
    by (auto simp: HandleGetChannelMemberCount_def split: option.splits)
qed

lemmas named_handlers = HandleChannelSetOwner_def HandleChannelModerator_def HandleChannelUnmoderator_def
  HandleChannelMute_def HandleChannelUnmute_def HandleChannelInvite_def HandleChannelKick_def
  HandleChannelBan_def HandleChannelUnban_def

lemmas plain_handlers = HandleChannelList_def HandleChannelPassword_def HandleChannelOwner_def
  HandleChannelAnnouncements_def HandleChannelModerate_def HandleChannelDisplayListQuery_def

lemma named_handler_ok:
  assumes "dispatch nz w db big op s b st = Inr st'" and "server_ok st"
    and "op \<in> {OpSetOwner, OpModerator, OpUnmoderator, OpMute, OpUnmute, OpInvite, OpKick, OpBan, OpUnban}"
  shows "server_ok st'"
  using assms
  by (cases op) (auto simp: named_handlers quiet_inv elim!: named_op_ok intro: SetOwner_named_inv SetMode_inv KickOrBan_inv)

lemma plain_handler_ok:
  assumes "dispatch nz w db big op s b st = Inr st'" and "server_ok st"
    and "op \<in> {OpList, OpPassword, OpOwner, OpAnnouncements, OpModerate, OpDisplayList}"
  shows "server_ok st'"
  using assms
  by (cases op) (auto simp: plain_handlers quiet_inv andthen_Inr_iff intro!: on_channel_ok)

lemma dispatch_ok:
  assumes "dispatch nz w db big op s b st = Inr st'" and "server_ok st"
  shows "server_ok st'"
proof (cases "op \<in> {OpJoin, OpLeave, OpMemberCount}")
  case True
  with assms show ?thesis
    by (auto simp: HandleJoinChannel_def HandleLeaveChannel_def andthen_Inr_iff join_named_ok leave_named_ok
        intro: member_count_ok split: if_splits)
next
  case False
  with assms named_handler_ok [OF assms] plain_handler_ok [OF assms] show ?thesis by (cases op) auto
qed

text \<open>
  The session's loop: a packet that is too short raises, and is dropped. \<open>chan_packet\<close> is the
  packet with what the server looks like when it arrives.
\<close>

type_synonym chan_packet = "chan_world \<times> chan_db \<times> chan_opcode \<times> chan_session \<times> byte_buffer"

fun handle_packet :: "(string \<Rightarrow> string option) \<Rightarrow> bool \<Rightarrow> chan_server \<Rightarrow> chan_packet \<Rightarrow> chan_server" where
  "handle_packet nz big st (w, db, op, s, b) =
     (case dispatch nz w db big op s b st of Inl e \<Rightarrow> st | Inr st' \<Rightarrow> st')"

interpretation server: machine "handle_packet nz big" server_ok for nz big
proof unfold_locales
  fix st c assume "server_ok st"
  then show "server_ok (handle_packet nz big st c)"
    by (cases c) (auto split: sum.split intro: dispatch_ok)
qed

lemma server_init_ok: "server_ok chan_server_init"
  by (simp add: server_ok_def mgr_ok_def chan_server_init_def ChannelMgr_init_def om_simps)


text \<open>
  C18: Whatever packets the clients send, in any order and with any contents, every channel the
  server keeps is filed under its own name and has at most one owner, who is a member.
\<close>

theorem channels_consistent:
  "server_ok (foldl (handle_packet nz big) chan_server_init packets)"
  by (rule server.run_inv) (rule server_init_ok)

section \<open>From the wire to the channel\<close>






end
