(* ===== verification/Combat.thy ===== *)
theory Combat
  imports StdMap
begin

text \<open>
  \<^verbatim>\<open>src/src/server/game/Combat/CombatManager.{h,cpp}\<close>: who fights whom. A \<open>CombatReference\<close> is a heap
  object that two units' managers both point to, each under the guid of the other; \<open>cb_heap\<close> is
  the heap, \<open>cb_map False u\<close> is \<open>_pveRefs\<close> and \<open>cb_map True u\<close> is \<open>_pvpRefs\<close> of the manager of \<open>u\<close>,
  and \<open>cb_flag u\<close> is \<open>UNIT_FLAG_IN_COMBAT\<close> of the unit. An operation is \<open>None\<close> when it would
  dereference a deleted reference, fail its \<open>ASSERT\<close> or not return. Calls on the units' AI,
  threat lists and pets are appended to \<open>cb_out\<close>; an AI that calls back into the manager is
  another operation, after the one that notified it. The maps are hash maps: their order of
  iteration is the guids' order here, and no result below depends on it.
\<close>

section \<open>State\<close>

record combat_ref =
  cr_first :: u64
  cr_second :: u64
  cr_isPvP :: bool
  cr_timer :: u32
  cr_suppressFirst :: bool
  cr_suppressSecond :: bool

datatype combat_event =
    ClearThreat u64 u64 | AtEnterCombat u64 | AtExitCombat u64 | UpdatePetCombatState u64
  | JustExitedCombat u64 | JustEnteredCombat u64 u64 | JustEngagedWith u64 u64
  | RemoveMeFromThreatLists u64 | ClearAllThreat u64

record combat_state =
  cb_heap :: "nat \<rightharpoonup> combat_ref"
  cb_map :: "bool \<Rightarrow> u64 \<Rightarrow> (u64, nat) omap"
  cb_flag :: "u64 \<Rightarrow> bool"
  cb_next :: nat
  cb_out :: "combat_event list"

definition combat_init :: combat_state where
  "combat_init = \<lparr>cb_heap = Map.empty, cb_map = (\<lambda>p u. []), cb_flag = (\<lambda>u. False), cb_next = 0, cb_out = []\<rparr>"

text \<open>What the manager reads of the units.\<close>

record combat_world =
  uw_in_world :: "u64 \<Rightarrow> bool"
  uw_alive :: "u64 \<Rightarrow> bool"
  uw_map :: "u64 \<Rightarrow> nat"
  uw_same_phase :: "u64 \<Rightarrow> u64 \<Rightarrow> bool"
  uw_evade :: "u64 \<Rightarrow> bool"
  uw_in_flight :: "u64 \<Rightarrow> bool"
  uw_friendly :: "u64 \<Rightarrow> u64 \<Rightarrow> bool"
  uw_gm_player :: "u64 \<Rightarrow> bool"
  uw_by_player :: "u64 \<Rightarrow> bool"
  uw_immune_pc :: "u64 \<Rightarrow> bool"
  uw_immune_npc :: "u64 \<Rightarrow> bool"
  uw_player_flag :: "u64 \<Rightarrow> bool"
  uw_master :: "u64 \<Rightarrow> u64 option"
  uw_ai :: "u64 \<Rightarrow> bool"
  uw_ai_enabled :: "u64 \<Rightarrow> bool"
  uw_threatless_creature :: "u64 \<Rightarrow> bool"

definition PVP_COMBAT_TIMEOUT :: u32 where "PVP_COMBAT_TIMEOUT = 5250"

definition GetOther :: "u64 \<Rightarrow> combat_ref \<Rightarrow> u64" where
  "GetOther me r = (if cr_first r = me then cr_second r else cr_first r)"

definition IsSuppressedFor :: "u64 \<Rightarrow> combat_ref \<Rightarrow> bool" where
  "IsSuppressedFor who r = (if who = cr_first r then cr_suppressFirst r else cr_suppressSecond r)"

definition Suppress :: "u64 \<Rightarrow> combat_ref \<Rightarrow> combat_ref" where
  "Suppress who r =
     (if who = cr_first r then r\<lparr>cr_suppressFirst := True\<rparr> else r\<lparr>cr_suppressSecond := True\<rparr>)"

definition ref_Update :: "u32 \<Rightarrow> combat_ref \<Rightarrow> bool \<times> combat_ref" where
  "ref_Update tdiff r =
     (if cr_timer r \<le> tdiff then (False, r) else (True, r\<lparr>cr_timer := cr_timer r - tdiff\<rparr>))"

definition CanBeginCombat :: "combat_world \<Rightarrow> u64 \<Rightarrow> u64 \<Rightarrow> bool" where
  "CanBeginCombat w a b =
     (if a = b then False
      else if \<not> uw_in_world w a \<or> \<not> uw_in_world w b then False
      else if \<not> uw_alive w a \<or> \<not> uw_alive w b then False
      else if uw_map w a \<noteq> uw_map w b then False
      else if \<not> uw_same_phase w a b then False
      else if uw_evade w a \<or> uw_evade w b then False
      else if uw_in_flight w a \<or> uw_in_flight w b then False
      else if uw_friendly w a b \<or> uw_friendly w b a then False
      else if uw_gm_player w a \<or> uw_gm_player w b then False
      else True)"

section \<open>Operations\<close>

definition emit :: "combat_event list \<Rightarrow> combat_state \<Rightarrow> combat_state" where
  "emit es st = st\<lparr>cb_out := cb_out st @ es\<rparr>"

definition set_ref :: "nat \<Rightarrow> combat_ref \<Rightarrow> combat_state \<Rightarrow> combat_state" where
  "set_ref i r st = st\<lparr>cb_heap := (cb_heap st)(i \<mapsto> r)\<rparr>"

definition set_map :: "bool \<Rightarrow> u64 \<Rightarrow> (u64, nat) omap \<Rightarrow> combat_state \<Rightarrow> combat_state" where
  "set_map p u m st = st\<lparr>cb_map := (cb_map st)(p := (cb_map st p)(u := m))\<rparr>"

text \<open>The loop of \<open>HasPvPCombat\<close> over the references of \<open>u\<close>.\<close>

fun pvp_loop :: "u64 \<Rightarrow> combat_state \<Rightarrow> (u64 \<times> nat) list \<Rightarrow> bool option" where
  "pvp_loop u st [] = Some False"
| "pvp_loop u st (e # es) =
     (case cb_heap st (snd e) of
        None \<Rightarrow> None
      | Some r \<Rightarrow> if \<not> IsSuppressedFor u r then Some True else pvp_loop u st es)"

definition HasPvPCombat :: "u64 \<Rightarrow> combat_state \<Rightarrow> bool option" where
  "HasPvPCombat u st = pvp_loop u st (cb_map st True u)"

definition HasPvECombat :: "u64 \<Rightarrow> combat_state \<Rightarrow> bool" where
  "HasPvECombat u st \<longleftrightarrow> cb_map st False u \<noteq> []"

definition HasCombat :: "u64 \<Rightarrow> combat_state \<Rightarrow> bool option" where
  "HasCombat u st = (if HasPvECombat u st then Some True else HasPvPCombat u st)"

fun any_loop :: "u64 \<Rightarrow> combat_state \<Rightarrow> (u64 \<times> nat) list \<Rightarrow> u64 option option" where
  "any_loop u st [] = Some None"
| "any_loop u st (e # es) =
     (case cb_heap st (snd e) of
        None \<Rightarrow> None
      | Some r \<Rightarrow> if \<not> IsSuppressedFor u r then Some (Some (GetOther u r)) else any_loop u st es)"

definition GetAnyTarget :: "u64 \<Rightarrow> combat_state \<Rightarrow> u64 option option" where
  "GetAnyTarget u st =
     (case cb_map st False u of
        e # _ \<Rightarrow> map_option (\<lambda>r. Some (GetOther u r)) (cb_heap st (snd e))
      | [] \<Rightarrow> any_loop u st (cb_map st True u))"

definition IsInCombatWith :: "u64 \<Rightarrow> u64 \<Rightarrow> combat_state \<Rightarrow> bool" where
  "IsInCombatWith u g st \<longleftrightarrow> om_has g (cb_map st False u) \<or> om_has g (cb_map st True u)"

definition PutReference :: "u64 \<Rightarrow> u64 \<Rightarrow> nat \<Rightarrow> combat_state \<Rightarrow> combat_state option" where
  "PutReference u guid i st =
     (case cb_heap st i of
        None \<Rightarrow> None
      | Some r \<Rightarrow> if om_has guid (cb_map st (cr_isPvP r) u) then None
                  else Some (set_map (cr_isPvP r) u (om_set guid i (cb_map st (cr_isPvP r) u)) st))"

definition PurgeReference :: "u64 \<Rightarrow> u64 \<Rightarrow> bool \<Rightarrow> combat_state \<Rightarrow> combat_state" where
  "PurgeReference u guid pvp st = set_map pvp u (om_erase guid (cb_map st pvp u)) st"

text \<open>\<open>UpdateOwnerCombatState\<close> of the manager of \<open>u\<close>; the flag says whether the state changed.\<close>

definition UpdateOwnerCombatState :: "combat_world \<Rightarrow> u64 \<Rightarrow> combat_state \<Rightarrow> (bool \<times> combat_state) option" where
  "UpdateOwnerCombatState w u st =
     (case HasCombat u st of
        None \<Rightarrow> None
      | Some combatState \<Rightarrow>
          if combatState = cb_flag st u then Some (False, st)
          else
            let st = (if combatState
                      then emit [AtEnterCombat u] (st\<lparr>cb_flag := (cb_flag st)(u := True)\<rparr>)
                      else emit [AtExitCombat u] (st\<lparr>cb_flag := (cb_flag st)(u := False)\<rparr>));
                st = (case uw_master w u of None \<Rightarrow> st | Some m \<Rightarrow> emit [UpdatePetCombatState m] st)
            in Some (True, st))"

definition NotifyAICombat :: "combat_world \<Rightarrow> u64 \<Rightarrow> u64 \<Rightarrow> combat_state \<Rightarrow> combat_state" where
  "NotifyAICombat w me other st =
     (if \<not> uw_ai_enabled w me then st
      else let st = emit [JustEnteredCombat me other] st
           in if uw_threatless_creature w me then emit [JustEngagedWith me other] st else st)"

definition exit_notice :: "combat_world \<Rightarrow> bool \<Rightarrow> u64 \<Rightarrow> combat_state \<Rightarrow> combat_state" where
  "exit_notice w need u st = (if need \<and> uw_ai w u then emit [JustExitedCombat u] st else st)"

definition EndCombat :: "combat_world \<Rightarrow> nat \<Rightarrow> combat_state \<Rightarrow> combat_state option" where
  "EndCombat w i st =
     (case cb_heap st i of
        None \<Rightarrow> None
      | Some r \<Rightarrow>
          let a = cr_first r; b = cr_second r;
              st = emit [ClearThreat a b, ClearThreat b a] st;
              st = PurgeReference a b (cr_isPvP r) st;
              st = PurgeReference b a (cr_isPvP r) st
          in case UpdateOwnerCombatState w a st of
               None \<Rightarrow> None
             | Some (needFirstAI, st) \<Rightarrow>
                 (case UpdateOwnerCombatState w b st of
                    None \<Rightarrow> None
                  | Some (needSecondAI, st) \<Rightarrow>
                      let st = exit_notice w needFirstAI a st;
                          st = exit_notice w needSecondAI b st
                      in Some (st\<lparr>cb_heap := (cb_heap st)(i := None)\<rparr>)))"

definition Refresh :: "combat_world \<Rightarrow> nat \<Rightarrow> combat_state \<Rightarrow> combat_state option" where
  "Refresh w i st =
     (case cb_heap st i of
        None \<Rightarrow> None
      | Some r \<Rightarrow>
          let a = cr_first r; b = cr_second r; r1 = r\<lparr>cr_timer := PVP_COMBAT_TIMEOUT\<rparr>;
              st = set_ref i r1 st
          in case (if cr_suppressFirst r
                   then UpdateOwnerCombatState w a (set_ref i (r1\<lparr>cr_suppressFirst := False\<rparr>) st)
                   else Some (False, st)) of
               None \<Rightarrow> None
             | Some (needFirstAI, st) \<Rightarrow>
                 (case (if cr_suppressSecond r
                        then UpdateOwnerCombatState w b
                               (set_ref i (r1\<lparr>cr_suppressFirst := False, cr_suppressSecond := False\<rparr>) st)
                        else Some (False, st)) of
                    None \<Rightarrow> None
                  | Some (needSecondAI, st) \<Rightarrow>
                      let st = (if needFirstAI then NotifyAICombat w a b st else st)
                      in Some (if needSecondAI then NotifyAICombat w b a st else st)))"

definition SuppressFor :: "combat_world \<Rightarrow> nat \<Rightarrow> u64 \<Rightarrow> combat_state \<Rightarrow> combat_state option" where
  "SuppressFor w i who st =
     (case cb_heap st i of
        None \<Rightarrow> None
      | Some r \<Rightarrow>
          (case UpdateOwnerCombatState w who (set_ref i (Suppress who r) st) of
             None \<Rightarrow> None
           | Some (need, st) \<Rightarrow> Some (exit_notice w need who st)))"

text \<open>
  \<open>Update\<close> of the manager of \<open>u\<close>: the loop erases the entry it is at before it ends the
  reference, so the entries it still has to visit are those of the map it started with.
\<close>

fun update_loop :: "combat_world \<Rightarrow> u64 \<Rightarrow> u32 \<Rightarrow> (u64 \<times> nat) list \<Rightarrow> combat_state \<Rightarrow> combat_state option" where
  "update_loop w u tdiff [] st = Some st"
| "update_loop w u tdiff (e # es) st =
     (case cb_heap st (snd e) of
        None \<Rightarrow> None
      | Some r \<Rightarrow>
          if cr_first r = u
          then (case ref_Update tdiff r of
                  (True, r) \<Rightarrow> update_loop w u tdiff es (set_ref (snd e) r st)
                | (False, r) \<Rightarrow>
                    (case EndCombat w (snd e) (PurgeReference u (fst e) True st) of
                       None \<Rightarrow> None
                     | Some st \<Rightarrow> update_loop w u tdiff es st))
          else update_loop w u tdiff es st)"

definition CombatManager_Update :: "combat_world \<Rightarrow> u64 \<Rightarrow> u32 \<Rightarrow> combat_state \<Rightarrow> combat_state option" where
  "CombatManager_Update w u tdiff st = update_loop w u tdiff (cb_map st True u) st"

definition new_combat :: "combat_world \<Rightarrow> u64 \<Rightarrow> u64 \<Rightarrow> combat_state \<Rightarrow> (bool \<times> combat_state) option" where
  "new_combat w a b st =
     (let i = cb_next st;
          r = \<lparr>cr_first = a, cr_second = b, cr_isPvP = uw_by_player w a \<and> uw_by_player w b,
               cr_timer = PVP_COMBAT_TIMEOUT, cr_suppressFirst = False, cr_suppressSecond = False\<rparr>;
          st = (set_ref i r st)\<lparr>cb_next := Suc i\<rparr>
      in case PutReference a b i st of
           None \<Rightarrow> None
         | Some st \<Rightarrow>
             (case PutReference b a i st of
                None \<Rightarrow> None
              | Some st \<Rightarrow>
                  (case UpdateOwnerCombatState w a st of
                     None \<Rightarrow> None
                   | Some (needSelfAI, st) \<Rightarrow>
                       (case UpdateOwnerCombatState w b st of
                          None \<Rightarrow> None
                        | Some (needOtherAI, st) \<Rightarrow>
                            let st = (if needSelfAI then NotifyAICombat w a b st else st);
                                st = (if needOtherAI then NotifyAICombat w b a st else st)
                            in Some (IsInCombatWith a b st, st)))))"

definition SetInCombatWith :: "combat_world \<Rightarrow> u64 \<Rightarrow> u64 \<Rightarrow> combat_state \<Rightarrow> (bool \<times> combat_state) option" where
  "SetInCombatWith w a b st =
     (case om_find b (cb_map st True a) of
        Some i \<Rightarrow> map_option (\<lambda>st. (True, st)) (Refresh w i st)
      | None \<Rightarrow>
          if om_has b (cb_map st False a) then Some (True, st)
          else if \<not> CanBeginCombat w a b then Some (False, st)
          else new_combat w a b st)"

fun inherit_loop :: "combat_world \<Rightarrow> u64 \<Rightarrow> u64 \<Rightarrow> (u64 \<times> nat) list \<Rightarrow> combat_state \<Rightarrow> combat_state option" where
  "inherit_loop w u who [] st = Some st"
| "inherit_loop w u who (e # es) st =
     (if \<not> IsInCombatWith u (fst e) st
      then (case cb_heap st (snd e) of
              None \<Rightarrow> None
            | Some r \<Rightarrow>
                let target = GetOther who r
                in if (uw_immune_pc w u \<and> uw_player_flag w target) \<or> (uw_immune_npc w u \<and> \<not> uw_player_flag w target)
                   then inherit_loop w u who es st
                   else (case SetInCombatWith w u target st of
                           None \<Rightarrow> None
                         | Some (_, st) \<Rightarrow> inherit_loop w u who es st))
      else inherit_loop w u who es st)"

definition InheritCombatStatesFrom :: "combat_world \<Rightarrow> u64 \<Rightarrow> u64 \<Rightarrow> combat_state \<Rightarrow> combat_state option" where
  "InheritCombatStatesFrom w u who st =
     (case inherit_loop w u who (cb_map st False who) st of
        None \<Rightarrow> None
      | Some st \<Rightarrow> inherit_loop w u who (cb_map st True who) st)"

text \<open>\<open>near a b\<close> is \<open>a->IsWithinDistInMap(b, range)\<close>.\<close>

fun range_loop ::
  "combat_world \<Rightarrow> (u64 \<Rightarrow> u64 \<Rightarrow> bool) \<Rightarrow> bool \<Rightarrow> u64 \<Rightarrow> (u64 \<times> nat) list \<Rightarrow> combat_state \<Rightarrow> combat_state option" where
  "range_loop w near pvp u [] st = Some st"
| "range_loop w near pvp u (e # es) st =
     (case cb_heap st (snd e) of
        None \<Rightarrow> None
      | Some r \<Rightarrow>
          if \<not> near (cr_first r) (cr_second r)
          then (case EndCombat w (snd e) (PurgeReference u (fst e) pvp st) of
                  None \<Rightarrow> None
                | Some st \<Rightarrow> range_loop w near pvp u es st)
          else range_loop w near pvp u es st)"

definition EndCombatBeyondRange ::
  "combat_world \<Rightarrow> (u64 \<Rightarrow> u64 \<Rightarrow> bool) \<Rightarrow> bool \<Rightarrow> u64 \<Rightarrow> combat_state \<Rightarrow> combat_state option" where
  "EndCombatBeyondRange w near includingPvP u st =
     (case range_loop w near False u (cb_map st False u) st of
        None \<Rightarrow> None
      | Some st \<Rightarrow> if \<not> includingPvP then Some st else range_loop w near True u (cb_map st True u) st)"

fun suppress_loop :: "u64 \<Rightarrow> (u64 \<times> nat) list \<Rightarrow> combat_state \<Rightarrow> combat_state option" where
  "suppress_loop u [] st = Some st"
| "suppress_loop u (e # es) st =
     (case cb_heap st (snd e) of
        None \<Rightarrow> None
      | Some r \<Rightarrow> suppress_loop u es (set_ref (snd e) (Suppress u r) st))"

definition SuppressPvPCombat :: "combat_world \<Rightarrow> u64 \<Rightarrow> combat_state \<Rightarrow> combat_state option" where
  "SuppressPvPCombat w u st =
     (case suppress_loop u (cb_map st True u) st of
        None \<Rightarrow> None
      | Some st \<Rightarrow>
          (case UpdateOwnerCombatState w u st of
             None \<Rightarrow> None
           | Some (need, st) \<Rightarrow> Some (exit_notice w need u st)))"

text \<open>
  \<open>while (!refs.empty()) refs.begin()->second->EndCombat()\<close>; the fuel is the number of
  references, and running out of it with references left is not returning.
\<close>

fun end_all :: "combat_world \<Rightarrow> bool \<Rightarrow> u64 \<Rightarrow> nat \<Rightarrow> combat_state \<Rightarrow> combat_state option" where
  "end_all w pvp u n st =
     (case cb_map st pvp u of
        [] \<Rightarrow> Some st
      | e # _ \<Rightarrow> (case n of
                    0 \<Rightarrow> None
                  | Suc n \<Rightarrow> (case EndCombat w (snd e) st of None \<Rightarrow> None | Some st \<Rightarrow> end_all w pvp u n st)))"

declare end_all.simps [simp del]

definition EndAllPvECombat :: "combat_world \<Rightarrow> u64 \<Rightarrow> combat_state \<Rightarrow> combat_state option" where
  "EndAllPvECombat w u st =
     (let st = emit [RemoveMeFromThreatLists u, ClearAllThreat u] st
      in end_all w False u (length (cb_map st False u)) st)"

definition EndAllPvPCombat :: "combat_world \<Rightarrow> u64 \<Rightarrow> combat_state \<Rightarrow> combat_state option" where
  "EndAllPvPCombat w u st = end_all w True u (length (cb_map st True u)) st"

definition EndAllCombat :: "combat_world \<Rightarrow> u64 \<Rightarrow> combat_state \<Rightarrow> combat_state option" where
  "EndAllCombat w u st =
     (case EndAllPvECombat w u st of None \<Rightarrow> None | Some st \<Rightarrow> EndAllPvPCombat w u st)"

text \<open>The destructor's assertions.\<close>

definition may_destroy :: "u64 \<Rightarrow> combat_state \<Rightarrow> bool" where
  "may_destroy u st \<longleftrightarrow> cb_map st False u = [] \<and> cb_map st True u = []"


section \<open>The two managers agree\<close>

definition links :: "combat_ref \<Rightarrow> bool \<Rightarrow> u64 \<Rightarrow> u64 \<Rightarrow> bool" where
  "links r p u g \<longleftrightarrow> cr_isPvP r = p \<and> u \<noteq> g \<and>
     (cr_first r = u \<and> cr_second r = g \<or> cr_first r = g \<and> cr_second r = u)"

text \<open>
  Every entry points to a live reference between the two units; every live reference is found
  from both of them; no pair of units has both kinds.
\<close>

definition refs_ok :: "(bool \<Rightarrow> u64 \<Rightarrow> (u64, nat) omap) \<Rightarrow> (nat \<rightharpoonup> combat_ref) \<Rightarrow> nat \<Rightarrow> bool" where
  "refs_ok M H n \<longleftrightarrow>
     (\<forall>p u. om_ok (M p u))
     \<and> (\<forall>p u g i. om_find g (M p u) = Some i \<longrightarrow> (\<exists>r. H i = Some r \<and> links r p u g))
     \<and> (\<forall>i r. H i = Some r \<longrightarrow> i < n
          \<and> om_find (cr_second r) (M (cr_isPvP r) (cr_first r)) = Some i
          \<and> om_find (cr_first r) (M (cr_isPvP r) (cr_second r)) = Some i)
     \<and> (\<forall>u g. \<not> (om_has g (M False u) \<and> om_has g (M True u)))"

definition in_combat :: "(bool \<Rightarrow> u64 \<Rightarrow> (u64, nat) omap) \<Rightarrow> (nat \<rightharpoonup> combat_ref) \<Rightarrow> u64 \<Rightarrow> bool" where
  "in_combat M H u \<longleftrightarrow> M False u \<noteq> []
     \<or> (\<exists>g i r. om_find g (M True u) = Some i \<and> H i = Some r \<and> \<not> IsSuppressedFor u r)"

definition flags_ok :: "combat_state \<Rightarrow> bool" where
  "flags_ok st \<longleftrightarrow> (\<forall>u. cb_flag st u \<longleftrightarrow> in_combat (cb_map st) (cb_heap st) u)"

definition combat_ok :: "combat_state \<Rightarrow> bool" where
  "combat_ok st \<longleftrightarrow> refs_ok (cb_map st) (cb_heap st) (cb_next st) \<and> flags_ok st"

lemma refs_okD:
  assumes "refs_ok M H n"
  shows "om_ok (M p u)"
    and "om_find g (M p u) = Some i \<Longrightarrow> \<exists>r. H i = Some r \<and> links r p u g"
    and "H i = Some r \<Longrightarrow> i < n"
    and "H i = Some r \<Longrightarrow> om_find (cr_second r) (M (cr_isPvP r) (cr_first r)) = Some i"
    and "H i = Some r \<Longrightarrow> om_find (cr_first r) (M (cr_isPvP r) (cr_second r)) = Some i"
    and "\<not> (om_has g (M False u) \<and> om_has g (M True u))"
  using assms unfolding refs_ok_def by blast+

lemma refs_ok_links: "refs_ok M H n \<Longrightarrow> H i = Some r \<Longrightarrow> links r (cr_isPvP r) (cr_first r) (cr_second r)"
  using refs_okD(2,4) by (metis option.inject)

lemma pvp_loop_value:
  "(\<And>e. e \<in> set es \<Longrightarrow> cb_heap st (snd e) \<noteq> None) \<Longrightarrow>
     pvp_loop u st es = Some (\<exists>e \<in> set es. \<exists>r. cb_heap st (snd e) = Some r \<and> \<not> IsSuppressedFor u r)"
proof (induction es)
  case Nil
  then show ?case by simp
next
  case (Cons e es)
  then obtain r where "cb_heap st (snd e) = Some r" by fastforce
  with Cons show ?case by auto
qed

text \<open>\<open>HasCombat\<close> of a unit whose entries are valid.\<close>

lemma HasCombat_value:
  assumes "om_ok (cb_map st True u)" and "\<And>g i. om_find g (cb_map st True u) = Some i \<Longrightarrow> cb_heap st i \<noteq> None"
  shows "HasCombat u st = Some (in_combat (cb_map st) (cb_heap st) u)"
proof -
  have mem: "(g, i) \<in> set (cb_map st True u) \<longleftrightarrow> om_find g (cb_map st True u) = Some i" for g i
    using assms(1) by (rule om_ok_find)
  have "HasPvPCombat u st = Some (\<exists>e \<in> set (cb_map st True u). \<exists>r. cb_heap st (snd e) = Some r \<and> \<not> IsSuppressedFor u r)"
    unfolding HasPvPCombat_def by (rule pvp_loop_value) (use assms(2) mem in force)
  then show ?thesis
    unfolding HasCombat_def HasPvECombat_def in_combat_def by (auto simp: Bex_def mem)
qed

lemma HasCombat_ok: "refs_ok (cb_map st) (cb_heap st) (cb_next st) \<Longrightarrow>
    HasCombat u st = Some (in_combat (cb_map st) (cb_heap st) u)"
  by (rule HasCombat_value) (auto dest: refs_okD)

lemma UpdateOwner_value:
  assumes "HasCombat u st = Some x"
  shows "\<exists>out need. UpdateOwnerCombatState w u st =
    Some (need, st\<lparr>cb_flag := (cb_flag st)(u := x), cb_out := out\<rparr>)"
proof (cases "x = cb_flag st u")
  case True
  then have "st\<lparr>cb_flag := (cb_flag st)(u := x), cb_out := cb_out st\<rparr> = st" by simp
  with True assms show ?thesis
    by (intro exI [of _ "cb_out st"] exI [of _ False]) (simp add: UpdateOwnerCombatState_def)
next
  case False
  with assms show ?thesis
    by (auto simp: UpdateOwnerCombatState_def emit_def Let_def split: option.split)
qed

lemma notice_frame:
  "exit_notice w need u st = st\<lparr>cb_out := cb_out (exit_notice w need u st)\<rparr>"
  "NotifyAICombat w a b st = st\<lparr>cb_out := cb_out (NotifyAICombat w a b st)\<rparr>"
  by (simp_all add: exit_notice_def NotifyAICombat_def emit_def Let_def)

lemma notice_simps [simp]:
  "cb_map (exit_notice w need u st) = cb_map st" "cb_heap (exit_notice w need u st) = cb_heap st"
  "cb_next (exit_notice w need u st) = cb_next st" "cb_flag (exit_notice w need u st) = cb_flag st"
  "cb_map (NotifyAICombat w a b st) = cb_map st" "cb_heap (NotifyAICombat w a b st) = cb_heap st"
  "cb_next (NotifyAICombat w a b st) = cb_next st" "cb_flag (NotifyAICombat w a b st) = cb_flag st"
  by (simp_all add: exit_notice_def NotifyAICombat_def emit_def Let_def)

subsection \<open>Ending a combat\<close>

definition unlink :: "u64 \<Rightarrow> u64 \<Rightarrow> bool \<Rightarrow> (bool \<Rightarrow> u64 \<Rightarrow> (u64, nat) omap) \<Rightarrow> bool \<Rightarrow> u64 \<Rightarrow> (u64, nat) omap" where
  "unlink a b p M q u =
     (if q = p \<and> u = a then om_erase b (M q u) else if q = p \<and> u = b then om_erase a (M q u) else M q u)"

lemma unlink_find:
  "a \<noteq> b \<Longrightarrow> om_find g (unlink a b p M q u) =
     (if q = p \<and> (u = a \<and> g = b \<or> u = b \<and> g = a) then None else om_find g (M q u))"
  by (auto simp: unlink_def om_simps)

lemma unlink_refs_ok:
  assumes ok: "refs_ok M H n" and r: "H i = Some r"
  shows "refs_ok (unlink (cr_first r) (cr_second r) (cr_isPvP r) M) (H(i := None)) n"
proof -
  let ?a = "cr_first r" and ?b = "cr_second r" and ?p = "cr_isPvP r"
  have ab: "?a \<noteq> ?b" using refs_ok_links [OF ok r] by (simp add: links_def)
  note find = unlink_find [OF ab]
  have entry: "\<exists>r'. (H(i := None)) j = Some r' \<and> links r' q u g"
    if f: "om_find g (unlink ?a ?b ?p M q u) = Some j" for q u g j
  proof -
    have "om_find g (M q u) = Some j" and n: "\<not> (q = ?p \<and> (u = ?a \<and> g = ?b \<or> u = ?b \<and> g = ?a))"
      using f by (auto simp: find split: if_splits)
    then obtain r' where r': "H j = Some r'" "links r' q u g" using refs_okD(2) [OF ok] by blast
    with r n have "j \<noteq> i" by (auto simp: links_def)
    with r' show ?thesis by simp
  qed
  have live: "j < n \<and> om_find (cr_second r') (unlink ?a ?b ?p M (cr_isPvP r') (cr_first r')) = Some j
      \<and> om_find (cr_first r') (unlink ?a ?b ?p M (cr_isPvP r') (cr_second r')) = Some j"
    if "(H(i := None)) j = Some r'" for j r'
  proof -
    have j: "j \<noteq> i" "H j = Some r'" using that by (auto split: if_splits)
    have "om_find ?b (M ?p ?a) = Some i" "om_find ?a (M ?p ?b) = Some i"
      using refs_okD(4,5) [OF ok r] by auto
    with j refs_okD(3-5) [OF ok j(2)] show ?thesis by (auto simp: find)
  qed
  have "om_ok (unlink ?a ?b ?p M q u)" for q u
    using refs_okD(1) [OF ok] by (simp add: unlink_def)
  moreover have "\<not> (om_has g (unlink ?a ?b ?p M False u) \<and> om_has g (unlink ?a ?b ?p M True u))" for g u
    using refs_okD(6) [OF ok, of g u] by (simp add: om_has_def find split: if_splits)
  ultimately show ?thesis
    using entry live unfolding refs_ok_def by blast
qed

text \<open>A unit that is not part of the reference keeps its combat state.\<close>

lemma unlink_in_combat:
  assumes ok: "refs_ok M H n" and r: "H i = Some r"
  shows "in_combat (unlink (cr_first r) (cr_second r) (cr_isPvP r) M) H u
      = in_combat (unlink (cr_first r) (cr_second r) (cr_isPvP r) M) (H(i := None)) u"
    and "u \<noteq> cr_first r \<Longrightarrow> u \<noteq> cr_second r \<Longrightarrow>
      in_combat (unlink (cr_first r) (cr_second r) (cr_isPvP r) M) (H(i := None)) u = in_combat M H u"
proof -
  let ?M = "unlink (cr_first r) (cr_second r) (cr_isPvP r) M"
  have dead: "j \<noteq> i" if "om_find g (?M q u) = Some j" for g q j
    using refs_okD(2) [OF unlink_refs_ok [OF ok r] that] by auto
  then show "in_combat ?M H u = in_combat ?M (H(i := None)) u"
    unfolding in_combat_def by (metis fun_upd_other)
  moreover assume "u \<noteq> cr_first r" "u \<noteq> cr_second r"
  then have "?M q u = M q u" for q by (simp add: unlink_def)
  ultimately show "in_combat ?M (H(i := None)) u = in_combat M H u"
    by (simp add: in_combat_def)
qed

lemma purge_map:
  "a \<noteq> b \<Longrightarrow> PurgeReference b a p (PurgeReference a b p st) = st\<lparr>cb_map := unlink a b p (cb_map st)\<rparr>"
  by (simp add: PurgeReference_def set_map_def unlink_def fun_eq_iff)

lemma purge_twice:
  assumes "links r p u g" and "cr_isPvP r = p"
  shows "unlink (cr_first r) (cr_second r) p (cb_map (PurgeReference u g p st)) = unlink (cr_first r) (cr_second r) p (cb_map st)"
proof -
  have e: "om_erase x (om_erase x m) = om_erase x m" for x and m :: "(u64, nat) omap"
    by (simp add: om_erase_def)
  show ?thesis
    using assms by (auto simp: links_def PurgeReference_def set_map_def unlink_def fun_eq_iff e)
qed

text \<open>Erasing one's own entry first, as the loops do, makes no difference.\<close>

lemma EndCombat_after_purge:
  assumes "cb_heap st i = Some r" and "links r p u g"
  shows "EndCombat w i (PurgeReference u g p st) = EndCombat w i st"
proof -
  have p: "cr_isPvP r = p" and ab: "cr_first r \<noteq> cr_second r" using assms(2) by (auto simp: links_def)
  have "(emit es (PurgeReference u g p st))\<lparr>cb_map := unlink (cr_first r) (cr_second r) p (cb_map (emit es (PurgeReference u g p st)))\<rparr>
      = (emit es st)\<lparr>cb_map := unlink (cr_first r) (cr_second r) p (cb_map (emit es st))\<rparr>" for es
    using purge_twice [OF assms(2) p, of st] by (simp add: emit_def) (simp add: PurgeReference_def set_map_def)
  moreover have "cb_heap (PurgeReference u g p st) i = Some r"
    using assms(1) by (simp add: PurgeReference_def set_map_def)
  ultimately show ?thesis
    using assms(1) unfolding EndCombat_def Let_def by (simp add: p purge_map [OF ab])
qed

lemma EndCombat_value:
  assumes ok: "combat_ok st" and r: "cb_heap st i = Some r"
  shows "\<exists>st'. EndCombat w i st = Some st' \<and> combat_ok st'
    \<and> cb_map st' = unlink (cr_first r) (cr_second r) (cr_isPvP r) (cb_map st) \<and> cb_heap st' = (cb_heap st)(i := None)"
proof -
  let ?a = "cr_first r" and ?b = "cr_second r" and ?H = "(cb_heap st)(i := None)"
  let ?M = "unlink ?a ?b (cr_isPvP r) (cb_map st)"
  have refs: "refs_ok (cb_map st) (cb_heap st) (cb_next st)" and flags: "flags_ok st"
    using ok by (auto simp: combat_ok_def)
  have ab: "?a \<noteq> ?b" using refs_ok_links [OF refs r] by (simp add: links_def)
  have wf: "refs_ok ?M ?H (cb_next st)" using refs r by (rule unlink_refs_ok)
  have val: "HasCombat u s = Some (in_combat ?M ?H u)"
    if "cb_map s = ?M" and "cb_heap s = cb_heap st" for u and s :: combat_state
  proof -
    have "cb_heap st j \<noteq> None" if "om_find g (?M True u) = Some j" for g j
      using refs_okD(2) [OF wf that] by (cases "j = i") auto
    then have "HasCombat u s = Some (in_combat (cb_map s) (cb_heap s) u)"
      using that refs_okD(1) [OF wf] by (intro HasCombat_value) auto
    then show ?thesis using that unlink_in_combat(1) [OF refs r] by simp
  qed
  define s where "s = (emit [ClearThreat ?a ?b, ClearThreat ?b ?a] st)\<lparr>cb_map := ?M\<rparr>"
  have s: "cb_map s = ?M" "cb_heap s = cb_heap st" "cb_flag s = cb_flag st" "cb_next s = cb_next st"
    by (simp_all add: s_def emit_def)
  obtain o1 n1 s1 where u1: "UpdateOwnerCombatState w ?a s = Some (n1, s1)"
    and s1: "s1 = s\<lparr>cb_flag := (cb_flag s)(?a := in_combat ?M ?H ?a), cb_out := o1\<rparr>"
    using UpdateOwner_value [OF val [OF s(1,2)]] by blast
  have "cb_map s1 = ?M" "cb_heap s1 = cb_heap st" by (simp_all add: s1 s)
  then obtain o2 n2 s2 where u2: "UpdateOwnerCombatState w ?b s1 = Some (n2, s2)"
    and s2: "s2 = s1\<lparr>cb_flag := (cb_flag s1)(?b := in_combat ?M ?H ?b), cb_out := o2\<rparr>"
    using UpdateOwner_value [OF val] by blast
  let ?t = "exit_notice w n2 ?b (exit_notice w n1 ?a s2)"
  let ?st' = "?t\<lparr>cb_heap := (cb_heap ?t)(i := None)\<rparr>"
  have run: "EndCombat w i st = Some ?st'"
    unfolding EndCombat_def Let_def using r u1 u2 by (simp add: purge_map [OF ab] s_def emit_def)
  have fields: "cb_map ?st' = ?M" "cb_heap ?st' = ?H" "cb_next ?st' = cb_next st"
    by (simp_all add: s2 s1 s)
  have "cb_flag ?st' u = in_combat ?M ?H u" for u
    using flags unlink_in_combat(2) [OF refs r, of u] by (simp add: flags_ok_def s2 s1 s)
  then have "combat_ok ?st'" using wf fields by (simp add: combat_ok_def flags_ok_def)
  with run fields show ?thesis by blast
qed

subsection \<open>Changing a reference in place\<close>

definition same_units :: "combat_ref \<Rightarrow> combat_ref \<Rightarrow> bool" where
  "same_units r r' \<longleftrightarrow> cr_first r' = cr_first r \<and> cr_second r' = cr_second r \<and> cr_isPvP r' = cr_isPvP r"

lemma retag_refs_ok:
  assumes ok: "refs_ok M H n" and r: "H i = Some r" and same: "same_units r r'"
  shows "refs_ok M (H(i \<mapsto> r')) n"
proof -
  have l: "links r' p u g = links r p u g" for p u g using same by (auto simp: links_def same_units_def)
  have entry: "\<exists>s. (H(i \<mapsto> r')) j = Some s \<and> links s p u g" if "om_find g (M p u) = Some j" for p u g j
    using refs_okD(2) [OF ok that] r l by (cases "j = i") auto
  have live: "j < n \<and> om_find (cr_second s) (M (cr_isPvP s) (cr_first s)) = Some j
      \<and> om_find (cr_first s) (M (cr_isPvP s) (cr_second s)) = Some j" if "(H(i \<mapsto> r')) j = Some s" for j s
  proof (cases "j = i")
    case True
    then have "s = r'" using that by simp
    with True refs_okD(3-5) [OF ok r] same show ?thesis by (auto simp: same_units_def)
  next
    case False
    with that refs_okD(3-5) [OF ok] show ?thesis by auto
  qed
  show ?thesis
    unfolding refs_ok_def using entry live refs_okD(1,6) [OF ok] by blast
qed

lemma retag_in_combat:
  assumes ok: "refs_ok M H n" and r: "H i = Some r"
    and same: "u \<in> {cr_first r, cr_second r} \<Longrightarrow> IsSuppressedFor u r' = IsSuppressedFor u r"
  shows "in_combat M (H(i \<mapsto> r')) u = in_combat M H u"
proof -
  have "(\<exists>s. (H(i \<mapsto> r')) j = Some s \<and> \<not> IsSuppressedFor u s) \<longleftrightarrow> (\<exists>s. H j = Some s \<and> \<not> IsSuppressedFor u s)"
    if "om_find g (M True u) = Some j" for g j
  proof (cases "j = i")
    case True
    then have "links r True u g" using refs_okD(2) [OF ok that] r by auto
    then have "u \<in> {cr_first r, cr_second r}" by (auto simp: links_def)
    with True r same show ?thesis by simp
  qed simp
  then show ?thesis unfolding in_combat_def by blast
qed

text \<open>The combat flag of every unit but \<open>x\<close> is right.\<close>

definition flags_but :: "u64 \<Rightarrow> combat_state \<Rightarrow> bool" where
  "flags_but x st \<longleftrightarrow> refs_ok (cb_map st) (cb_heap st) (cb_next st)
     \<and> (\<forall>u. u \<noteq> x \<longrightarrow> cb_flag st u = in_combat (cb_map st) (cb_heap st) u)"

lemma flags_but_weaken: "combat_ok st \<Longrightarrow> flags_but x st"
  by (simp add: flags_but_def combat_ok_def flags_ok_def)

lemma set_ref_simps [simp]:
  "cb_map (set_ref i r st) = cb_map st" "cb_heap (set_ref i r st) = (cb_heap st)(i \<mapsto> r)"
  "cb_next (set_ref i r st) = cb_next st" "cb_flag (set_ref i r st) = cb_flag st"
  by (simp_all add: set_ref_def)

lemma set_ref_flags_but:
  assumes "flags_but x st" and "cb_heap st i = Some r" and "same_units r r'"
    and "\<And>u. u \<noteq> x \<Longrightarrow> u \<in> {cr_first r, cr_second r} \<Longrightarrow> IsSuppressedFor u r' = IsSuppressedFor u r"
  shows "flags_but x (set_ref i r' st)"
proof -
  have refs: "refs_ok (cb_map st) (cb_heap st) (cb_next st)" using assms(1) by (simp add: flags_but_def)
  have "in_combat (cb_map st) ((cb_heap st)(i \<mapsto> r')) u = in_combat (cb_map st) (cb_heap st) u" if "u \<noteq> x" for u
    by (rule retag_in_combat [OF refs assms(2)]) (rule assms(4) [OF that])
  then show ?thesis
    using assms(1) retag_refs_ok [OF refs assms(2,3)] by (simp add: flags_but_def)
qed

lemma Update_restores:
  assumes "flags_but x st"
  shows "\<exists>need st'. UpdateOwnerCombatState w x st = Some (need, st') \<and> combat_ok st'
    \<and> cb_map st' = cb_map st \<and> cb_heap st' = cb_heap st \<and> cb_next st' = cb_next st"
proof -
  have refs: "refs_ok (cb_map st) (cb_heap st) (cb_next st)" using assms by (simp add: flags_but_def)
  obtain out need where
    "UpdateOwnerCombatState w x st =
      Some (need, st\<lparr>cb_flag := (cb_flag st)(x := in_combat (cb_map st) (cb_heap st) x), cb_out := out\<rparr>)"
    using UpdateOwner_value [OF HasCombat_ok [OF refs]] by blast
  then show ?thesis using assms by (auto simp: flags_but_def combat_ok_def flags_ok_def)
qed

lemma notices_ok [simp]:
  "combat_ok (exit_notice w need u st) = combat_ok st" "combat_ok (NotifyAICombat w a b st) = combat_ok st"
  "combat_ok (emit es st) = combat_ok st"
  by (simp_all add: combat_ok_def flags_ok_def emit_def)

lemma Refresh_ok:
  assumes ok: "combat_ok st" and r: "cb_heap st i = Some r"
  shows "\<exists>st'. Refresh w i st = Some st' \<and> combat_ok st' \<and> cb_map st' = cb_map st"
proof -
  let ?a = "cr_first r" and ?b = "cr_second r"
  let ?r1 = "r\<lparr>cr_timer := PVP_COMBAT_TIMEOUT\<rparr>"
  let ?r2 = "?r1\<lparr>cr_suppressFirst := False\<rparr>"
  let ?r3 = "?r1\<lparr>cr_suppressFirst := False, cr_suppressSecond := False\<rparr>"
  have ab: "?a \<noteq> ?b"
    using ok r refs_ok_links [of "cb_map st" "cb_heap st" "cb_next st" i r] by (auto simp: combat_ok_def links_def)
  have s: "same_units r ?r1" "same_units ?r1 ?r2" "same_units ?r2 ?r3" by (simp_all add: same_units_def)
  have "flags_but x (set_ref i ?r1 st)" for x
    by (rule set_ref_flags_but [OF flags_but_weaken [OF ok] r s(1)]) (simp add: IsSuppressedFor_def)
  then have ok1: "combat_ok (set_ref i ?r1 st)"
    unfolding flags_but_def combat_ok_def flags_ok_def by (metis ab)
  have "\<exists>need st1. (if cr_suppressFirst r then UpdateOwnerCombatState w ?a (set_ref i ?r2 (set_ref i ?r1 st))
         else Some (False, set_ref i ?r1 st)) = Some (need, st1)
      \<and> combat_ok st1 \<and> cb_map st1 = cb_map st \<and> cb_heap st1 i = Some ?r2"
  proof (cases "cr_suppressFirst r")
    case True
    have "flags_but ?a (set_ref i ?r2 (set_ref i ?r1 st))"
      by (rule set_ref_flags_but [OF flags_but_weaken [OF ok1] _ s(2)]) (auto simp: IsSuppressedFor_def)
    from Update_restores [OF this, of w] True show ?thesis by auto
  next
    case False
    then have "?r2 = ?r1" by simp
    with False ok1 show ?thesis by auto
  qed
  then obtain n1 st1 where 1: "(if cr_suppressFirst r then UpdateOwnerCombatState w ?a (set_ref i ?r2 (set_ref i ?r1 st))
         else Some (False, set_ref i ?r1 st)) = Some (n1, st1)"
    and st1: "combat_ok st1" "cb_map st1 = cb_map st" "cb_heap st1 i = Some ?r2"
    by blast
  have "\<exists>need st2. (if cr_suppressSecond r then UpdateOwnerCombatState w ?b (set_ref i ?r3 st1)
         else Some (False, st1)) = Some (need, st2) \<and> combat_ok st2 \<and> cb_map st2 = cb_map st"
  proof (cases "cr_suppressSecond r")
    case True
    have "flags_but ?b (set_ref i ?r3 st1)"
      by (rule set_ref_flags_but [OF flags_but_weaken [OF st1(1)] st1(3) s(3)]) (auto simp: IsSuppressedFor_def)
    from Update_restores [OF this, of w] True st1 show ?thesis by auto
  qed (auto simp: st1)
  then obtain n2 st2 where 2: "(if cr_suppressSecond r then UpdateOwnerCombatState w ?b (set_ref i ?r3 st1)
         else Some (False, st1)) = Some (n2, st2)" and st2: "combat_ok st2" "cb_map st2 = cb_map st"
    by blast
  show ?thesis
    unfolding Refresh_def Let_def using r 1 2 st2 by simp
qed

subsection \<open>A new combat\<close>

definition link :: "u64 \<Rightarrow> u64 \<Rightarrow> bool \<Rightarrow> nat \<Rightarrow> (bool \<Rightarrow> u64 \<Rightarrow> (u64, nat) omap) \<Rightarrow> bool \<Rightarrow> u64 \<Rightarrow> (u64, nat) omap" where
  "link a b p i M q u =
     (if q = p \<and> u = a then om_set b i (M q u) else if q = p \<and> u = b then om_set a i (M q u) else M q u)"

lemma link_find:
  "a \<noteq> b \<Longrightarrow> om_find g (link a b p i M q u) =
     (if q = p \<and> (u = a \<and> g = b \<or> u = b \<and> g = a) then Some i else om_find g (M q u))"
  by (auto simp: link_def om_simps)

lemma refs_ok_half:
  assumes ok: "refs_ok M H n" and "om_has g (M p u)"
  shows "om_has u (M p g)"
proof -
  obtain i where "om_find g (M p u) = Some i" using assms(2) by (auto simp: om_has_def)
  then obtain r where "H i = Some r" "links r p u g" using refs_okD(2) [OF ok] by blast
  with refs_okD(4,5) [OF ok this(1)] show ?thesis by (auto simp: links_def om_has_def)
qed

lemma refs_ok_sym: "refs_ok M H n \<Longrightarrow> om_has g (M p u) \<longleftrightarrow> om_has u (M p g)"
  using refs_ok_half by blast

lemma refs_ok_fresh:
  assumes ok: "refs_ok M H n" and "om_find g (M p u) = Some i"
  shows "i \<noteq> n"
  using refs_okD(2) [OF assms] refs_okD(3) [OF ok, of i] by auto

lemma link_refs_ok:
  assumes ok: "refs_ok M H n" and ab: "cr_first r \<noteq> cr_second r"
    and none: "\<And>p. \<not> om_has (cr_second r) (M p (cr_first r))"
  shows "refs_ok (link (cr_first r) (cr_second r) (cr_isPvP r) n M) (H(n \<mapsto> r)) (Suc n)"
proof -
  let ?a = "cr_first r" and ?b = "cr_second r" and ?p = "cr_isPvP r"
  let ?M = "link ?a ?b ?p n M" and ?H = "H(n \<mapsto> r)"
  note find = link_find [OF ab]
  have none': "\<not> om_has ?a (M p ?b)" for p using none refs_ok_sym [OF ok] by blast
  have dead: "H n = None" using refs_okD(3) [OF ok, of n] by (cases "H n") auto
  have "\<exists>s. ?H j = Some s \<and> links s q u g" if "om_find g (?M q u) = Some j" for q u g j
  proof (cases "q = ?p \<and> (u = ?a \<and> g = ?b \<or> u = ?b \<and> g = ?a)")
    case True
    then have "j = n" using that by (simp add: find)
    with True ab show ?thesis by (auto simp: links_def)
  next
    case False
    then have "om_find g (M q u) = Some j" using that by (auto simp: find split: if_splits)
    with refs_okD(2) [OF ok this] refs_ok_fresh [OF ok this] show ?thesis by simp
  qed
  moreover have "j < Suc n \<and> om_find (cr_second s) (?M (cr_isPvP s) (cr_first s)) = Some j
      \<and> om_find (cr_first s) (?M (cr_isPvP s) (cr_second s)) = Some j" if "?H j = Some s" for j s
  proof (cases "j = n")
    case True
    then have "s = r" using that by simp
    with True ab show ?thesis by (simp add: find)
  next
    case False
    with that have s: "H j = Some s" by simp
    have "\<not> (cr_isPvP s = ?p \<and> cr_first s = ?a \<and> cr_second s = ?b)"
      "\<not> (cr_isPvP s = ?p \<and> cr_first s = ?b \<and> cr_second s = ?a)"
      using refs_okD(4,5) [OF ok s] none none' by (metis om_has_def option.distinct(1))+
    with refs_okD(3-5) [OF ok s] show ?thesis by (auto simp: find)
  qed
  moreover have "om_ok (?M q u)" for q u
    using refs_okD(1) [OF ok] by (simp add: link_def)
  moreover have "\<not> (om_has g (?M False u) \<and> om_has g (?M True u))" for g u
  proof (cases "u = ?a \<and> g = ?b \<or> u = ?b \<and> g = ?a")
    case True
    then show ?thesis using none none' by (cases ?p) (auto simp: om_has_def find)
  next
    case False
    then have "om_has g (?M q u) \<longleftrightarrow> om_has g (M q u)" for q by (auto simp: om_has_def find)
    then show ?thesis using refs_okD(6) [OF ok, of g u] by simp
  qed
  ultimately show ?thesis unfolding refs_ok_def by blast
qed

lemma link_in_combat:
  assumes ok: "refs_ok M H n" and u: "u \<noteq> a" "u \<noteq> b"
  shows "in_combat (link a b p n M) (H(n \<mapsto> r)) u = in_combat M H u"
proof -
  have m: "link a b p n M q u = M q u" for q using u by (simp add: link_def)
  show ?thesis
    unfolding in_combat_def m using refs_ok_fresh [OF ok] by (metis fun_upd_other)
qed

lemma put_both:
  assumes "cb_heap st i = Some r" and "a \<noteq> b" and "\<not> om_has b (cb_map st (cr_isPvP r) a)"
    and "\<not> om_has a (cb_map st (cr_isPvP r) b)"
  shows "\<exists>st1. PutReference a b i st = Some st1 \<and>
    PutReference b a i st1 = Some (st\<lparr>cb_map := link a b (cr_isPvP r) i (cb_map st)\<rparr>)"
  using assms by (simp add: PutReference_def set_map_def link_def fun_eq_iff)

lemma new_combat_ok:
  assumes ok: "combat_ok st" and ab: "a \<noteq> b" and none: "\<not> IsInCombatWith a b st"
  shows "\<exists>st'. new_combat w a b st = Some (True, st') \<and> combat_ok st' \<and> IsInCombatWith a b st'
    \<and> (\<forall>u g. IsInCombatWith u g st' \<longleftrightarrow> IsInCombatWith u g st \<or> {u, g} = {a, b})
    \<and> (\<forall>p u g i. om_find g (cb_map st p u) = Some i \<longrightarrow> om_find g (cb_map st' p u) = Some i)"
proof -
  let ?r = "\<lparr>cr_first = a, cr_second = b, cr_isPvP = uw_by_player w a \<and> uw_by_player w b,
               cr_timer = PVP_COMBAT_TIMEOUT, cr_suppressFirst = False, cr_suppressSecond = False\<rparr>"
  let ?n = "cb_next st" and ?p = "cr_isPvP ?r"
  let ?M = "link a b ?p ?n (cb_map st)" and ?H = "(cb_heap st)(?n \<mapsto> ?r)"
  have refs: "refs_ok (cb_map st) (cb_heap st) ?n" and flags: "flags_ok st" using ok by (auto simp: combat_ok_def)
  have none': "\<not> om_has b (cb_map st p a)" "\<not> om_has a (cb_map st p b)" for p
    using none refs_ok_sym [OF refs, of b p a] by (cases p; auto simp: IsInCombatWith_def)+
  have wf: "refs_ok ?M ?H (Suc ?n)"
    using link_refs_ok [OF refs, of ?r] ab none'(1) by simp
  define s0 where "s0 = (set_ref ?n ?r st)\<lparr>cb_next := Suc ?n\<rparr>"
  define s where "s = s0\<lparr>cb_map := ?M\<rparr>"
  have s0: "cb_heap s0 ?n = Some ?r" "cb_map s0 = cb_map st" by (simp_all add: s0_def)
  have s: "cb_map s = ?M" "cb_heap s = ?H" "cb_flag s = cb_flag st" "cb_next s = Suc ?n"
    by (simp_all add: s_def s0_def)
  obtain s1 where put: "PutReference a b ?n s0 = Some s1" "PutReference b a ?n s1 = Some s"
    using put_both [OF s0(1) ab] none' by (auto simp: s0(2) s_def)
  obtain o1 n1 t1 where u1: "UpdateOwnerCombatState w a s = Some (n1, t1)"
    and t1: "t1 = s\<lparr>cb_flag := (cb_flag s)(a := in_combat ?M ?H a), cb_out := o1\<rparr>"
    using UpdateOwner_value [OF HasCombat_ok] wf s by metis
  have "cb_map t1 = ?M" "cb_heap t1 = ?H" "cb_next t1 = Suc ?n" by (simp_all add: t1 s)
  then obtain o2 n2 t2 where u2: "UpdateOwnerCombatState w b t1 = Some (n2, t2)"
    and t2: "t2 = t1\<lparr>cb_flag := (cb_flag t1)(b := in_combat ?M ?H b), cb_out := o2\<rparr>"
    using UpdateOwner_value [OF HasCombat_ok] wf by metis
  let ?t = "if n1 then NotifyAICombat w a b t2 else t2"
  let ?st' = "if n2 then NotifyAICombat w b a ?t else ?t"
  have fields: "cb_map ?st' = ?M" "cb_heap ?st' = ?H" "cb_next ?st' = Suc ?n" "cb_flag ?st' = cb_flag t2"
    by (simp_all add: t2 t1 s)
  have "cb_flag t2 u = in_combat ?M ?H u" for u
    using flags link_in_combat [OF refs, of u a b ?p ?r] by (simp add: flags_ok_def t2 t1 s)
  then have "combat_ok ?st'" using wf fields by (simp add: combat_ok_def flags_ok_def)
  moreover have who: "IsInCombatWith u g ?st' \<longleftrightarrow> IsInCombatWith u g st \<or> {u, g} = {a, b}" for u g
    unfolding IsInCombatWith_def fields om_has_def link_find [OF ab]
    by (cases ?p) (auto simp: doubleton_eq_iff)
  moreover have "new_combat w a b st = Some (IsInCombatWith a b ?st', ?st')"
    unfolding new_combat_def Let_def using put u1 u2 by (simp add: s0_def)
  moreover have "om_find g (cb_map ?st' p u) = Some i" if "om_find g (cb_map st p u) = Some i" for p u g i
    using that none' [of p] unfolding fields link_find [OF ab] by (auto simp: om_has_def)
  ultimately show ?thesis by (intro exI [of _ ?st']) simp
qed

lemma SetInCombatWith_ok:
  assumes ok: "combat_ok st"
  shows "\<exists>st'. SetInCombatWith w a b st = Some (IsInCombatWith a b st \<or> CanBeginCombat w a b, st') \<and> combat_ok st'
    \<and> (\<forall>u g. IsInCombatWith u g st' \<longleftrightarrow>
         IsInCombatWith u g st \<or> (\<not> IsInCombatWith a b st \<and> CanBeginCombat w a b \<and> {u, g} = {a, b}))
    \<and> (\<forall>p u g i. om_find g (cb_map st p u) = Some i \<longrightarrow> om_find g (cb_map st' p u) = Some i)"
proof (cases "om_find b (cb_map st True a)")
  case (Some i)
  then obtain r where "cb_heap st i = Some r"
    using ok refs_okD(2) [of "cb_map st" "cb_heap st" "cb_next st" b True a i] by (auto simp: combat_ok_def)
  from Refresh_ok [OF ok this, of w] obtain st' where
    "Refresh w i st = Some st'" "combat_ok st'" "cb_map st' = cb_map st" by blast
  with Some show ?thesis by (auto simp: SetInCombatWith_def IsInCombatWith_def om_has_def)
next
  case None
  show ?thesis
  proof (cases "om_has b (cb_map st False a) \<or> \<not> CanBeginCombat w a b")
    case True
    with None ok show ?thesis by (auto simp: SetInCombatWith_def IsInCombatWith_def om_has_def)
  next
    case False
    with None have "\<not> IsInCombatWith a b st" "a \<noteq> b"
      by (auto simp: IsInCombatWith_def om_has_def CanBeginCombat_def)
    with new_combat_ok [OF ok, of a b w] None False show ?thesis by (auto simp: SetInCombatWith_def)
  qed
qed

subsection \<open>The loops\<close>

text \<open>The entries a loop still has to visit are in the map, each once.\<close>

definition pending :: "(u64, nat) omap \<Rightarrow> (u64 \<times> nat) list \<Rightarrow> bool" where
  "pending m es \<longleftrightarrow> distinct (map fst es) \<and> (\<forall>e \<in> set es. om_find (fst e) m = Some (snd e))"

lemma pending_all:
  assumes "om_ok m"
  shows "pending m m"
proof -
  have "distinct (map fst m)" using assms unfolding om_ok_def by (simp add: strict_sorted_iff)
  then show ?thesis using om_ok_find [OF assms] by (auto simp: pending_def)
qed

lemma pending_entry:
  assumes "combat_ok st" and "pending (cb_map st p u) (e # es)"
  shows "\<exists>r. cb_heap st (snd e) = Some r \<and> links r p u (fst e)"
  using assms refs_okD(2) unfolding combat_ok_def pending_def by auto

lemma unlink_own: "links r p u g \<Longrightarrow> unlink (cr_first r) (cr_second r) p M p u = om_erase g (M p u)"
  by (auto simp: unlink_def links_def)

lemma pending_erase: "pending m (e # es) \<Longrightarrow> pending (om_erase (fst e) m) es"
  unfolding pending_def by (auto simp: om_simps rev_image_eqI)

lemma pending_tl: "pending m (e # es) \<Longrightarrow> pending m es"
  by (simp add: pending_def)

text \<open>One round that ends the combat at the entry.\<close>

lemma end_round:
  assumes ok: "combat_ok st" and pend: "pending (cb_map st p u) (e # es)"
  shows "\<exists>st'. EndCombat w (snd e) (PurgeReference u (fst e) p st) = Some st' \<and> EndCombat w (snd e) st = Some st'
    \<and> combat_ok st' \<and> pending (cb_map st' p u) es \<and> cb_map st' p u = om_erase (fst e) (cb_map st p u)"
proof -
  obtain r where r: "cb_heap st (snd e) = Some r" "links r p u (fst e)"
    using pending_entry [OF ok pend] by blast
  then have p: "cr_isPvP r = p" by (simp add: links_def)
  obtain st' where "EndCombat w (snd e) st = Some st'" "combat_ok st'"
    "cb_map st' = unlink (cr_first r) (cr_second r) p (cb_map st)"
    using EndCombat_value [OF ok r(1), of w] p by blast
  moreover from this have own: "cb_map st' p u = om_erase (fst e) (cb_map st p u)"
    using unlink_own [OF r(2)] by simp
  ultimately show ?thesis
    using EndCombat_after_purge [OF r, of w] pending_erase [OF pend] by metis
qed

lemma update_loop_ok:
  "combat_ok st \<Longrightarrow> pending (cb_map st True u) es \<Longrightarrow> \<exists>st'. update_loop w u tdiff es st = Some st' \<and> combat_ok st'"
proof (induction es arbitrary: st)
  case Nil
  then show ?case by simp
next
  case (Cons e es)
  obtain r where r: "cb_heap st (snd e) = Some r"
    using pending_entry [OF Cons.prems] by blast
  have "combat_ok (set_ref (snd e) (r\<lparr>cr_timer := t\<rparr>) st)" for t
  proof -
    have "flags_but x (set_ref (snd e) (r\<lparr>cr_timer := t\<rparr>) st)" for x
      by (rule set_ref_flags_but [OF flags_but_weaken [OF Cons.prems(1)] r])
         (simp_all add: IsSuppressedFor_def same_units_def)
    from this [of 0] this [of 1] show ?thesis
      unfolding flags_but_def combat_ok_def flags_ok_def by (metis zero_neq_one)
  qed
  moreover have "pending (cb_map (set_ref (snd e) r' st) True u) es" for r'
    using pending_tl [OF Cons.prems(2)] by simp
  ultimately show ?case
    using Cons.IH end_round [OF Cons.prems, of w] Cons.prems(1) pending_tl [OF Cons.prems(2)] r
    by (auto simp: ref_Update_def split: bool.split)
qed

lemma range_loop_ok:
  "combat_ok st \<Longrightarrow> pending (cb_map st p u) es \<Longrightarrow> \<exists>st'. range_loop w near p u es st = Some st' \<and> combat_ok st'"
proof (induction es arbitrary: st)
  case Nil
  then show ?case by simp
next
  case (Cons e es)
  obtain r where "cb_heap st (snd e) = Some r"
    using pending_entry [OF Cons.prems] by blast
  with Cons.IH end_round [OF Cons.prems, of w] Cons.prems(1) pending_tl [OF Cons.prems(2)] show ?case
    by auto
qed

lemma end_all_ok:
  "combat_ok st \<Longrightarrow> length (cb_map st p u) \<le> n \<Longrightarrow>
     \<exists>st'. end_all w p u n st = Some st' \<and> combat_ok st' \<and> cb_map st' p u = []"
proof (induction n arbitrary: st)
  case 0
  then show ?case by (simp add: end_all.simps)
next
  case (Suc n)
  show ?case
  proof (cases "cb_map st p u")
    case Nil
    with Suc.prems show ?thesis by (simp add: end_all.simps)
  next
    case (Cons e es)
    have "om_ok (cb_map st p u)" using Suc.prems(1) refs_okD(1) by (auto simp: combat_ok_def)
    then have "pending (cb_map st p u) (e # es)" using pending_all Cons by metis
    from end_round [OF Suc.prems(1) this, of w] obtain st' where
      st': "EndCombat w (snd e) st = Some st'" "combat_ok st'" "cb_map st' p u = om_erase (fst e) (cb_map st p u)"
      by blast
    have "length (cb_map st' p u) \<le> n"
      using Suc.prems(2) length_filter_le [of "\<lambda>x. fst x \<noteq> fst e" es] unfolding st'(3) Cons om_erase_def by (simp add: order_trans [OF length_filter_le])
    from Suc.IH [OF st'(2) this] show ?thesis using Cons st'(1) by (simp add: end_all.simps)
  qed
qed

lemma suppress_loop_ok:
  "flags_but u st \<Longrightarrow> (\<forall>e \<in> set es. om_has (fst e) (cb_map st True u) \<and> om_find (fst e) (cb_map st True u) = Some (snd e)) \<Longrightarrow>
     \<exists>st'. suppress_loop u es st = Some st' \<and> flags_but u st' \<and> cb_map st' = cb_map st"
proof (induction es arbitrary: st)
  case Nil
  then show ?case by simp
next
  case (Cons e es)
  have refs: "refs_ok (cb_map st) (cb_heap st) (cb_next st)" using Cons.prems(1) by (simp add: flags_but_def)
  obtain r where r: "cb_heap st (snd e) = Some r" "links r True u (fst e)"
    using refs_okD(2) [OF refs] Cons.prems(2) by (metis list.set_intros(1))
  have "flags_but u (set_ref (snd e) (Suppress u r) st)"
    by (rule set_ref_flags_but [OF Cons.prems(1) r(1)])
       (use r(2) in \<open>auto simp: same_units_def Suppress_def IsSuppressedFor_def links_def\<close>)
  from Cons.IH [OF this] Cons.prems(2) r(1) show ?case by simp
qed

lemma inherit_loop_ok:
  "combat_ok st \<Longrightarrow> pending (cb_map st p who) es \<Longrightarrow>
     \<exists>st'. inherit_loop w u who es st = Some st' \<and> combat_ok st'"
proof (induction es arbitrary: st)
  case Nil
  then show ?case by simp
next
  case (Cons e es)
  obtain r where r: "cb_heap st (snd e) = Some r"
    using pending_entry [OF Cons.prems] by blast
  obtain b st' where s: "SetInCombatWith w u (GetOther who r) st = Some (b, st')" "combat_ok st'"
    and kept: "\<And>g i. om_find g (cb_map st p who) = Some i \<Longrightarrow> om_find g (cb_map st' p who) = Some i"
    using SetInCombatWith_ok [OF Cons.prems(1), of w u "GetOther who r"] by blast
  have "pending (cb_map st' p who) es"
    using Cons.prems(2) kept unfolding pending_def by simp
  with Cons.IH [OF Cons.prems(1) pending_tl [OF Cons.prems(2)]] Cons.IH [OF s(2)] r s(1) show ?case
    by (simp add: Let_def)
qed

section \<open>Any sequence of calls\<close>

text \<open>
  The calls of the rest of the server. \<open>EndPair\<close> and \<open>SuppressPair\<close> act on the reference that
  \<open>u\<close> has with \<open>g\<close>, when there is one.
\<close>

datatype combat_call =
    DoUpdate u64 u32 | DoSetInCombatWith u64 u64 | DoInherit u64 u64
  | DoEndBeyondRange "u64 \<Rightarrow> u64 \<Rightarrow> bool" bool u64 | DoSuppressPvP u64
  | DoEndAllPvE u64 | DoEndAllPvP u64 | DoEndAll u64 | EndPair bool u64 u64 | SuppressPair u64 u64

fun combat_step :: "combat_state \<Rightarrow> combat_world \<times> combat_call \<Rightarrow> combat_state option" where
  "combat_step st (w, DoUpdate u tdiff) = CombatManager_Update w u tdiff st"
| "combat_step st (w, DoSetInCombatWith a b) = map_option snd (SetInCombatWith w a b st)"
| "combat_step st (w, DoInherit u who) = InheritCombatStatesFrom w u who st"
| "combat_step st (w, DoEndBeyondRange near pvp u) = EndCombatBeyondRange w near pvp u st"
| "combat_step st (w, DoSuppressPvP u) = SuppressPvPCombat w u st"
| "combat_step st (w, DoEndAllPvE u) = EndAllPvECombat w u st"
| "combat_step st (w, DoEndAllPvP u) = EndAllPvPCombat w u st"
| "combat_step st (w, DoEndAll u) = EndAllCombat w u st"
| "combat_step st (w, EndPair p u g) =
     (case om_find g (cb_map st p u) of None \<Rightarrow> Some st | Some i \<Rightarrow> EndCombat w i st)"
| "combat_step st (w, SuppressPair u g) =
     (case om_find g (cb_map st True u) of None \<Rightarrow> Some st | Some i \<Rightarrow> SuppressFor w i u st)"

lemma map_ok: "combat_ok st \<Longrightarrow> om_ok (cb_map st p u)"
  using refs_okD(1) by (auto simp: combat_ok_def)

lemma entry_live: "combat_ok st \<Longrightarrow> om_find g (cb_map st p u) = Some i \<Longrightarrow> \<exists>r. cb_heap st i = Some r \<and> links r p u g"
  using refs_okD(2) by (auto simp: combat_ok_def)

lemma Inherit_ok: "combat_ok st \<Longrightarrow> \<exists>st'. InheritCombatStatesFrom w u who st = Some st' \<and> combat_ok st'"
  using inherit_loop_ok [OF _ pending_all [OF map_ok]] unfolding InheritCombatStatesFrom_def
  by (smt (verit, best) option.simps(5))

lemma EndBeyondRange_ok: "combat_ok st \<Longrightarrow> \<exists>st'. EndCombatBeyondRange w near pvp u st = Some st' \<and> combat_ok st'"
  using range_loop_ok [OF _ pending_all [OF map_ok]] unfolding EndCombatBeyondRange_def
  by (smt (verit, best) option.simps(5))

lemma SuppressPvP_ok:
  assumes ok: "combat_ok st"
  shows "\<exists>st'. SuppressPvPCombat w u st = Some st' \<and> combat_ok st' \<and> cb_map st' = cb_map st"
proof -
  have "\<forall>e \<in> set (cb_map st True u). om_has (fst e) (cb_map st True u) \<and> om_find (fst e) (cb_map st True u) = Some (snd e)"
    using om_ok_find [OF map_ok [OF ok]] by (auto simp: om_has_def)
  from suppress_loop_ok [OF flags_but_weaken [OF ok] this] obtain st1 where
    1: "suppress_loop u (cb_map st True u) st = Some st1" "flags_but u st1" "cb_map st1 = cb_map st" by blast
  from Update_restores [OF this(2), of w] obtain n st2 where
    "UpdateOwnerCombatState w u st1 = Some (n, st2)" "combat_ok st2" "cb_map st2 = cb_map st1" by blast
  with 1 show ?thesis by (simp add: SuppressPvPCombat_def)
qed

lemma SuppressFor_ok:
  assumes ok: "combat_ok st" and "cb_heap st i = Some r" and "who \<in> {cr_first r, cr_second r}"
  shows "\<exists>st'. SuppressFor w i who st = Some st' \<and> combat_ok st' \<and> cb_map st' = cb_map st"
proof -
  have "flags_but who (set_ref i (Suppress who r) st)"
    by (rule set_ref_flags_but [OF flags_but_weaken [OF ok] assms(2)])
       (use assms(3) in \<open>auto simp: same_units_def Suppress_def IsSuppressedFor_def\<close>)
  from Update_restores [OF this, of w] assms(2) show ?thesis by (auto simp: SuppressFor_def)
qed

lemma EndAll_ok: 
  assumes "combat_ok st"
  shows "\<exists>st'. EndAllPvECombat w u st = Some st' \<and> combat_ok st' \<and> cb_map st' False u = []"
    and "\<exists>st'. EndAllPvPCombat w u st = Some st' \<and> combat_ok st' \<and> cb_map st' True u = []"
proof -
  have "cb_map (emit es st) = cb_map st" for es by (simp add: emit_def)
  then show "\<exists>st'. EndAllPvECombat w u st = Some st' \<and> combat_ok st' \<and> cb_map st' False u = []"
    using end_all_ok [of "emit [RemoveMeFromThreatLists u, ClearAllThreat u] st" False u "length (cb_map st False u)" w]
      assms by (simp add: EndAllPvECombat_def Let_def)
  show "\<exists>st'. EndAllPvPCombat w u st = Some st' \<and> combat_ok st' \<and> cb_map st' True u = []"
    using end_all_ok [OF assms order_refl] by (simp add: EndAllPvPCombat_def)
qed

lemma combat_step_ok:
  assumes ok: "combat_ok st"
  shows "\<exists>st'. combat_step st c = Some st' \<and> combat_ok st'"
proof (cases c)
  case (Pair w call)
  show ?thesis
  proof (cases call)
    case (EndPair p u g)
    then show ?thesis
      using Pair ok entry_live [OF ok, of g p u] EndCombat_value [OF ok, of _ _ w]
      by (cases "om_find g (cb_map st p u)") auto
  next
    case (SuppressPair u g)
    then show ?thesis
      using Pair ok entry_live [OF ok, of g True u] SuppressFor_ok [OF ok, of _ _ u w]
      by (cases "om_find g (cb_map st True u)") (auto simp: links_def)
  next
    case (DoEndAll u)
    obtain st1 where "EndAllPvECombat w u st = Some st1" "combat_ok st1"
      using EndAll_ok(1) [OF ok] by blast
    with DoEndAll Pair EndAll_ok(2) [OF this(2), of w u] show ?thesis by (auto simp: EndAllCombat_def)
  qed (use Pair ok SetInCombatWith_ok [OF ok, of w] Inherit_ok [OF ok, of w] EndBeyondRange_ok [OF ok, of w]
      SuppressPvP_ok [OF ok, of w] EndAll_ok [OF ok, of w]
      update_loop_ok [OF ok pending_all [OF map_ok [OF ok]], of w] in \<open>fastforce simp: CombatManager_Update_def\<close>)+
qed

interpretation combat: safe_machine combat_step combat_ok
proof unfold_locales
  fix st c t assume "combat_ok st"
  from combat_step_ok [OF this, of c] show "combat_step st c = Some t \<Longrightarrow> combat_ok t" by auto
next
  fix st c assume "combat_ok st"
  from combat_step_ok [OF this, of c] show "\<exists>t. combat_step st c = Some t" by auto
qed

lemma combat_init_ok: "combat_ok combat_init"
  by (simp add: combat_ok_def refs_ok_def flags_ok_def in_combat_def combat_init_def om_simps om_has_def)


section \<open>What the calls do\<close>

text \<open>
  C20: From a server without any combat, every sequence of calls on the units' managers returns,
  with no failed assertion, no use of a deleted reference and no endless loop; and at its end
  the references are consistent and every unit's combat flag is right.
\<close>

theorem combat_never_fails:
  "\<exists>st. run_calls combat_step combat_init calls = Some st \<and> combat_ok st"
  by (rule combat.run_defined) (rule combat_init_ok)

text \<open>
  C21: The guarantees that the header of \<open>CombatManager\<close> documents, in every reachable state: a unit
  has the combat flag if and only if it has a reference that is not suppressed for it; combat is
  symmetric; nobody fights himself; and a reference found from a unit joins it with that other.
\<close>

theorem combat_documented_guarantees:
  assumes "run_calls combat_step combat_init calls = Some st"
  shows "(cb_flag st u \<longleftrightarrow> (\<exists>g i r p. om_find g (cb_map st p u) = Some i \<and> cb_heap st i = Some r
            \<and> (\<not> p \<or> \<not> IsSuppressedFor u r)))
    \<and> (IsInCombatWith u g st \<longleftrightarrow> IsInCombatWith g u st) \<and> \<not> IsInCombatWith u u st
    \<and> (om_find g (cb_map st p u) = Some i \<longrightarrow>
         (\<exists>r. cb_heap st i = Some r \<and> GetOther u r = g \<and> cr_isPvP r = p))"
proof -
  have ok: "combat_ok st" using combat.run_inv [OF combat_init_ok assms] .
  then have refs: "refs_ok (cb_map st) (cb_heap st) (cb_next st)" by (simp add: combat_ok_def)
  have live: "om_find g (cb_map st p u) = Some i \<Longrightarrow> \<exists>r. cb_heap st i = Some r \<and> links r p u g" for p u g i
    using refs_okD(2) [OF refs] .
  have "cb_map st False u \<noteq> [] \<longleftrightarrow> (\<exists>g i. om_find g (cb_map st False u) = Some i)"
    by (cases "cb_map st False u") (auto simp: om_simps, metis om_find_hd)
  then have "cb_map st False u \<noteq> [] \<longleftrightarrow> (\<exists>g i r. om_find g (cb_map st False u) = Some i \<and> cb_heap st i = Some r)"
    using live by blast
  moreover have "cb_flag st u = in_combat (cb_map st) (cb_heap st) u" using ok by (simp add: combat_ok_def flags_ok_def)
  ultimately have "cb_flag st u \<longleftrightarrow> (\<exists>g i r p. om_find g (cb_map st p u) = Some i \<and> cb_heap st i = Some r
      \<and> (\<not> p \<or> \<not> IsSuppressedFor u r))"
    unfolding in_combat_def by (metis (full_types))
  moreover have "IsInCombatWith u g st \<longleftrightarrow> IsInCombatWith g u st"
    using refs_ok_sym [OF refs] by (simp add: IsInCombatWith_def)
  moreover have "\<not> IsInCombatWith u u st"
    using live [of u _ u] by (fastforce simp: IsInCombatWith_def om_has_def links_def)
  moreover have "om_find g (cb_map st p u) = Some i \<longrightarrow> (\<exists>r. cb_heap st i = Some r \<and> GetOther u r = g \<and> cr_isPvP r = p)"
  proof
    assume "om_find g (cb_map st p u) = Some i"
    from live [OF this] obtain r where "cb_heap st i = Some r" "links r p u g" by blast
    then show "\<exists>r. cb_heap st i = Some r \<and> GetOther u r = g \<and> cr_isPvP r = p"
      by (intro exI [of _ r]) (auto simp: links_def GetOther_def)
  qed
  ultimately show ?thesis by blast
qed

text \<open>A world of two hostile players, 1 and 2, for the examples.\<close>

definition two_players :: combat_world where
  "two_players = \<lparr>uw_in_world = (\<lambda>u. True), uw_alive = (\<lambda>u. True), uw_map = (\<lambda>u. 0),
     uw_same_phase = (\<lambda>a b. True), uw_evade = (\<lambda>u. False), uw_in_flight = (\<lambda>u. False),
     uw_friendly = (\<lambda>a b. False), uw_gm_player = (\<lambda>u. False), uw_by_player = (\<lambda>u. True),
     uw_immune_pc = (\<lambda>u. False), uw_immune_npc = (\<lambda>u. False), uw_player_flag = (\<lambda>u. True),
     uw_master = (\<lambda>u. None), uw_ai = (\<lambda>u. False), uw_ai_enabled = (\<lambda>u. False),
     uw_threatless_creature = (\<lambda>u. False)\<rparr>"

theorem combat_documented_guarantees_witness:
  "\<exists>st. run_calls combat_step combat_init [(two_players, DoSetInCombatWith 1 2)] = Some st \<and> IsInCombatWith 2 1 st"
proof -
  obtain st where st: "SetInCombatWith two_players 1 2 combat_init = Some (True, st)" "IsInCombatWith 1 2 st"
    using SetInCombatWith_ok [OF combat_init_ok, of two_players 1 2]
    by (auto simp: CanBeginCombat_def two_players_def)
  then have run: "run_calls combat_step combat_init [(two_players, DoSetInCombatWith 1 2)] = Some st" by simp
  with combat_documented_guarantees [OF run, of 1 2] st(2) show ?thesis by blast
qed

text \<open>
  C22: \<open>SetInCombatWith\<close> returns whether the two units are in combat afterwards, which they are if
  they were before or may begin; it joins exactly these two units, in both managers, and leaves
  every other pair as it was.
\<close>

theorem SetInCombatWith_correct:
  assumes "combat_ok st"
  shows "\<exists>b st'. SetInCombatWith w x y st = Some (b, st') \<and> combat_ok st' \<and> b = IsInCombatWith x y st'
    \<and> b = (IsInCombatWith x y st \<or> CanBeginCombat w x y)
    \<and> (\<forall>u g. {u, g} \<noteq> {x, y} \<longrightarrow> IsInCombatWith u g st' = IsInCombatWith u g st)"
proof -
  obtain st' where st': "SetInCombatWith w x y st = Some (IsInCombatWith x y st \<or> CanBeginCombat w x y, st')"
    "combat_ok st'"
    "\<And>u g. IsInCombatWith u g st' \<longleftrightarrow>
         IsInCombatWith u g st \<or> (\<not> IsInCombatWith x y st \<and> CanBeginCombat w x y \<and> {u, g} = {x, y})"
    using SetInCombatWith_ok [OF assms, of w x y] by blast
  have "IsInCombatWith x y st' \<longleftrightarrow> IsInCombatWith x y st \<or> CanBeginCombat w x y"
    unfolding st'(3) by blast
  moreover have "{u, g} \<noteq> {x, y} \<Longrightarrow> IsInCombatWith u g st' = IsInCombatWith u g st" for u g
    unfolding st'(3) by blast
  ultimately show ?thesis
    using st'(1,2) by (intro exI [of _ "IsInCombatWith x y st \<or> CanBeginCombat w x y"] exI [of _ st']) simp
qed

theorem SetInCombatWith_correct_witness:
  "\<exists>b st'. SetInCombatWith two_players 1 2 combat_init = Some (b, st') \<and> b = IsInCombatWith 1 2 st'"
  using SetInCombatWith_correct [OF combat_init_ok, of two_players 1 2] by blast

section \<open>The player-versus-player timer\<close>






end
