(* ===== verification/Social.thy ===== *)
theory Social
  imports ByteBuffer StdMap
begin

text \<open>
  \<^verbatim>\<open>src/src/server/game/Entities/Player/SocialMgr.{h,cpp}\<close> and \<^verbatim>\<open>SocialHandler.cpp\<close>: friend and ignore
  lists. \<open>so_map\<close> is \<open>m_socialMap\<close>, one list for each loaded player, and \<open>so_db\<close> the table
  \<open>character_social\<close>, with every statement applied when it is issued (the database executes them
  in order). Packets are appended to \<open>so_out\<close> with the player they go to. An operation is \<open>None\<close>
  where it would follow a player's pointer to a list that is not loaded.
\<close>

section \<open>Data\<close>

definition FRIEND :: u32 where "FRIEND = 0x01"
definition IGNORED :: u32 where "IGNORED = 0x02"

definition FRIEND_LIMIT :: nat where "FRIEND_LIMIT = 50"
definition IGNORE_LIMIT :: nat where "IGNORE_LIMIT = 25"

datatype friends_result =
    FriendListFull | FriendOnline | FriendOffline | FriendNotFound | FriendRemoved | FriendAddedOnline
  | FriendAddedOffline | FriendAlready | FriendSelf | FriendEnemy | IgnoreFull | IgnoreSelf
  | IgnoreNotFound | IgnoreAlready | IgnoreAdded | IgnoreRemoved

fun result_code :: "friends_result \<Rightarrow> u8" where
  "result_code FriendListFull = 0x01"
| "result_code FriendOnline = 0x02"
| "result_code FriendOffline = 0x03"
| "result_code FriendNotFound = 0x04"
| "result_code FriendRemoved = 0x05"
| "result_code FriendAddedOnline = 0x06"
| "result_code FriendAddedOffline = 0x07"
| "result_code FriendAlready = 0x08"
| "result_code FriendSelf = 0x09"
| "result_code FriendEnemy = 0x0A"
| "result_code IgnoreFull = 0x0B"
| "result_code IgnoreSelf = 0x0C"
| "result_code IgnoreNotFound = 0x0D"
| "result_code IgnoreAlready = 0x0E"
| "result_code IgnoreAdded = 0x0F"
| "result_code IgnoreRemoved = 0x10"

record friend_info =
  fi_Status :: u8
  fi_Flags :: u32
  fi_Area :: u32
  fi_Level :: u32
  fi_Class :: u32
  fi_Note :: string

definition FriendInfo :: "u32 \<Rightarrow> string \<Rightarrow> friend_info" where
  "FriendInfo flags note =
     \<lparr>fi_Status = 0, fi_Flags = flags, fi_Area = 0, fi_Level = 0, fi_Class = 0, fi_Note = note\<rparr>"

record player_social =
  ps_map :: "(u32, friend_info) omap"
  ps_guid :: u32

definition PlayerSocial_init :: player_social where
  "PlayerSocial_init = \<lparr>ps_map = [], ps_guid = 0\<rparr>"

text \<open>A row of the table: the flags and the note, under the player's and the friend's guid.\<close>

type_synonym social_db = "u32 \<times> u32 \<Rightarrow> (u32 \<times> string) option"

text \<open>
  The rest of the server: \<open>sw_connected\<close> is \<open>FindConnectedPlayer\<close> and \<open>sw_find\<close> is \<open>FindPlayer\<close>,
  \<open>sw_visible a b\<close> is \<open>a->IsVisibleGloballyFor(b)\<close>, \<open>sw_cache\<close> is the character cache (team and
  account), \<open>sw_normalize\<close> is \<open>normalizePlayerName\<close>, \<open>sw_truncate\<close> is \<open>utf8truncate\<close> to 48
  characters and \<open>sw_escape\<close> is \<open>CharacterDatabase.EscapeString\<close>.
\<close>

record social_player =
  sp_guid :: u32
  sp_name :: string
  sp_team :: u32
  sp_security :: nat
  sp_afk :: bool
  sp_dnd :: bool
  sp_zone :: u32
  sp_level :: u32
  sp_class :: u32
  sp_in_world :: bool

record social_world =
  sw_connected :: "u32 \<Rightarrow> social_player option"
  sw_find :: "u32 \<Rightarrow> social_player option"
  sw_visible :: "u32 \<Rightarrow> u32 \<Rightarrow> bool"
  sw_guid_by_name :: "string \<Rightarrow> u32"
  sw_cache :: "u32 \<Rightarrow> (u32 \<times> u32) option"
  sw_account_security :: "u32 \<Rightarrow> nat"
  sw_two_side_who :: bool
  sw_gm_level_who :: nat
  sw_two_side_add :: bool
  sw_allow_gm_friend :: bool
  sw_normalize :: "string \<Rightarrow> string option"
  sw_truncate :: "string \<Rightarrow> string"
  sw_escape :: "string \<Rightarrow> string"

record social =
  so_map :: "(u32, player_social) omap"
  so_db :: social_db
  so_out :: "(u32 \<times> packet) list"

section \<open>One player's list\<close>

definition GetNumberOfSocialsWithFlag :: "u32 \<Rightarrow> player_social \<Rightarrow> nat" where
  "GetNumberOfSocialsWithFlag flag ps = length (filter (\<lambda>e. fi_Flags (snd e) AND flag \<noteq> 0) (ps_map ps))"

definition HasFriend :: "u32 \<Rightarrow> player_social \<Rightarrow> bool" where
  "HasFriend f ps = (case om_find f (ps_map ps) of None \<Rightarrow> False | Some i \<Rightarrow> fi_Flags i AND FRIEND \<noteq> 0)"

definition HasIgnore :: "u32 \<Rightarrow> player_social \<Rightarrow> bool" where
  "HasIgnore f ps = (case om_find f (ps_map ps) of None \<Rightarrow> False | Some i \<Rightarrow> fi_Flags i AND IGNORED \<noteq> 0)"

text \<open>The statements, on rows that may be missing.\<close>

definition db_set_flags :: "(u32 \<Rightarrow> u32) \<Rightarrow> u32 \<Rightarrow> u32 \<Rightarrow> social_db \<Rightarrow> social_db" where
  "db_set_flags f g h db =
     (case db (g, h) of None \<Rightarrow> db | Some (flags, note) \<Rightarrow> db((g, h) \<mapsto> (f flags, note)))"

definition db_set_note :: "string \<Rightarrow> u32 \<Rightarrow> u32 \<Rightarrow> social_db \<Rightarrow> social_db" where
  "db_set_note n g h db =
     (case db (g, h) of None \<Rightarrow> db | Some (flags, note) \<Rightarrow> db((g, h) \<mapsto> (flags, n)))"

definition AddToSocialList :: "u32 \<Rightarrow> bool \<Rightarrow> player_social \<Rightarrow> social_db \<Rightarrow> bool \<times> player_social \<times> social_db" where
  "AddToSocialList friend_guid ign ps db =
     (if (if ign then GetNumberOfSocialsWithFlag IGNORED ps \<ge> IGNORE_LIMIT
          else GetNumberOfSocialsWithFlag FRIEND ps \<ge> FRIEND_LIMIT)
      then (False, ps, db)
      else
        let flag = (if ign then IGNORED else FRIEND)
        in case om_find friend_guid (ps_map ps) of
             Some i \<Rightarrow>
               (True, ps\<lparr>ps_map := om_set friend_guid (i\<lparr>fi_Flags := fi_Flags i OR flag\<rparr>) (ps_map ps)\<rparr>,
                db_set_flags (\<lambda>x. x OR flag) (ps_guid ps) friend_guid db)
           | None \<Rightarrow>
               (True, ps\<lparr>ps_map := om_set friend_guid (FriendInfo (0 OR flag) '''') (ps_map ps)\<rparr>,
                db((ps_guid ps, friend_guid) \<mapsto> (flag, ''''))))"

definition RemoveFromSocialList :: "u32 \<Rightarrow> bool \<Rightarrow> player_social \<Rightarrow> social_db \<Rightarrow> player_social \<times> social_db" where
  "RemoveFromSocialList friend_guid ign ps db =
     (case om_find friend_guid (ps_map ps) of
        None \<Rightarrow> (ps, db)
      | Some i \<Rightarrow>
          let flag = (if ign then IGNORED else FRIEND); flags = fi_Flags i AND NOT flag
          in if flags = 0
             then (ps\<lparr>ps_map := om_erase friend_guid (ps_map ps)\<rparr>, db((ps_guid ps, friend_guid) := None))
             else (ps\<lparr>ps_map := om_set friend_guid (i\<lparr>fi_Flags := flags\<rparr>) (ps_map ps)\<rparr>,
                   db_set_flags (\<lambda>x. x AND NOT flag) (ps_guid ps) friend_guid db))"

text \<open>
  \<open>SetFriendNote\<close> escapes the note for the statement and then keeps the escaped string in memory;
  the database stores what the escaped literal denotes, the truncated note itself.
\<close>

definition SetFriendNote :: "social_world \<Rightarrow> u32 \<Rightarrow> string \<Rightarrow> player_social \<Rightarrow> social_db \<Rightarrow> player_social \<times> social_db" where
  "SetFriendNote w friend_guid note ps db =
     (case om_find friend_guid (ps_map ps) of
        None \<Rightarrow> (ps, db)
      | Some i \<Rightarrow>
          let short = sw_truncate w note; escaped = sw_escape w short
          in (ps\<lparr>ps_map := om_set friend_guid (i\<lparr>fi_Note := escaped\<rparr>) (ps_map ps)\<rparr>,
              db_set_note short (ps_guid ps) friend_guid db))"

section \<open>The manager\<close>

definition GetSocial :: "u32 \<Rightarrow> social \<Rightarrow> player_social option" where
  "GetSocial g st = om_find g (so_map st)"

definition send_to :: "u32 \<Rightarrow> packet \<Rightarrow> social \<Rightarrow> social" where
  "send_to g p st = st\<lparr>so_out := so_out st @ [(g, p)]\<rparr>"

definition RemovePlayerSocial :: "u32 \<Rightarrow> social \<Rightarrow> social" where
  "RemovePlayerSocial g st = st\<lparr>so_map := om_erase g (so_map st)\<rparr>"

text \<open>Who is shown as online to whom.\<close>

definition shows_friend :: "social_world \<Rightarrow> social_player \<Rightarrow> social_player \<Rightarrow> bool" where
  "shows_friend w player pFriend \<longleftrightarrow>
     sp_name pFriend \<noteq> ''''
     \<and> (sp_security player > 0
        \<or> ((sp_team pFriend = sp_team player \<or> sw_two_side_who w) \<and> sp_security pFriend \<le> sw_gm_level_who w))
     \<and> sw_visible w (sp_guid pFriend) (sp_guid player)"

definition GetFriendInfo :: "social_world \<Rightarrow> social_player \<Rightarrow> u32 \<Rightarrow> friend_info \<Rightarrow> social \<Rightarrow> friend_info option" where
  "GetFriendInfo w player friendGUID fi st =
     (let fi = fi\<lparr>fi_Status := 0, fi_Area := 0, fi_Level := 0, fi_Class := 0\<rparr>
      in case sw_connected w friendGUID of
           None \<Rightarrow> Some fi
         | Some pFriend \<Rightarrow>
             (case GetSocial (sp_guid player) st of
                None \<Rightarrow> None
              | Some ps \<Rightarrow>
                  let fi = (case om_find friendGUID (ps_map ps) of
                              None \<Rightarrow> fi | Some i \<Rightarrow> fi\<lparr>fi_Note := fi_Note i\<rparr>)
                  in Some (if shows_friend w player pFriend
                           then fi\<lparr>fi_Status := (if sp_dnd pFriend then 4 else if sp_afk pFriend then 2 else 1),
                                   fi_Area := sp_zone pFriend, fi_Level := sp_level pFriend,
                                   fi_Class := sp_class pFriend\<rparr>
                           else fi)))"

definition friend_items :: "u32 \<Rightarrow> friend_info \<Rightarrow> item list" where
  "friend_items g i =
     [I64 (ucast g), I32 (fi_Flags i), str_item (fi_Note i)] @
     (if fi_Flags i AND FRIEND \<noteq> 0
      then [I8 (fi_Status i)] @ (if fi_Status i \<noteq> 0 then [I32 (fi_Area i), I32 (fi_Level i), I32 (fi_Class i)] else [])
      else [])"

text \<open>The loop of \<open>SendSocialList\<close>: it refreshes each entry and writes it.\<close>

fun send_list_loop ::
  "social_world \<Rightarrow> social_player \<Rightarrow> u32 \<Rightarrow> (u32 \<times> friend_info) list \<Rightarrow> item list \<Rightarrow> social \<Rightarrow> (item list \<times> social) option" where
  "send_list_loop w plr g [] items st = Some (items, st)"
| "send_list_loop w plr g (e # es) items st =
     (case GetFriendInfo w plr (fst e) (snd e) st of
        None \<Rightarrow> None
      | Some fi \<Rightarrow>
          (case GetSocial g st of
             None \<Rightarrow> None
           | Some ps \<Rightarrow>
               let st = st\<lparr>so_map := om_set g (ps\<lparr>ps_map := om_set (fst e) fi (ps_map ps)\<rparr>) (so_map st)\<rparr>
               in send_list_loop w plr g es (items @ friend_items (fst e) fi) st))"

definition SendSocialList :: "social_world \<Rightarrow> u32 \<Rightarrow> social \<Rightarrow> social option" where
  "SendSocialList w owner st =
     (case GetSocial owner st of
        None \<Rightarrow> None
      | Some ps \<Rightarrow>
          (case sw_connected w (ps_guid ps) of
             None \<Rightarrow> Some st
           | Some plr \<Rightarrow>
               (case send_list_loop w plr owner (ps_map ps)
                       [I32 7, I32 (of_nat (length (ps_map ps)))] st of
                  None \<Rightarrow> None
                | Some (items, st) \<Rightarrow> Some (send_to (ps_guid ps) (Packet ''SMSG_CONTACT_LIST'' items) st))))"

definition BroadcastToFriendListers :: "social_world \<Rightarrow> social_player \<Rightarrow> packet \<Rightarrow> social \<Rightarrow> social" where
  "BroadcastToFriendListers w player p st =
     st\<lparr>so_out := so_out st @
        map (\<lambda>e. (fst e, p))
          (filter (\<lambda>e. HasFriend (sp_guid player) (snd e) \<and>
             (case sw_find w (fst e) of
                None \<Rightarrow> False
              | Some f \<Rightarrow> sp_in_world f
                  \<and> (sp_security f > 0 \<or> sp_team f = sp_team player
                     \<or> (sw_two_side_who w \<and> sp_security player \<le> sw_gm_level_who w))
                  \<and> sw_visible w (sp_guid player) (sp_guid f)))
             (so_map st))\<rparr>"

definition SendFriendStatus ::
  "social_world \<Rightarrow> social_player \<Rightarrow> friends_result \<Rightarrow> u32 \<Rightarrow> bool \<Rightarrow> social \<Rightarrow> social option" where
  "SendFriendStatus w player result friend_guid broadcast st =
     (case GetFriendInfo w player friend_guid (FriendInfo 0 '''') st of
        None \<Rightarrow> None
      | Some fi \<Rightarrow>
          let p = Packet ''SMSG_FRIEND_STATUS''
                ([I8 (result_code result), I64 (ucast friend_guid)] @
                 (if result = FriendAddedOffline \<or> result = FriendAddedOnline then [str_item (fi_Note fi)] else []) @
                 (if result = FriendAddedOnline \<or> result = FriendOnline
                  then [I8 (fi_Status fi), I32 (fi_Area fi), I32 (fi_Level fi), I32 (fi_Class fi)] else []))
          in Some (if broadcast then BroadcastToFriendListers w player p st else send_to (sp_guid player) p st))"

definition GetDefault :: "u32 \<Rightarrow> social \<Rightarrow> social" where
  "GetDefault g st =
     st\<lparr>so_map := om_set g ((om_at PlayerSocial_init g (so_map st))\<lparr>ps_guid := g\<rparr>) (so_map st)\<rparr>"

text \<open>The rows of the query, up to the client's limit.\<close>

fun load_rows :: "(u32 \<times> u32 \<times> string) list \<Rightarrow> (u32, friend_info) omap \<Rightarrow> (u32, friend_info) omap" where
  "load_rows [] m = m"
| "load_rows ((f, flags, note) # rows) m =
     (let m = om_set f (FriendInfo flags note) m
      in if length m \<ge> FRIEND_LIMIT + IGNORE_LIMIT then m else load_rows rows m)"

definition LoadFromDB :: "(u32 \<times> u32 \<times> string) list \<Rightarrow> u32 \<Rightarrow> social \<Rightarrow> social" where
  "LoadFromDB rows g st =
     (let ps = (om_at PlayerSocial_init g (so_map st))\<lparr>ps_guid := g\<rparr>
      in st\<lparr>so_map := om_set g (ps\<lparr>ps_map := load_rows rows (ps_map ps)\<rparr>) (so_map st)\<rparr>)"

section \<open>The handlers\<close>

text \<open>An operation on the player's own list and the table.\<close>

definition on_social ::
  "u32 \<Rightarrow> (player_social \<Rightarrow> social_db \<Rightarrow> 'r \<times> player_social \<times> social_db) \<Rightarrow> social \<Rightarrow> ('r \<times> social) option" where
  "on_social g f st =
     (case GetSocial g st of
        None \<Rightarrow> None
      | Some ps \<Rightarrow>
          (case f ps (so_db st) of
             (r, ps, db) \<Rightarrow> Some (r, st\<lparr>so_map := om_set g ps (so_map st), so_db := db\<rparr>)))"

definition set_note :: "social_world \<Rightarrow> u32 \<Rightarrow> string \<Rightarrow> u32 \<Rightarrow> social \<Rightarrow> social option" where
  "set_note w friend_guid note g st =
     map_option snd (on_social g (\<lambda>ps db. ((), SetFriendNote w friend_guid note ps db)) st)"

text \<open>
  The part of \<open>HandleAddFriendOpcode\<close> that decides, for a friend the character cache knows:
  the result and the lists afterwards.
\<close>

definition add_friend :: "social_world \<Rightarrow> social_player \<Rightarrow> u32 \<Rightarrow> u32 \<Rightarrow> social \<Rightarrow> (friends_result \<times> social) option" where
  "add_friend w player friendGuid team st =
     (case GetSocial (sp_guid player) st of
        None \<Rightarrow> None
      | Some ps \<Rightarrow>
          if friendGuid = sp_guid player then Some (FriendSelf, st)
          else if sp_team player \<noteq> team \<and> \<not> sw_two_side_add w \<and> sp_security player < 1 then Some (FriendEnemy, st)
          else if HasFriend friendGuid ps then Some (FriendAlready, st)
          else
            let online = (case sw_find w friendGuid of
                            None \<Rightarrow> False
                          | Some f \<Rightarrow> sp_in_world f \<and> sw_visible w friendGuid (sp_guid player))
            in map_option (\<lambda>(added, st). (if \<not> added then FriendListFull
                              else if online then FriendAddedOnline else FriendAddedOffline, st))
                 (on_social (sp_guid player) (AddToSocialList friendGuid False) st))"

definition HandleAddFriend :: "social_world \<Rightarrow> social_player \<Rightarrow> string \<Rightarrow> string \<Rightarrow> social \<Rightarrow> social option" where
  "HandleAddFriend w player friendName friendNote st =
     (case sw_normalize w friendName of
        None \<Rightarrow> Some st
      | Some name \<Rightarrow>
          let friendGuid = sw_guid_by_name w name
          in case (if friendGuid = 0 then None else sw_cache w friendGuid) of
               None \<Rightarrow> SendFriendStatus w player FriendNotFound friendGuid False st
             | Some (team, account) \<Rightarrow>
                 if sp_security player \<ge> 1 \<or> sw_allow_gm_friend w \<or> sw_account_security w account < 1
                 then (case add_friend w player friendGuid team st of
                         None \<Rightarrow> None
                       | Some (result, st) \<Rightarrow>
                           (case set_note w friendGuid friendNote (sp_guid player) st of
                              None \<Rightarrow> None
                            | Some st \<Rightarrow> SendFriendStatus w player result friendGuid False st))
                 else SendFriendStatus w player FriendNotFound friendGuid False st)"

definition HandleDelFriend :: "social_world \<Rightarrow> social_player \<Rightarrow> u64 \<Rightarrow> social \<Rightarrow> social option" where
  "HandleDelFriend w player friendGUID st =
     (case on_social (sp_guid player) (\<lambda>ps db. ((), RemoveFromSocialList (ucast friendGUID) False ps db)) st of
        None \<Rightarrow> None
      | Some (_, st) \<Rightarrow> SendFriendStatus w player FriendRemoved (ucast friendGUID) False st)"

definition HandleAddIgnore :: "social_world \<Rightarrow> social_player \<Rightarrow> string \<Rightarrow> social \<Rightarrow> social option" where
  "HandleAddIgnore w player ignoreName st =
     (case sw_normalize w ignoreName of
        None \<Rightarrow> Some st
      | Some name \<Rightarrow>
          let g = sw_guid_by_name w name
          in if g = 0 then SendFriendStatus w player IgnoreNotFound g False st
             else if g = sp_guid player then SendFriendStatus w player IgnoreSelf g False st
             else (case GetSocial (sp_guid player) st of
                     None \<Rightarrow> None
                   | Some ps \<Rightarrow>
                       if HasIgnore g ps then SendFriendStatus w player IgnoreAlready g False st
                       else (case on_social (sp_guid player) (AddToSocialList g True) st of
                               None \<Rightarrow> None
                             | Some (added, st) \<Rightarrow>
                                 SendFriendStatus w player (if added then IgnoreAdded else IgnoreFull) g False st)))"

definition HandleDelIgnore :: "social_world \<Rightarrow> social_player \<Rightarrow> u64 \<Rightarrow> social \<Rightarrow> social option" where
  "HandleDelIgnore w player ignoreGUID st =
     (case on_social (sp_guid player) (\<lambda>ps db. ((), RemoveFromSocialList (ucast ignoreGUID) True ps db)) st of
        None \<Rightarrow> None
      | Some (_, st) \<Rightarrow> SendFriendStatus w player IgnoreRemoved (ucast ignoreGUID) False st)"

definition HandleSetContactNotes :: "social_world \<Rightarrow> social_player \<Rightarrow> u64 \<Rightarrow> string \<Rightarrow> social \<Rightarrow> social option" where
  "HandleSetContactNotes w player guid note st = set_note w (ucast guid) note (sp_guid player) st"

definition HandleContactList :: "social_world \<Rightarrow> social_player \<Rightarrow> social \<Rightarrow> social option" where
  "HandleContactList w player st = SendSocialList w (sp_guid player) st"


section \<open>Memory and database\<close>

text \<open>The table holds a row for each entry of the list, with the same flags, and no other row of the player.\<close>

definition mirror :: "player_social \<Rightarrow> social_db \<Rightarrow> bool" where
  "mirror ps db \<longleftrightarrow> (\<forall>f. map_option fst (db (ps_guid ps, f)) = map_option fi_Flags (om_find f (ps_map ps)))"

definition list_ok :: "player_social \<Rightarrow> social_db \<Rightarrow> bool" where
  "list_ok ps db \<longleftrightarrow> om_ok (ps_map ps) \<and> mirror ps db"

lemma mirrorD: "mirror ps db \<Longrightarrow> map_option fst (db (ps_guid ps, f)) = map_option fi_Flags (om_find f (ps_map ps))"
  by (simp add: mirror_def)

text \<open>What an operation on one list leaves alone.\<close>

definition own_rows_only :: "u32 \<Rightarrow> social_db \<Rightarrow> social_db \<Rightarrow> bool" where
  "own_rows_only g db db' \<longleftrightarrow> (\<forall>h f. h \<noteq> g \<longrightarrow> db' (h, f) = db (h, f))"

lemma db_set_flags_own: "own_rows_only g db (db_set_flags f g h db)"
  by (simp add: own_rows_only_def db_set_flags_def split: option.split)

lemma db_set_note_own: "own_rows_only g db (db_set_note n g h db)"
  by (simp add: own_rows_only_def db_set_note_def split: option.split)

lemma db_set_flags_fst:
  "map_option fst (db_set_flags f g h db (g, k)) =
     (if k = h then map_option f (map_option fst (db (g, h))) else map_option fst (db (g, k)))"
  by (auto simp: db_set_flags_def split: option.split)

lemma db_set_note_fst: "map_option fst (db_set_note n g h db (g, k)) = map_option fst (db (g, k))"
  by (auto simp: db_set_note_def split: option.split)

lemma Add_ok:
  assumes "AddToSocialList f ign ps db = (r, ps', db')" and "list_ok ps db"
  shows "list_ok ps' db' \<and> ps_guid ps' = ps_guid ps \<and> own_rows_only (ps_guid ps) db db'"
proof (cases "r")
  case False
  then have "ps' = ps" "db' = db" using assms(1)
    by (auto simp: AddToSocialList_def Let_def split: if_splits option.splits)
  with assms(2) show ?thesis by (simp add: own_rows_only_def)
next
  case True
  let ?flag = "if ign then IGNORED else FRIEND"
  have m: "\<And>k. map_option fst (db (ps_guid ps, k)) = map_option fi_Flags (om_find k (ps_map ps))"
    and ok: "om_ok (ps_map ps)" using assms(2) by (auto simp: list_ok_def mirror_def)
  show ?thesis
  proof (cases "om_find f (ps_map ps)")
    case None
    then have e: "ps' = ps\<lparr>ps_map := om_set f (FriendInfo ?flag '''') (ps_map ps)\<rparr>"
      "db' = db((ps_guid ps, f) \<mapsto> (?flag, ''''))"
      using assms(1) True by (auto simp: AddToSocialList_def Let_def split: if_splits)
    show ?thesis
      unfolding e list_ok_def mirror_def own_rows_only_def
      using ok m by (auto simp: om_simps FriendInfo_def)
  next
    case (Some i)
    then have e: "ps' = ps\<lparr>ps_map := om_set f (i\<lparr>fi_Flags := fi_Flags i OR ?flag\<rparr>) (ps_map ps)\<rparr>"
      "db' = db_set_flags (\<lambda>x. x OR ?flag) (ps_guid ps) f db"
      using assms(1) True by (auto simp: AddToSocialList_def Let_def split: if_splits)
    show ?thesis
      unfolding e list_ok_def mirror_def using ok m Some db_set_flags_own
      by (simp add: om_simps db_set_flags_fst)
  qed
qed

lemma Remove_ok:
  assumes "RemoveFromSocialList f ign ps db = (ps', db')" and "list_ok ps db"
  shows "list_ok ps' db' \<and> ps_guid ps' = ps_guid ps \<and> own_rows_only (ps_guid ps) db db'"
proof (cases "om_find f (ps_map ps)")
  case None
  with assms show ?thesis by (simp add: RemoveFromSocialList_def own_rows_only_def)
next
  case (Some i)
  let ?flag = "if ign then IGNORED else FRIEND"
  have m: "\<And>k. map_option fst (db (ps_guid ps, k)) = map_option fi_Flags (om_find k (ps_map ps))"
    and ok: "om_ok (ps_map ps)" using assms(2) by (auto simp: list_ok_def mirror_def)
  show ?thesis
  proof (cases "fi_Flags i AND NOT ?flag = 0")
    case True
    then have e: "ps' = ps\<lparr>ps_map := om_erase f (ps_map ps)\<rparr>" "db' = db((ps_guid ps, f) := None)"
      using assms(1) Some by (auto simp: RemoveFromSocialList_def Let_def)
    show ?thesis
      unfolding e list_ok_def mirror_def own_rows_only_def using ok m by (auto simp: om_simps)
  next
    case False
    then have e: "ps' = ps\<lparr>ps_map := om_set f (i\<lparr>fi_Flags := fi_Flags i AND NOT ?flag\<rparr>) (ps_map ps)\<rparr>"
      "db' = db_set_flags (\<lambda>x. x AND NOT ?flag) (ps_guid ps) f db"
      using assms(1) Some by (auto simp: RemoveFromSocialList_def Let_def split: if_splits)
    show ?thesis
      unfolding e list_ok_def mirror_def using ok m Some db_set_flags_own
      by (simp add: om_simps db_set_flags_fst)
  qed
qed

lemma Note_ok:
  assumes "SetFriendNote w f note ps db = (ps', db')" and "list_ok ps db"
  shows "list_ok ps' db' \<and> ps_guid ps' = ps_guid ps \<and> own_rows_only (ps_guid ps) db db'"
proof (cases "om_find f (ps_map ps)")
  case None
  with assms show ?thesis by (simp add: SetFriendNote_def own_rows_only_def)
next
  case (Some i)
  then have e: "ps' = ps\<lparr>ps_map := om_set f (i\<lparr>fi_Note := sw_escape w (sw_truncate w note)\<rparr>) (ps_map ps)\<rparr>"
    "db' = db_set_note (sw_truncate w note) (ps_guid ps) f db"
    using assms(1) by (auto simp: SetFriendNote_def Let_def)
  show ?thesis
    unfolding e using assms(2) Some db_set_note_own
    by (simp add: list_ok_def mirror_def om_simps db_set_note_fst)
qed


definition social_ok :: "social \<Rightarrow> bool" where
  "social_ok st \<longleftrightarrow> (\<forall>g ps. om_find g (so_map st) = Some ps \<longrightarrow> ps_guid ps = g \<and> list_ok ps (so_db st))"

lemma social_okD: "social_ok st \<Longrightarrow> GetSocial g st = Some ps \<Longrightarrow> ps_guid ps = g \<and> list_ok ps (so_db st)"
  by (simp add: social_ok_def GetSocial_def)

lemma list_ok_other: "list_ok ps db \<Longrightarrow> own_rows_only g db db' \<Longrightarrow> ps_guid ps \<noteq> g \<Longrightarrow> list_ok ps db'"
  by (simp add: list_ok_def mirror_def own_rows_only_def)

lemma social_ok_put:
  assumes "social_ok st" and "ps_guid ps = g" and "list_ok ps db" and "own_rows_only g (so_db st) db"
  shows "social_ok (st\<lparr>so_map := om_set g ps (so_map st), so_db := db\<rparr>)"
  unfolding social_ok_def
proof (intro allI impI)
  fix h qs assume f: "om_find h (so_map (st\<lparr>so_map := om_set g ps (so_map st), so_db := db\<rparr>)) = Some qs"
  show "ps_guid qs = h \<and> list_ok qs (so_db (st\<lparr>so_map := om_set g ps (so_map st), so_db := db\<rparr>))"
  proof (cases "h = g")
    case True
    with f assms show ?thesis by (simp add: om_simps)
  next
    case False
    with f have "om_find h (so_map st) = Some qs" by (simp add: om_simps)
    with assms(1) have "ps_guid qs = h" "list_ok qs (so_db st)" by (auto simp: social_ok_def)
    with False assms(4) show ?thesis by (auto intro: list_ok_other)
  qed
qed

lemma social_ok_out [simp]: "social_ok (st\<lparr>so_out := out\<rparr>) = social_ok st"
  by (simp add: social_ok_def)

lemma send_to_ok [simp]: "social_ok (send_to g p st) = social_ok st" "so_map (send_to g p st) = so_map st"
  "so_db (send_to g p st) = so_db st"
  by (simp_all add: send_to_def)

lemma on_social_ok:
  assumes "on_social g f st = Some (r, st')" and "social_ok st"
    and "\<And>ps db r ps' db'. f ps db = (r, ps', db') \<Longrightarrow> list_ok ps db \<Longrightarrow>
        list_ok ps' db' \<and> ps_guid ps' = ps_guid ps \<and> own_rows_only (ps_guid ps) db db'"
  shows "social_ok st'"
proof -
  obtain ps where ps: "GetSocial g st = Some ps" using assms(1) by (auto simp: on_social_def split: option.splits)
  obtain r' ps' db' where f: "f ps (so_db st) = (r', ps', db')" by (cases "f ps (so_db st)")
  have "ps_guid ps = g" "list_ok ps (so_db st)" using social_okD [OF assms(2) ps] by auto
  with assms(3) [OF f] have "list_ok ps' db'" "ps_guid ps' = g" "own_rows_only g (so_db st) db'" by auto
  moreover have "st' = st\<lparr>so_map := om_set g ps' (so_map st), so_db := db'\<rparr>"
    using assms(1) ps f by (simp add: on_social_def)
  ultimately show ?thesis using assms(2) by (simp add: social_ok_put)
qed

lemma set_note_ok: "set_note w f note g st = Some st' \<Longrightarrow> social_ok st \<Longrightarrow> social_ok st'"
  unfolding set_note_def by (auto elim!: on_social_ok dest: Note_ok)

lemma add_on_social_ok: "on_social g (AddToSocialList f ign) st = Some (r, st') \<Longrightarrow> social_ok st \<Longrightarrow> social_ok st'"
  by (erule on_social_ok) (auto dest: Add_ok)

lemma remove_on_social_ok:
  "on_social g (\<lambda>ps db. ((), RemoveFromSocialList f ign ps db)) st = Some (r, st') \<Longrightarrow> social_ok st \<Longrightarrow> social_ok st'"
  by (erule on_social_ok) (auto dest: Remove_ok)

lemma Broadcast_ok [simp]: "social_ok (BroadcastToFriendListers w p pk st) = social_ok st"
  by (simp add: BroadcastToFriendListers_def)

lemma SendFriendStatus_ok: "SendFriendStatus w p r f b st = Some st' \<Longrightarrow> social_ok st \<Longrightarrow> social_ok st'"
  by (auto simp: SendFriendStatus_def Let_def split: option.splits if_splits)

lemma add_friend_ok: "add_friend w p f team st = Some (r, st') \<Longrightarrow> social_ok st \<Longrightarrow> social_ok st'"
  by (auto simp: add_friend_def Let_def intro: add_on_social_ok split: option.splits if_splits)

lemma GetFriendInfo_flags: "GetFriendInfo w p g fi st = Some fi' \<Longrightarrow> fi_Flags fi' = fi_Flags fi"
  by (auto simp: GetFriendInfo_def Let_def split: option.splits if_splits)

lemma send_list_loop_ok:
  "send_list_loop w plr g es items st = Some (r, st') \<Longrightarrow> social_ok st \<Longrightarrow>
     (\<forall>e \<in> set es. \<forall>ps. GetSocial g st = Some ps \<longrightarrow>
        map_option fi_Flags (om_find (fst e) (ps_map ps)) = Some (fi_Flags (snd e))) \<Longrightarrow> social_ok st'"
proof (induction es arbitrary: items st)
  case Nil
  then show ?case by simp
next
  case (Cons e es)
  obtain fi ps where fi: "GetFriendInfo w plr (fst e) (snd e) st = Some fi" and ps: "GetSocial g st = Some ps"
    using Cons.prems(1) by (auto split: option.splits)
  let ?ps = "ps\<lparr>ps_map := om_set (fst e) fi (ps_map ps)\<rparr>"
  let ?st = "st\<lparr>so_map := om_set g ?ps (so_map st)\<rparr>"
  have run: "send_list_loop w plr g es (items @ friend_items (fst e) fi) ?st = Some (r, st')"
    using Cons.prems(1) fi ps by (simp add: Let_def)
  have flags: "fi_Flags fi = fi_Flags (snd e)" using fi by (rule GetFriendInfo_flags)
  have old: "map_option fi_Flags (om_find (fst e) (ps_map ps)) = Some (fi_Flags (snd e))"
    using Cons.prems(3) ps by auto
  have same: "map_option fi_Flags (om_find k (ps_map ?ps)) = map_option fi_Flags (om_find k (ps_map ps))" for k
    using old flags by (auto simp: om_simps)
  have "ps_guid ps = g" "list_ok ps (so_db st)" using social_okD [OF Cons.prems(2) ps] by auto
  then have "list_ok ?ps (so_db st)" "ps_guid ?ps = g"
    using same by (simp_all add: list_ok_def mirror_def)
  then have "social_ok ?st"
    using social_ok_put [OF Cons.prems(2), of ?ps g "so_db st"] by (simp add: own_rows_only_def)
  moreover have "GetSocial g ?st = Some ?ps" by (simp add: GetSocial_def om_simps)
  moreover have "\<forall>e' \<in> set es. map_option fi_Flags (om_find (fst e') (ps_map ?ps)) = Some (fi_Flags (snd e'))"
    unfolding same using Cons.prems(3) ps by simp
  ultimately show ?case
    by (intro Cons.IH [OF run]) (metis option.inject)+
qed

lemma SendSocialList_ok:
  assumes "SendSocialList w g st = Some st'" and "social_ok st"
  shows "social_ok st'"
proof -
  obtain ps where ps: "GetSocial g st = Some ps" using assms(1) by (auto simp: SendSocialList_def split: option.splits)
  have "om_ok (ps_map ps)" using social_okD [OF assms(2) ps] by (simp add: list_ok_def)
  then have "\<forall>e \<in> set (ps_map ps). om_find (fst e) (ps_map ps) = Some (snd e)"
    using om_ok_find by fastforce
  then have "send_list_loop w plr g (ps_map ps) items st = Some (r, st2) \<Longrightarrow> social_ok st2" for plr items r st2
    using send_list_loop_ok [OF _ assms(2), of w plr g "ps_map ps" items r st2] ps by auto
  with assms ps show ?thesis
    by (auto simp: SendSocialList_def split: option.splits prod.splits)
qed

section \<open>Any sequence of requests\<close>

text \<open>
  \<open>SLoad\<close> is the login: the rows are those the query returns for the player, and there are fewer
  than the limit at which the load stops. \<open>SLogout\<close> frees the list.
\<close>

datatype social_call =
    SAddFriend social_player string string | SDelFriend social_player u64 | SAddIgnore social_player string
  | SDelIgnore social_player u64 | SNotes social_player u64 string | SContactList social_player
  | SStatus social_player friends_result u32 bool | SLoad u32 "(u32 \<times> u32 \<times> string) list" | SLogout u32

definition rows_match :: "social_db \<Rightarrow> u32 \<Rightarrow> (u32 \<times> u32 \<times> string) list \<Rightarrow> bool" where
  "rows_match db g rows \<longleftrightarrow> distinct (map fst rows) \<and> length rows < FRIEND_LIMIT + IGNORE_LIMIT
     \<and> (\<forall>f. db (g, f) = map_of rows f)"

fun social_step :: "social \<Rightarrow> social_world \<times> social_call \<Rightarrow> social option" where
  "social_step st (w, SAddFriend p n note) = HandleAddFriend w p n note st"
| "social_step st (w, SDelFriend p g) = HandleDelFriend w p g st"
| "social_step st (w, SAddIgnore p n) = HandleAddIgnore w p n st"
| "social_step st (w, SDelIgnore p g) = HandleDelIgnore w p g st"
| "social_step st (w, SNotes p g note) = HandleSetContactNotes w p g note st"
| "social_step st (w, SContactList p) = HandleContactList w p st"
| "social_step st (w, SStatus p r f b) = SendFriendStatus w p r f b st"
| "social_step st (w, SLoad g rows) =
     (if GetSocial g st = None \<and> rows_match (so_db st) g rows then Some (LoadFromDB rows g st) else Some st)"
| "social_step st (w, SLogout g) = Some (RemovePlayerSocial g st)"

lemma om_set_length: "length (om_set k v m) \<le> Suc (length m)"
  by (induction m) auto

lemma load_rows_all:
  "length m + length rows < FRIEND_LIMIT + IGNORE_LIMIT \<Longrightarrow>
     load_rows rows m = foldl (\<lambda>m (f, flags, note). om_set f (FriendInfo flags note) m) m rows"
proof (induction rows m rule: load_rows.induct)
  case (2 f flags n rows m)
  then show ?case
    using om_set_length [of f "FriendInfo flags n" m] by (simp add: Let_def)
qed simp

lemma foldl_rows_find:
  "distinct (map fst rows) \<Longrightarrow>
     map_option fi_Flags (om_find k (foldl (\<lambda>m (f, flags, note). om_set f (FriendInfo flags note) m) m rows)) =
     (case map_of rows k of None \<Rightarrow> map_option fi_Flags (om_find k m) | Some (flags, note) \<Rightarrow> Some flags)"
proof (induction rows arbitrary: m)
  case Nil
  then show ?case by simp
next
  case (Cons row rows)
  obtain f flags n where row: "row = (f, flags, n)" by (cases row)
  have "map_of rows f = None" using Cons.prems row by (simp add: map_of_eq_None_iff)
  with Cons row show ?case by (auto simp: om_simps FriendInfo_def split: option.splits)
qed

lemma foldl_rows_ok: "om_ok m \<Longrightarrow> om_ok (foldl (\<lambda>m (f, flags, note). om_set f (FriendInfo flags note) m) m rows)"
  by (induction rows arbitrary: m) (auto split: prod.splits)

lemma LoadFromDB_ok:
  assumes "social_ok st" and "GetSocial g st = None" and "rows_match (so_db st) g rows"
  shows "social_ok (LoadFromDB rows g st)"
proof -
  let ?ps = "PlayerSocial_init\<lparr>ps_guid := g, ps_map := load_rows rows []\<rparr>"
  have all: "load_rows rows [] = foldl (\<lambda>m (f, flags, note). om_set f (FriendInfo flags note) m) [] rows"
    using assms(3) by (intro load_rows_all) (simp add: rows_match_def)
  have dist: "distinct (map fst rows)" and db: "\<And>f. so_db st (g, f) = map_of rows f"
    using assms(3) by (auto simp: rows_match_def)
  have "map_option fst (so_db st (g, f)) = map_option fi_Flags (om_find f (ps_map ?ps))" for f
    using foldl_rows_find [OF dist, of f "[]"] db [of f] unfolding all [symmetric]
    by (simp add: om_simps split: option.splits)
  then have "list_ok ?ps (so_db st)"
    using foldl_rows_ok [of "[]" rows] by (simp add: list_ok_def mirror_def all)
  moreover have "LoadFromDB rows g st = st\<lparr>so_map := om_set g ?ps (so_map st), so_db := so_db st\<rparr>"
    using assms(2) by (simp add: LoadFromDB_def Let_def om_at_def GetSocial_def PlayerSocial_init_def)
  ultimately show ?thesis
    using social_ok_put [OF assms(1), of ?ps g "so_db st"] by (simp add: own_rows_only_def)
qed

lemma RemovePlayerSocial_ok: "social_ok st \<Longrightarrow> social_ok (RemovePlayerSocial g st)"
  by (simp add: social_ok_def RemovePlayerSocial_def om_simps)

lemma HandleAddFriend_ok: "HandleAddFriend w p n nt st = Some st' \<Longrightarrow> social_ok st \<Longrightarrow> social_ok st'"
  unfolding HandleAddFriend_def Let_def
  by (auto split: option.splits if_splits) (meson add_friend_ok set_note_ok SendFriendStatus_ok)+

lemma HandleAddIgnore_ok: "HandleAddIgnore w p n st = Some st' \<Longrightarrow> social_ok st \<Longrightarrow> social_ok st'"
  unfolding HandleAddIgnore_def Let_def
  by (auto split: option.splits if_splits) (meson add_on_social_ok SendFriendStatus_ok)+

lemma HandleDel_ok:
  "HandleDelFriend w p g st = Some st' \<Longrightarrow> social_ok st \<Longrightarrow> social_ok st'"
  "HandleDelIgnore w p g st = Some st' \<Longrightarrow> social_ok st \<Longrightarrow> social_ok st'"
  by (auto simp: HandleDelFriend_def HandleDelIgnore_def split: option.splits
      dest: remove_on_social_ok SendFriendStatus_ok)

interpretation social: fallible_machine social_step social_ok
proof unfold_locales
  fix st c t assume ok: "social_ok st" and "social_step st c = Some t"
  then show "social_ok t"
    by (cases "(st, c)" rule: social_step.cases)
       (auto simp: HandleSetContactNotes_def HandleContactList_def LoadFromDB_ok RemovePlayerSocial_ok split: if_splits
         dest: HandleAddFriend_ok HandleAddIgnore_ok HandleDel_ok set_note_ok SendSocialList_ok SendFriendStatus_ok)
qed





section \<open>Friends and ignores\<close>

lemma flag_cases: "FRIEND AND FRIEND = FRIEND" "FRIEND AND IGNORED = 0" "IGNORED AND FRIEND = 0" "IGNORED AND IGNORED = IGNORED"
  "FRIEND \<noteq> 0" "IGNORED \<noteq> 0"
  by (simp_all add: FRIEND_def IGNORED_def)

lemma or_and_distrib: "(x OR y) AND z = (x AND z) OR (y AND z)" for x :: u32
  by (simp add: bit_eq_iff bit_and_iff bit_or_iff) blast

lemma or_eq_0_word: "x OR y = 0 \<longleftrightarrow> x = 0 \<and> y = 0" for x :: u32
  by (simp add: word_eq_0_bits bit_or_iff) blast

lemma count_with_flag: "GetNumberOfSocialsWithFlag flag ps = om_count (\<lambda>i. fi_Flags i AND flag \<noteq> 0) (ps_map ps)"
  by (simp add: GetNumberOfSocialsWithFlag_def om_count_def)

text \<open>
  C25: \<open>AddToSocialList\<close> refuses exactly when the list is full, and then changes nothing; otherwise
  the player is afterwards a friend (or ignored), his other mark and everybody else's marks are as
  before, and the limits of 50 friends and 25 ignored players still hold.
\<close>

theorem AddToSocialList_correct:
  assumes "om_ok (ps_map ps)"
    and "GetNumberOfSocialsWithFlag FRIEND ps \<le> FRIEND_LIMIT" and "GetNumberOfSocialsWithFlag IGNORED ps \<le> IGNORE_LIMIT"
  shows "case AddToSocialList f ign ps db of (added, ps', db') \<Rightarrow>
    (added \<longleftrightarrow> (if ign then GetNumberOfSocialsWithFlag IGNORED ps < IGNORE_LIMIT
                else GetNumberOfSocialsWithFlag FRIEND ps < FRIEND_LIMIT))
    \<and> (HasFriend g ps' \<longleftrightarrow> HasFriend g ps \<or> (added \<and> \<not> ign \<and> g = f))
    \<and> (HasIgnore g ps' \<longleftrightarrow> HasIgnore g ps \<or> (added \<and> ign \<and> g = f))
    \<and> GetNumberOfSocialsWithFlag FRIEND ps' \<le> FRIEND_LIMIT \<and> GetNumberOfSocialsWithFlag IGNORED ps' \<le> IGNORE_LIMIT
    \<and> (\<not> added \<longrightarrow> ps' = ps \<and> db' = db)"
proof -
  obtain added ps' db' where r: "AddToSocialList f ign ps db = (added, ps', db')"
    by (cases "AddToSocialList f ign ps db")
  let ?flag = "if ign then IGNORED else FRIEND"
  let ?old = "case om_find f (ps_map ps) of None \<Rightarrow> 0 | Some i \<Rightarrow> fi_Flags i"
  have flags: "(x OR ?flag) AND FRIEND \<noteq> 0 \<longleftrightarrow> x AND FRIEND \<noteq> 0 \<or> \<not> ign"
    "(x OR ?flag) AND IGNORED \<noteq> 0 \<longleftrightarrow> x AND IGNORED \<noteq> 0 \<or> ign" for x :: u32
    using flag_cases by (auto simp: or_and_distrib or_eq_0_word)
  show ?thesis
  proof (cases added)
    case False
    with r assms show ?thesis by (auto simp: AddToSocialList_def Let_def split: if_splits option.splits)
  next
    case True
    obtain i where ps': "ps' = ps\<lparr>ps_map := om_set f i (ps_map ps)\<rparr>" and i: "fi_Flags i = ?old OR ?flag"
      using r True by (auto simp: AddToSocialList_def Let_def FriendInfo_def split: if_splits option.splits)
    have room: "if ign then GetNumberOfSocialsWithFlag IGNORED ps < IGNORE_LIMIT
                else GetNumberOfSocialsWithFlag FRIEND ps < FRIEND_LIMIT"
      using r True by (auto simp: AddToSocialList_def split: if_splits)
    have counts: "GetNumberOfSocialsWithFlag flag ps' + (if ?old AND flag \<noteq> 0 then 1 else 0)
        = GetNumberOfSocialsWithFlag flag ps + (if (?old OR ?flag) AND flag \<noteq> 0 then 1 else 0)" for flag
      using om_count_set [OF assms(1), of "\<lambda>i. fi_Flags i AND flag \<noteq> 0" f i] i
      by (cases "om_find f (ps_map ps)") (auto simp: count_with_flag ps')
    have "GetNumberOfSocialsWithFlag FRIEND ps' \<le> FRIEND_LIMIT" "GetNumberOfSocialsWithFlag IGNORED ps' \<le> IGNORE_LIMIT"
      using counts [of FRIEND] counts [of IGNORED] room assms(2,3) unfolding flags
      by (cases ign; auto split: if_splits)+
    moreover have "HasFriend g ps' \<longleftrightarrow> HasFriend g ps \<or> (\<not> ign \<and> g = f)" "HasIgnore g ps' \<longleftrightarrow> HasIgnore g ps \<or> (ign \<and> g = f)"
      using i flags by (auto simp: HasFriend_def HasIgnore_def ps' om_simps split: option.splits)
    ultimately show ?thesis using r True room by simp
  qed
qed

theorem AddToSocialList_correct_witness:
  "case AddToSocialList 2 False PlayerSocial_init (\<lambda>k. None) of (added, ps', db') \<Rightarrow> added \<and> HasFriend 2 ps'"
  using AddToSocialList_correct [where ps = PlayerSocial_init and f = 2 and ign = False and db = "\<lambda>k. None" and g = 2]
  by (auto simp: PlayerSocial_init_def GetNumberOfSocialsWithFlag_def FRIEND_LIMIT_def IGNORE_LIMIT_def)

text \<open>
  C26: Removing undoes adding: a mark that the player did not have before is gone again, and the
  list is what it was, except that a player who had no entry at all does not get one.
\<close>

theorem remove_after_add:
  assumes added: "AddToSocialList f ign ps db = (True, ps1, db1)"
    and new: "\<not> (if ign then HasIgnore f ps else HasFriend f ps)"
    and removed: "RemoveFromSocialList f ign ps1 db1 = (ps2, db2)"
    and marked: "\<And>i. om_find f (ps_map ps) = Some i \<Longrightarrow> fi_Flags i \<noteq> 0"
  shows "om_find g (ps_map ps2) = om_find g (ps_map ps)"
proof -
  let ?flag = "if ign then IGNORED else FRIEND"
  have undo: "(x OR ?flag) AND NOT ?flag = x" if "x AND ?flag = 0" for x :: u32
  proof (rule bit_word_eqI)
    fix n
    have "\<not> (bit x n \<and> bit ?flag n)" using that by (metis bit_0_eq bit_and_iff bot_apply bot_bool_def)
    then show "bit ((x OR ?flag) AND NOT ?flag) n = bit x n"
      by (auto simp: bit_and_iff bit_or_iff bit_not_iff dest: bit_imp_le_length)
  qed
  show ?thesis
  proof (cases "om_find f (ps_map ps)")
    case None
    then have "ps_map ps1 = om_set f (FriendInfo ?flag '''') (ps_map ps)"
      using added by (auto simp: AddToSocialList_def Let_def split: if_splits)
    then have "ps_map ps2 = om_erase f (ps_map ps1)"
      using removed undo [of 0] by (auto simp: RemoveFromSocialList_def Let_def om_simps FriendInfo_def)
    with None \<open>ps_map ps1 = _\<close> show ?thesis by (simp add: om_simps)
  next
    case (Some i)
    then have m1: "ps_map ps1 = om_set f (i\<lparr>fi_Flags := fi_Flags i OR ?flag\<rparr>) (ps_map ps)"
      using added by (auto simp: AddToSocialList_def Let_def split: if_splits)
    have "fi_Flags i AND ?flag = 0" using new Some by (auto simp: HasFriend_def HasIgnore_def split: if_splits)
    then have "ps_map ps2 = om_set f i (ps_map ps1)"
      using removed marked m1 Some undo by (auto simp: RemoveFromSocialList_def Let_def om_simps)
    with Some m1 show ?thesis by (simp add: om_simps)
  qed
qed


theorem remove_after_add_witness:
  "om_find 2 (ps_map (fst (RemoveFromSocialList 2 False \<lparr>ps_map = [(2, FriendInfo FRIEND '''')], ps_guid = 1\<rparr> Map.empty)))
     = om_find 2 (ps_map (PlayerSocial_init\<lparr>ps_guid := 1\<rparr>))"
proof -
  let ?ps = "PlayerSocial_init\<lparr>ps_guid := 1\<rparr>" and ?ps1 = "\<lparr>ps_map = [(2, FriendInfo FRIEND '''')], ps_guid = 1\<rparr>"
  have add: "AddToSocialList 2 False ?ps Map.empty = (True, ?ps1, Map.empty((1, 2) \<mapsto> (FRIEND, '''')))"
    by (simp add: AddToSocialList_def PlayerSocial_init_def GetNumberOfSocialsWithFlag_def FRIEND_LIMIT_def om_simps)
  obtain ps2 db2 where rem: "RemoveFromSocialList 2 False ?ps1 (Map.empty((1, 2) \<mapsto> (FRIEND, ''''))) = (ps2, db2)"
    by (cases "RemoveFromSocialList 2 False ?ps1 (Map.empty((1, 2) \<mapsto> (FRIEND, '''')))")
  have "om_find 2 (ps_map ps2) = om_find 2 (ps_map ?ps)"
    by (rule remove_after_add [OF add _ rem]) (simp_all add: HasFriend_def PlayerSocial_init_def om_simps)
  moreover have "fst (RemoveFromSocialList 2 False ?ps1 Map.empty) = ps2"
    using rem by (simp add: RemoveFromSocialList_def Let_def om_find_def split: if_splits)
  ultimately show ?thesis by simp
qed







end
