(* ===== verification/Spec2Isabelle.thy ===== *)
theory Spec2Isabelle
  imports EventMap Rbac ChannelHandler Combat Social
begin

text \<open>Header to be completed.\<close>

end
